(* ===== verification/Prelude.thy ===== *)
theory Prelude
  imports Main "HOL-Library.Word" "HOL-Library.Monad_Syntax"
begin

text \<open>
  Shared ground of the development.  The fixed-width integer types of the C code, byte arrays
  with their bounds check, bit fields of a status byte, and the rules that push a property
  through a sequence of fallible state transformers.

  A C function that may touch memory outside an array returns an \<open>option\<close>: \<open>None\<close> is the
  out-of-bounds access (undefined behaviour in C).  State is passed explicitly; a function that
  also returns a value returns the pair of the value and the new state.  The \<open>do\<close> blocks of
  the model are those of \<open>Option.bind\<close>, so a fault ends the whole operation.
\<close>

unbundle bit_operations_syntax

named_theorems step_rules \<open>rules that push a relation through one primitive operation\<close>
named_theorems cost_rules \<open>rules that count what one primitive operation spends\<close>

type_synonym u8 = "8 word"
type_synonym u16 = "16 word"
type_synonym u32 = "32 word"
type_synonym bytes = "nat \<Rightarrow> u8"

subsection \<open>Byte arrays\<close>

text \<open>An array object of \<open>n\<close> bytes: an access at \<open>i \<ge> n\<close> has no value.\<close>

definition arr_get :: "nat \<Rightarrow> bytes \<Rightarrow> nat \<Rightarrow> u8 option" where
  "arr_get n f i = (if i < n then Some (f i) else None)"

definition arr_set :: "nat \<Rightarrow> bytes \<Rightarrow> nat \<Rightarrow> u8 \<Rightarrow> bytes option" where
  "arr_set n f i v = (if i < n then Some (f(i := v)) else None)"

lemma arr_get_in [simp]: "i < n \<Longrightarrow> arr_get n f i = Some (f i)"
  by (simp add: arr_get_def)

lemma arr_set_in [simp]: "i < n \<Longrightarrow> arr_set n f i v = Some (f(i := v))"
  by (simp add: arr_set_def)

lemma arr_get_out [simp]: "n \<le> i \<Longrightarrow> arr_get n f i = None"
  by (simp add: arr_get_def)

lemma arr_set_out [simp]: "n \<le> i \<Longrightarrow> arr_set n f i v = None"
  by (simp add: arr_set_def)

lemma arr_get_None_iff: "arr_get n f i = None \<longleftrightarrow> n \<le> i"
  by (simp add: arr_get_def)

lemma arr_set_None_iff: "arr_set n f i v = None \<longleftrightarrow> n \<le> i"
  by (simp add: arr_set_def)

subsection \<open>Bits of a word\<close>

definition put_bit :: "nat \<Rightarrow> bool \<Rightarrow> 'a::len word \<Rightarrow> 'a word" where
  "put_bit n b w = (if b then Bit_Operations.set_bit n w else unset_bit n w)"

lemma bit_put_bit [simp]:
  "bit (put_bit n b w) k \<longleftrightarrow> (if k = n then b \<and> n < LENGTH('a) else bit w k)"
  for w :: "'a::len word"
  by (auto simp: put_bit_def bit_set_bit_iff bit_unset_bit_iff dest: bit_imp_le_length)

lemma unat_u16_of_u8 [simp]: "unat (ucast (w :: u8) :: u16) = unat w"
  by (simp add: unsigned_ucast_eq take_bit_nat_eq_self_iff order.strict_trans2 [OF unsigned_less])

lemma unat_u8_lt [simp]: "unat (w :: u8) < 256"
  using unsigned_less [of w, where ?'a = nat] by simp

lemma unat_u16_lt [simp]: "unat (w :: u16) < 65536"
  using unsigned_less [of w, where ?'a = nat] by simp

lemma unat_u32_lt [simp]: "unat (w :: u32) < 4294967296"
  using unsigned_less [of w, where ?'a = nat] by simp

text \<open>The signed reading of a word of width \<open>2 * m\<close>.\<close>

lemma wrap_signed:
  fixes u m :: int
  assumes "0 \<le> u" "u < 2 * m"
  shows "(u + m) mod (2 * m) - m = (if u < m then u else u - 2 * m)"
proof (cases "u < m")
  case True
  then show ?thesis using assms mod_pos_pos_trivial[of "u + m" "2 * m"] by simp
next
  case False
  have "(u + m) mod (2 * m) = (u - m + 2 * m) mod (2 * m)" by (simp add: algebra_simps)
  also have "\<dots> = (u - m) mod (2 * m)" by (rule mod_add_self2)
  also have "\<dots> = u - m" using False assms by (intro mod_pos_pos_trivial) linarith+
  finally show ?thesis using False by simp
qed

lemma sint_u8: "sint w = (if unat w < 128 then int (unat w) else int (unat w) - 256)" for w :: u8
proof -
  have "sint w = (int (unat w) + 128) mod (2 * 128) - 128"
    by (simp add: sint_uint signed_take_bit_eq_take_bit_shift take_bit_eq_mod)
  also have "\<dots> = (if int (unat w) < 128 then int (unat w) else int (unat w) - 2 * 128)"
    using unat_u8_lt[of w] by (intro wrap_signed) linarith+
  finally show ?thesis by (simp only: of_nat_less_numeral_iff) simp
qed

lemma sint_u32: "sint d = (if unat d < 2147483648 then int (unat d) else int (unat d) - 4294967296)" for d :: u32
proof -
  have "sint d = (int (unat d) + 2147483648) mod (2 * 2147483648) - 2147483648"
    by (simp add: sint_uint signed_take_bit_eq_take_bit_shift take_bit_eq_mod)
  also have "\<dots> = (if int (unat d) < 2147483648 then int (unat d) else int (unat d) - 2 * 2147483648)"
    using unat_u32_lt[of d] by (intro wrap_signed) linarith+
  finally show ?thesis by (simp only: of_nat_less_numeral_iff) simp
qed

text \<open>Little-endian assembly of a 16-bit word, \<open>lo | (hi << 8)\<close> in the C code.\<close>

definition mk_word :: "u8 \<Rightarrow> u8 \<Rightarrow> u16" where
  "mk_word lo hi = ucast lo OR push_bit 8 (ucast hi)"

lemma mk_word_parts [simp]: "mk_word (ucast w) (ucast (drop_bit 8 w)) = w"
  for w :: u16
  by (rule bit_word_eqI)
     (auto simp: mk_word_def bit_simps dest: bit_imp_le_length)

lemma mk_word_lo [simp]: "(ucast (mk_word lo hi) :: u8) = lo"
  by (rule bit_word_eqI) (auto simp: mk_word_def bit_simps)

lemma mk_word_hi [simp]: "(ucast (drop_bit 8 (mk_word lo hi)) :: u8) = hi"
  by (rule bit_word_eqI) (auto simp: mk_word_def bit_simps dest: bit_imp_le_length)

subsection \<open>High masks\<close>

lemma and_not_mask: "a AND NOT (mask n) = a - take_bit n a" for a :: "'a::len word"
proof -
  have "a AND NOT (mask n) = push_bit n (drop_bit n a)"
    by (rule bit_word_eqI) (auto simp: bit_simps dest: bit_imp_le_length)
  then show ?thesis
    using bits_ident [of n a] by (metis add_diff_cancel_right')
qed

lemma unat_and_not_mask: "unat (a AND NOT (mask n)) = unat a - unat a mod 2 ^ n" for a :: "'a::len word"
proof -
  have t: "unat (take_bit n a) = unat a mod 2 ^ n"
    by (simp only: unsigned_take_bit_eq take_bit_eq_mod [of n "unat a"])
  then have "take_bit n a \<le> a"
    unfolding word_le_nat_alt by simp
  then show ?thesis
    unfolding and_not_mask by (simp only: unat_sub t)
qed

lemma page_mask: "unat (a AND 0xFF00) = unat a - unat a mod 256" for a :: u16
proof -
  have "(0xFF00 :: u16) = NOT (mask 8)" by (simp add: mask_eq_exp_minus_1)
  then show ?thesis using unat_and_not_mask [of a 8] by simp
qed

lemma block_mask: "unat (a AND 0xF000) = unat a - unat a mod 4096" for a :: u16
proof -
  have "(0xF000 :: u16) = NOT (mask 12)" by (simp add: mask_eq_exp_minus_1)
  then show ?thesis using unat_and_not_mask [of a 12] by simp
qed

subsection \<open>Cells of a grid\<close>

lemma cell_coords: "k * n \<le> x \<and> x < k * n + n \<longleftrightarrow> x div n = k" if "0 < n" for k n x :: nat
proof
  assume "k * n \<le> x \<and> x < k * n + n"
  then show "x div n = k" by (intro div_nat_eqI) (simp_all add: algebra_simps)
next
  assume "x div n = k"
  with div_mult_mod_eq[of x n] have "k * n + x mod n = x" by simp
  with mod_less_divisor[OF that, of x] show "k * n \<le> x \<and> x < k * n + n" by linarith
qed

lemma cell_offset: "x div n = k \<Longrightarrow> x - k * n = x mod n" for x n k :: nat
  using minus_div_mult_eq_mod[of x n] by blast

subsection \<open>Relations through fallible state transformers\<close>

text \<open>
  \<open>rel_res Q B s r\<close>: a result state of \<open>r\<close> is related to \<open>s\<close> by \<open>Q\<close>, and a fault comes from a
  state that is related to \<open>s\<close> and satisfies \<open>B\<close>.  \<open>rel_val\<close> says the same of a result that pairs
  a value with the state.
\<close>

definition rel_res :: "('s \<Rightarrow> 's \<Rightarrow> bool) \<Rightarrow> ('s \<Rightarrow> bool) \<Rightarrow> 's \<Rightarrow> 's option \<Rightarrow> bool" where
  "rel_res Q B s r \<longleftrightarrow> (case r of None \<Rightarrow> \<exists>t. Q s t \<and> B t | Some t \<Rightarrow> Q s t)"

definition rel_val :: "('s \<Rightarrow> 's \<Rightarrow> bool) \<Rightarrow> ('s \<Rightarrow> bool) \<Rightarrow> 's \<Rightarrow> ('v \<times> 's) option \<Rightarrow> bool" where
  "rel_val Q B s r \<longleftrightarrow> (case r of None \<Rightarrow> \<exists>t. Q s t \<and> B t | Some (v, t) \<Rightarrow> Q s t)"

lemma rel_resI:
  assumes "\<And>t. r = Some t \<Longrightarrow> Q s t" and "r = None \<Longrightarrow> Q s s \<and> B s"
  shows "rel_res Q B s r"
  using assms by (cases r) (auto simp: rel_res_def)

lemma rel_valI:
  assumes "\<And>v t. r = Some (v, t) \<Longrightarrow> Q s t" and "r = None \<Longrightarrow> Q s s \<and> B s"
  shows "rel_val Q B s r"
  using assms by (cases r) (auto simp: rel_val_def)

lemma bind_Some_map: "Option.bind r (\<lambda>x. Some (g x)) = map_option g r"
  by (cases r) simp_all

lemma if_SomeE:
  assumes "(if b then x else y) = Some z" and "b \<Longrightarrow> x = Some z \<Longrightarrow> P" and "\<not> b \<Longrightarrow> y = Some z \<Longrightarrow> P"
  shows P
  using assms by (cases b) simp_all

end
