(* ===== verification/Mem_Ops.thy ===== *)
theory Mem_Ops
  imports Prelude
begin

text \<open>
  \<^verbatim>\<open>memset\<close> and \<^verbatim>\<open>memcpy\<close> of \<^verbatim>\<open>Src/memory.c\<close>: the byte loops, and the closed form of what
  they leave in memory.  A byte array is a function from indices to bytes; the loops write
  index \<open>0\<close> first, so after \<open>Suc n\<close> rounds the last write is the one at offset \<open>n\<close>.
\<close>

primrec memset :: "bytes \<Rightarrow> nat \<Rightarrow> u8 \<Rightarrow> nat \<Rightarrow> bytes" where
  "memset f p v 0 = f"
| "memset f p v (Suc n) = (memset f p v n)(p + n := v)"

primrec memcpy :: "bytes \<Rightarrow> nat \<Rightarrow> bytes \<Rightarrow> nat \<Rightarrow> nat \<Rightarrow> bytes" where
  "memcpy f p g q 0 = f"
| "memcpy f p g q (Suc n) = (memcpy f p g q n)(p + n := g (q + n))"

lemma memset_apply: "memset f p v n i = (if p \<le> i \<and> i < p + n then v else f i)"
  by (induction n) auto

lemma memcpy_apply:
  "memcpy f p g q n i = (if p \<le> i \<and> i < p + n then g (q + (i - p)) else f i)"
  by (induction n) auto

text \<open>Both write exactly the \<open>n\<close> bytes from \<open>p\<close>: outside, memory is unchanged.\<close>

lemma memset_outside: "i < p \<or> p + n \<le> i \<Longrightarrow> memset f p v n i = f i"
  by (auto simp: memset_apply)

lemma memcpy_outside: "i < p \<or> p + n \<le> i \<Longrightarrow> memcpy f p g q n i = f i"
  by (auto simp: memcpy_apply)

lemma memset_zero_whole: "i < n \<Longrightarrow> memset f 0 v n i = v"
  by (simp add: memset_apply)

lemma memcpy_whole: "i < n \<Longrightarrow> memcpy f 0 g 0 n i = g i"
  by (simp add: memcpy_apply)

end
