(* ===== verification/Apple_State.thy ===== *)
theory Apple_State
  imports Mem_Ops "HOL-Library.Log_Nat"
begin

text \<open>
  The globals of the Apple II emulator: \<^verbatim>\<open>AppleCpu.c\<close> (registers), \<^verbatim>\<open>AppleMem.c\<close> (RAM, ROM,
  language card, disk PROM) and \<^verbatim>\<open>AppleDevice.c\<close> (soft switches, paddles, video, Disk II).
  One record per file, put together in the record \<open>machine\<close>.  Constants are those of \<^verbatim>\<open>Predef.h\<close>.

  \<^verbatim>\<open>ac_Run\<close> passes the address of its local variable \<^verbatim>\<open>cycle\<close> to every helper; the model keeps
  that variable in the field \<open>cycle\<close> of the CPU record.  On the 32-bit target \<^verbatim>\<open>unsigned long\<close> is
  a 32-bit word.  The arrays of \<^verbatim>\<open>float\<close>s are kept as rationals, rounded to single precision by
  \<open>f32\<close> at every operation.
\<close>

subsection \<open>Constants\<close>

definition RAMSIZE :: nat where "RAMSIZE = 0xC000"
definition ROMSIZE :: nat where "ROMSIZE = 0x3000"
definition ROMSTART :: u16 where "ROMSTART = 0xD000"
definition SL6START :: u16 where "SL6START = 0xC600"
definition SL6SIZE :: nat where "SL6SIZE = 0x0100"
definition LGCSTART :: u16 where "LGCSTART = 0xD000"
definition LGCSIZE :: nat where "LGCSIZE = 0x3000"
definition BK2START :: u16 where "BK2START = 0xD000"
definition BK2SIZE :: nat where "BK2SIZE = 0x1000"
definition SCREENSIZE_X :: nat where "SCREENSIZE_X = 280"
definition SCREENSIZE_Y :: nat where "SCREENSIZE_Y = 192"
definition DISKSIZE :: nat where "DISKSIZE = 232960"

lemmas size_defs = RAMSIZE_def ROMSIZE_def ROMSTART_def SL6START_def SL6SIZE_def LGCSTART_def
  LGCSIZE_def BK2START_def BK2SIZE_def

subsection \<open>Records\<close>

record cpu_state =
  cpu_tick :: u32
  A :: u8
  X :: u8
  Y :: u8
  SP :: u8
  PC :: u16
  PS :: u8
  cycle :: u32

record mem_state =
  LCWritable :: bool
  LCReadable :: bool
  LCBank2Enable :: bool
  LCPreWriteFlipflop :: bool
  ram :: bytes
  rom :: bytes
  lgc :: bytes
  bk2 :: bytes
  sl6 :: bytes

record FloppyDrive =
  filename :: bytes
  readOnly :: bool
  data :: bytes
  motorOn :: bool
  writeMode :: bool
  track :: u8
  nibble :: u16

record rect =
  rx :: int
  ry :: int
  rwidth :: int
  rheight :: int

record dev_state =
  colorMonitor :: bool
  GCP :: "nat \<Rightarrow> rat"
  GCC :: "nat \<Rightarrow> rat"
  GCDir :: "nat \<Rightarrow> int"
  GCA :: "nat \<Rightarrow> int"
  GCActionSpeed :: u8
  GCReleaseSpeed :: u8
  GCCrigger :: int
  currentDrive :: nat
  textMode :: bool
  mixedMode :: bool
  hires_Mode :: bool
  videoPage :: u8
  videoAddress :: u16
  pixelGR :: rect
  LoResCache :: "nat \<Rightarrow> nat \<Rightarrow> int"
  HiResCache :: "nat \<Rightarrow> nat \<Rightarrow> int"
  previousBit :: "nat \<Rightarrow> nat \<Rightarrow> u8"
  flashCycle :: u8
  keyboard :: u8
  colorbuffer :: bytes
  disk :: "nat \<Rightarrow> FloppyDrive"
  updatedrive :: u8
  phases :: "nat \<Rightarrow> nat \<Rightarrow> bool"
  phasesB :: "nat \<Rightarrow> nat \<Rightarrow> bool"
  phasesBB :: "nat \<Rightarrow> nat \<Rightarrow> bool"
  pIdx :: "nat \<Rightarrow> nat"
  pIdxB :: "nat \<Rightarrow> nat"
  halfTrackPos :: "nat \<Rightarrow> int"
  dLatch :: u8

record machine =
  cpu :: cpu_state
  mem :: mem_state
  dev :: dev_state

subsection \<open>Single-precision arithmetic\<close>

text \<open>
  \<open>f32 x\<close> is the single-precision number nearest to \<open>x\<close>, ties to even: a significand of 24 bits
  scaled by a power of two.  The paddle values stay far inside the normal range, so exponent
  limits play no part.
\<close>

definition round_even :: "rat \<Rightarrow> int" where
  "round_even y = (let f = \<lfloor>y\<rfloor>; r = y - of_int f in
     if r < 1 / 2 then f else if r > 1 / 2 then f + 1 else if even f then f else f + 1)"

definition rat_exponent :: "rat \<Rightarrow> int" where
  "rat_exponent x = (let (p, q) = quotient_of x; e = bitlen \<bar>p\<bar> - bitlen q in
     if \<bar>x\<bar> < 2 powi e then e - 1 else e)"

definition f32 :: "rat \<Rightarrow> rat" where
  "f32 x = (if x = 0 then 0
     else let u = 2 powi (rat_exponent x - 23) in of_int (round_even (x / u)) * u)"

lemma f32_zero [simp]: "f32 0 = 0"
  by (simp add: f32_def)

lemma round_even_of_int [simp]: "round_even (of_int n) = n"
  by (simp add: round_even_def)

subsection \<open>Drive selection\<close>

text \<open>\<open>upd_drive f d\<close> rewrites \<^verbatim>\<open>disk[currentDrive]\<close>; \<open>cur d\<close> reads it.\<close>

definition cur :: "dev_state \<Rightarrow> FloppyDrive" where
  "cur d = disk d (currentDrive d)"

definition upd_cur :: "(FloppyDrive \<Rightarrow> FloppyDrive) \<Rightarrow> dev_state \<Rightarrow> dev_state" where
  "upd_cur f d = d\<lparr>disk := (disk d)(currentDrive d := f (cur d))\<rparr>"

lemma cur_upd_cur [simp]: "cur (upd_cur f d) = f (cur d)"
  by (simp add: cur_def upd_cur_def)

subsection \<open>The loaded image\<close>

text \<open>The values the globals have before any code runs: their initialisers, and zero otherwise.\<close>

definition zero_drive :: FloppyDrive where
  "zero_drive = \<lparr>filename = (\<lambda>_. 0), readOnly = False, data = (\<lambda>_. 0), motorOn = False,
     writeMode = False, track = 0, nibble = 0\<rparr>"

definition mem_image :: mem_state where
  "mem_image = \<lparr>LCWritable = True, LCReadable = False, LCBank2Enable = True,
     LCPreWriteFlipflop = False, ram = (\<lambda>_. 0), rom = (\<lambda>_. 0), lgc = (\<lambda>_. 0), bk2 = (\<lambda>_. 0),
     sl6 = (\<lambda>_. 0)\<rparr>"

definition dev_image :: dev_state where
  "dev_image = \<lparr>colorMonitor = False, GCP = (\<lambda>_. 0), GCC = (\<lambda>_. 0), GCDir = (\<lambda>_. 0), GCA = (\<lambda>_. 0),
     GCActionSpeed = 0, GCReleaseSpeed = 0, GCCrigger = 0, currentDrive = 0, textMode = False,
     mixedMode = False, hires_Mode = False, videoPage = 0, videoAddress = 0,
     pixelGR = \<lparr>rx = 0, ry = 0, rwidth = 0, rheight = 0\<rparr>, LoResCache = (\<lambda>_ _. 0),
     HiResCache = (\<lambda>_ _. 0), previousBit = (\<lambda>_ _. 0), flashCycle = 0, keyboard = 0,
     colorbuffer = (\<lambda>_. 0), disk = (\<lambda>_. zero_drive), updatedrive = 0, phases = (\<lambda>_ _. False),
     phasesB = (\<lambda>_ _. False), phasesBB = (\<lambda>_ _. False), pIdx = (\<lambda>_. 0), pIdxB = (\<lambda>_. 0),
     halfTrackPos = (\<lambda>_. 0), dLatch = 0\<rparr>"

definition machine_image :: machine where
  "machine_image = \<lparr>cpu = \<lparr>cpu_tick = 0, A = 0, X = 0, Y = 0, SP = 0, PC = 0, PS = 0, cycle = 0\<rparr>,
     mem = mem_image, dev = dev_image\<rparr>"

lemma machine_image_parts [simp]:
  "cpu machine_image = \<lparr>cpu_tick = 0, A = 0, X = 0, Y = 0, SP = 0, PC = 0, PS = 0, cycle = 0\<rparr>"
  "mem machine_image = mem_image" "dev machine_image = dev_image"
  by (simp_all add: machine_image_def)

end
