(* ===== verification/Apple_Device.thy ===== *)
theory Apple_Device
  imports Apple_State
begin

text \<open>
  \<^verbatim>\<open>AppleDevice.c\<close>: power-on state of the devices, game paddles, the soft switches of page
  \<^verbatim>\<open>$C0\<close> and the Disk II drive.  The video renderer is in the theory \<open>Apple_Video\<close>.  The lemmas
  show the drive-head invariant, the language-card state machine, and which access can fault.
\<close>

subsection \<open>Reset\<close>

definition ad_Reset :: "dev_state \<Rightarrow> dev_state" where
  "ad_Reset d = d\<lparr>
     colorMonitor := True, keyboard := 0,
     pixelGR := \<lparr>rx = 0, ry = 0, rwidth = 7, rheight = 4\<rparr>,
     updatedrive := 0, currentDrive := 0, dLatch := 0,
     phases := (\<lambda>_ _. False), phasesB := (\<lambda>_ _. False), phasesBB := (\<lambda>_ _. False),
     pIdx := (\<lambda>_. 0), pIdxB := (\<lambda>_. 0), halfTrackPos := (\<lambda>_. 0),
     GCP := (\<lambda>_. 127), GCC := (\<lambda>_. 0), GCDir := (\<lambda>_. 0), GCA := (\<lambda>_. 0),
     GCActionSpeed := 64, GCReleaseSpeed := 64,
     textMode := True, mixedMode := False, videoPage := 1, hires_Mode := False,
     LoResCache := (\<lambda>_ _. 0), HiResCache := (\<lambda>_ _. 0), previousBit := (\<lambda>_ _. 0),
     flashCycle := 0\<rparr>"

definition ad_ResetFloppy :: "dev_state \<Rightarrow> dev_state" where
  "ad_ResetFloppy d = d\<lparr>disk := (disk d)(0 := zero_drive, 1 := zero_drive)\<rparr>"

text \<open>The disk image \<^verbatim>\<open>rawData\<close> is a table of the build; it is an argument here.\<close>

definition ad_InsertFloppy :: "bytes \<Rightarrow> nat \<Rightarrow> dev_state \<Rightarrow> bool \<times> dev_state" where
  "ad_InsertFloppy rawData drv d =
     (let d = d\<lparr>disk := (disk d)(0 := zero_drive, 1 := zero_drive)\<rparr>;
          fd = disk d drv
      in (True, d\<lparr>disk := (disk d)(drv := fd\<lparr>data := memcpy (data fd) 0 rawData 0 DISKSIZE\<rparr>)\<rparr>))"

definition ad_GetDiskMotorState :: "dev_state \<Rightarrow> bool" where
  "ad_GetDiskMotorState d = motorOn (cur d)"

text \<open>\<^verbatim>\<open>motorOn && ++updatedrive\<close>: the counter is a byte and wraps to 0 after 255.\<close>

definition ad_UpdateFloppyDisk :: "dev_state \<Rightarrow> bool \<times> dev_state" where
  "ad_UpdateFloppyDisk d =
     (if motorOn (cur d)
      then let d' = d\<lparr>updatedrive := updatedrive d + 1\<rparr> in (updatedrive d' \<noteq> 0, d')
      else (False, d))"

subsection \<open>Paddles\<close>

definition ad_resetPaddles :: "u32 \<Rightarrow> dev_state \<Rightarrow> dev_state" where
  "ad_resetPaddles tick d =
     d\<lparr>GCC := (GCC d)(0 := f32 (GCP d 0 * GCP d 0), 1 := f32 (GCP d 1 * GCP d 1)),
       GCCrigger := uint tick\<rparr>"

definition GCFreq :: rat where "GCFreq = f32 (66 / 10)"

definition ad_readPaddle :: "u32 \<Rightarrow> nat \<Rightarrow> dev_state \<Rightarrow> u8 \<times> dev_state" where
  "ad_readPaddle tick pdl d =
     (let c = f32 (GCC d pdl - f32 (f32 (of_int (uint tick - GCCrigger d)) / GCFreq))
      in if c \<le> 0 then (0, d\<lparr>GCC := (GCC d)(pdl := 0)\<rparr>)
         else (0x80, d\<lparr>GCC := (GCC d)(pdl := c)\<rparr>))"

subsection \<open>Disk II\<close>

definition head_phase :: "u16 \<Rightarrow> nat" where
  "head_phase address = unat (drop_bit 1 (address AND 7))"

text \<open>
  \<^verbatim>\<open>ad_stepMotor\<close>.  A phase index is in \<open>{0..3}\<close>, so \<^verbatim>\<open>(phase + 1) & 3\<close> and \<^verbatim>\<open>(phase - 1) & 3\<close> are
  taken modulo 4; the decrement of the half-track counter happens only when its guard holds.
\<close>

definition shift_phases :: "nat \<Rightarrow> dev_state \<Rightarrow> dev_state" where
  "shift_phases phase d =
     (let c = currentDrive d;
          d = d\<lparr>phasesBB := (phasesBB d)(c := (phasesBB d c)(pIdxB d c := phasesB d c (pIdxB d c)))\<rparr>;
          d = d\<lparr>phasesB := (phasesB d)(c := (phasesB d c)(pIdx d c := phases d c (pIdx d c)))\<rparr>;
          d = d\<lparr>pIdxB := (pIdxB d)(c := pIdx d c)\<rparr>
      in d\<lparr>pIdx := (pIdx d)(c := phase)\<rparr>)"

definition move_head :: "bool \<Rightarrow> bool \<Rightarrow> int \<Rightarrow> int" where
  "move_head inward outward h =
     (let h = (if inward then (if h - 1 < 0 then 0 else h - 1) else h)
      in if outward then (if h + 1 > 140 then 140 else h + 1) else h)"

definition ad_stepMotor :: "u16 \<Rightarrow> dev_state \<Rightarrow> dev_state" where
  "ad_stepMotor address d =
     (let c = currentDrive d; phase = head_phase address; d = shift_phases phase d
      in if \<not> bit address 0
         then d\<lparr>phases := (phases d)(c := (phases d c)(phase := False))\<rparr>
         else
           let h = move_head (phasesBB d c ((phase + 1) mod 4)) (phasesBB d c ((phase + 3) mod 4))
                 (halfTrackPos d c);
               d = d\<lparr>halfTrackPos := (halfTrackPos d)(c := h),
                     phases := (phases d)(c := (phases d c)(phase := True))\<rparr>
           in upd_cur (\<lambda>fd. fd\<lparr>track := word_of_int ((h + 1) div 2)\<rparr>) d)"

definition ad_setDrv :: "nat \<Rightarrow> dev_state \<Rightarrow> dev_state" where
  "ad_setDrv drv d =
     (let other = (if drv = 0 then 1 else 0);
          a = disk d drv; b = disk d other;
          dk = (disk d)(drv := a\<lparr>motorOn := motorOn b \<or> motorOn a\<rparr>);
          dk = dk(other := (dk other)\<lparr>motorOn := False\<rparr>)
      in d\<lparr>disk := dk, currentDrive := drv\<rparr>)"

text \<open>Index of the nibble under the head: \<^verbatim>\<open>track * 0x1A00 + nibble\<close>, in \<^verbatim>\<open>int\<close> arithmetic.\<close>

definition head_index :: "FloppyDrive \<Rightarrow> nat" where
  "head_index fd = unat (track fd) * 0x1A00 + unat (nibble fd)"

text \<open>Soft switch \<^verbatim>\<open>$C0EC\<close>: move one byte between the latch and the disk, then advance.\<close>

definition disk_shift :: "dev_state \<Rightarrow> (u8 \<times> dev_state) option" where
  "disk_shift d =
     (let fd = cur d in do {
        d \<leftarrow> (if writeMode fd
              then do { f \<leftarrow> arr_set DISKSIZE (data fd) (head_index fd) (dLatch d);
                        Some (upd_cur (\<lambda>fd. fd\<lparr>data := f\<rparr>) d) }
              else do { v \<leftarrow> arr_get DISKSIZE (data fd) (head_index fd);
                        Some (d\<lparr>dLatch := v\<rparr>) });
        let d = upd_cur (\<lambda>fd. fd\<lparr>nibble := word_of_nat ((unat (nibble fd) + 1) mod 0x1A00)\<rparr>) d;
        Some (dLatch d, d) })"

subsection \<open>Soft switches\<close>

definition video_switch :: "u16 \<Rightarrow> dev_state \<Rightarrow> dev_state" where
  "video_switch address d =
     (if address = 0xC050 then d\<lparr>textMode := False\<rparr>
      else if address = 0xC051 then d\<lparr>textMode := True\<rparr>
      else if address = 0xC052 then d\<lparr>mixedMode := False\<rparr>
      else if address = 0xC053 then d\<lparr>mixedMode := True\<rparr>
      else if address = 0xC054 then d\<lparr>videoPage := 1\<rparr>
      else if address = 0xC055 then d\<lparr>videoPage := 2\<rparr>
      else if address = 0xC056 then d\<lparr>hires_Mode := False\<rparr>
      else if address = 0xC057 then d\<lparr>hires_Mode := True\<rparr>
      else d)"

definition lc_switch :: "u16 \<Rightarrow> bool \<Rightarrow> mem_state \<Rightarrow> mem_state" where
  "lc_switch address WRT s =
     (if address = 0xC080 \<or> address = 0xC084 then
        s\<lparr>LCBank2Enable := True, LCReadable := True, LCWritable := False, LCPreWriteFlipflop := False\<rparr>
      else if address = 0xC081 \<or> address = 0xC085 then
        s\<lparr>LCBank2Enable := True, LCReadable := False,
          LCWritable := LCWritable s \<or> LCPreWriteFlipflop s, LCPreWriteFlipflop := \<not> WRT\<rparr>
      else if address = 0xC082 \<or> address = 0xC086 then
        s\<lparr>LCBank2Enable := True, LCReadable := False, LCWritable := False, LCPreWriteFlipflop := False\<rparr>
      else if address = 0xC083 \<or> address = 0xC087 then
        s\<lparr>LCBank2Enable := True, LCReadable := True,
          LCWritable := LCWritable s \<or> LCPreWriteFlipflop s, LCPreWriteFlipflop := \<not> WRT\<rparr>
      else if address = 0xC088 \<or> address = 0xC08C then
        s\<lparr>LCBank2Enable := False, LCReadable := True, LCWritable := False, LCPreWriteFlipflop := False\<rparr>
      else if address = 0xC089 \<or> address = 0xC08D then
        s\<lparr>LCBank2Enable := False, LCReadable := False,
          LCWritable := LCWritable s \<or> LCPreWriteFlipflop s, LCPreWriteFlipflop := \<not> WRT\<rparr>
      else if address = 0xC08A \<or> address = 0xC08E then
        s\<lparr>LCBank2Enable := False, LCReadable := False, LCWritable := False, LCPreWriteFlipflop := False\<rparr>
      else if address = 0xC08B \<or> address = 0xC08F then
        s\<lparr>LCBank2Enable := False, LCReadable := True,
          LCWritable := LCWritable s \<or> LCPreWriteFlipflop s, LCPreWriteFlipflop := \<not> WRT\<rparr>
      else s)"

text \<open>The disk controller's cases; the second component of the result is the value of a case that
  returns, \<open>None\<close> for a case that ends in \<^verbatim>\<open>break\<close>.\<close>

definition disk_switch :: "u16 \<Rightarrow> u8 \<Rightarrow> dev_state \<Rightarrow> (u8 option \<times> dev_state) option" where
  "disk_switch address value d =
     (if 0xC0E0 \<le> address \<and> address \<le> 0xC0E7 then Some (None, ad_stepMotor address d)
      else if address = 0xCFFF \<or> address = 0xC0E8 then
        Some (None, upd_cur (\<lambda>fd. fd\<lparr>motorOn := False\<rparr>) d)
      else if address = 0xC0E9 then Some (None, upd_cur (\<lambda>fd. fd\<lparr>motorOn := True\<rparr>) d)
      else if address = 0xC0EA then Some (None, ad_setDrv 0 d)
      else if address = 0xC0EB then Some (None, ad_setDrv 1 d)
      else if address = 0xC0EC then do { (v, d) \<leftarrow> disk_shift d; Some (Some v, d) }
      else if address = 0xC0ED then Some (None, d\<lparr>dLatch := value\<rparr>)
      else if address = 0xC0EE then
        (let d = upd_cur (\<lambda>fd. fd\<lparr>writeMode := False\<rparr>) d
         in Some (Some (if readOnly (cur d) then 0x80 else 0), d))
      else if address = 0xC0EF then Some (None, upd_cur (\<lambda>fd. fd\<lparr>writeMode := True\<rparr>) d)
      else Some (None, d))"

definition tick_byte :: "machine \<Rightarrow> u8" where
  "tick_byte m = ucast (cpu_tick (cpu m) mod 256)"

definition ad_SoftSwitch :: "u16 \<Rightarrow> u8 \<Rightarrow> bool \<Rightarrow> machine \<Rightarrow> (u8 \<times> machine) option" where
  "ad_SoftSwitch address value WRT m =
     (if address = 0xC000 then Some (keyboard (dev m), m)
      else if address = 0xC010 then
        (let k = keyboard (dev m) AND 0x7F in Some (k, m\<lparr>dev := dev m\<lparr>keyboard := k\<rparr>\<rparr>))
      else if 0xC050 \<le> address \<and> address \<le> 0xC057 then
        Some (tick_byte m, m\<lparr>dev := video_switch address (dev m)\<rparr>)
      else if address = 0xC061 \<or> address = 0xC062 then Some (0, m)
      else if address = 0xC064 then
        (let (v, d) = ad_readPaddle (cpu_tick (cpu m)) 0 (dev m) in Some (v, m\<lparr>dev := d\<rparr>))
      else if address = 0xC065 then
        (let (v, d) = ad_readPaddle (cpu_tick (cpu m)) 1 (dev m) in Some (v, m\<lparr>dev := d\<rparr>))
      else if address = 0xC070 then
        Some (tick_byte m, m\<lparr>dev := ad_resetPaddles (cpu_tick (cpu m)) (dev m)\<rparr>)
      else if 0xC0E0 \<le> address \<and> address \<le> 0xC0EF \<or> address = 0xCFFF then do {
        (r, d) \<leftarrow> disk_switch address value (dev m);
        Some (case r of Some v \<Rightarrow> v | None \<Rightarrow> tick_byte m, m\<lparr>dev := d\<rparr>) }
      else if 0xC080 \<le> address \<and> address \<le> 0xC08F then
        Some (tick_byte m, m\<lparr>mem := lc_switch address WRT (mem m)\<rparr>)
      else Some (tick_byte m, m))"

subsection \<open>Screen mode\<close>

definition TEXT_MODE :: nat where "TEXT_MODE = 0"
definition LORES_MODE :: nat where "LORES_MODE = 1"
definition LORES_MIX_MODE :: nat where "LORES_MIX_MODE = 2"
definition HIRES_MODE :: nat where "HIRES_MODE = 3"
definition HIRES_MIX_MODE :: nat where "HIRES_MIX_MODE = 4"

definition ad_GetScreenMode :: "dev_state \<Rightarrow> nat" where
  "ad_GetScreenMode d =
     (if \<not> mixedMode d then
        if \<not> textMode d \<and> hires_Mode d then HIRES_MODE
        else if \<not> textMode d \<and> \<not> hires_Mode d then LORES_MODE
        else if textMode d \<and> \<not> hires_Mode d then TEXT_MODE
        else TEXT_MODE
      else if hires_Mode d then HIRES_MIX_MODE else LORES_MIX_MODE)"

subsection \<open>What a soft switch leaves alone\<close>

text \<open>A soft switch changes the devices and the four language-card flags, nothing else.\<close>

lemma lc_switch_arrays [simp]:
  "ram (lc_switch a w s) = ram s" "rom (lc_switch a w s) = rom s" "lgc (lc_switch a w s) = lgc s"
  "bk2 (lc_switch a w s) = bk2 s" "sl6 (lc_switch a w s) = sl6 s"
  by (simp_all add: lc_switch_def)

lemma ad_SoftSwitch_frame:
  assumes "ad_SoftSwitch a v w m = Some (r, m')"
  shows "cpu m' = cpu m" and "ram (mem m') = ram (mem m)" and "rom (mem m') = rom (mem m)"
    and "lgc (mem m') = lgc (mem m)" and "bk2 (mem m') = bk2 (mem m)" and "sl6 (mem m') = sl6 (mem m)"
  using assms
  by (auto simp: ad_SoftSwitch_def Let_def bind_eq_Some_conv split: if_splits prod.splits)

subsection \<open>What a soft switch does\<close>

lemma ad_SoftSwitch_cases [consumes 1, case_names same key video paddle trigger disk card]:
  assumes "ad_SoftSwitch a v w m = Some (r, m')"
    and "m' = m \<Longrightarrow> P"
    and "m' = m\<lparr>dev := dev m\<lparr>keyboard := keyboard (dev m) AND 0x7F\<rparr>\<rparr> \<Longrightarrow> P"
    and "m' = m\<lparr>dev := video_switch a (dev m)\<rparr> \<Longrightarrow> P"
    and "\<And>p. p < 2 \<Longrightarrow> r = fst (ad_readPaddle (cpu_tick (cpu m)) p (dev m)) \<Longrightarrow>
      m' = m\<lparr>dev := snd (ad_readPaddle (cpu_tick (cpu m)) p (dev m))\<rparr> \<Longrightarrow> P"
    and "m' = m\<lparr>dev := ad_resetPaddles (cpu_tick (cpu m)) (dev m)\<rparr> \<Longrightarrow> P"
    and "\<And>x d. disk_switch a v (dev m) = Some (x, d) \<Longrightarrow> m' = m\<lparr>dev := d\<rparr> \<Longrightarrow> P"
    and "m' = m\<lparr>mem := lc_switch a w (mem m)\<rparr> \<Longrightarrow> P"
  shows P
  using assms(1) unfolding ad_SoftSwitch_def Let_def case_prod_beta [of _ "ad_readPaddle _ _ _"]
  apply (elim if_SomeE)
  subgoal by (rule assms(2)) simp
  subgoal by (rule assms(3)) auto
  subgoal by (rule assms(4)) simp
  subgoal by (rule assms(2)) simp
  subgoal by (rule assms(5) [of 0]) simp_all
  subgoal by (rule assms(5) [of 1]) simp_all
  subgoal by (rule assms(6)) simp
  subgoal by (cases "disk_switch a v (dev m)") (auto intro: assms(7))
  subgoal by (rule assms(8)) simp
  subgoal by (rule assms(2)) simp
  done

subsection \<open>The drive invariant\<close>

text \<open>
  \<open>drive_ok\<close>: a valid drive is selected, the phase indices are phases, the half-track counter and
  the track it gives stay in the range the code enforces, and the nibble pointer is inside a track.
\<close>

definition drive_ok :: "dev_state \<Rightarrow> bool" where
  "drive_ok d \<longleftrightarrow> currentDrive d < 2 \<and>
     (\<forall>c < 2. pIdx d c < 4 \<and> pIdxB d c < 4 \<and> 0 \<le> halfTrackPos d c \<and> halfTrackPos d c \<le> 140 \<and>
        unat (track (disk d c)) \<le> 70 \<and> unat (nibble (disk d c)) < 0x1A00)"

lemma head_phase_lt: "head_phase a < 4"
proof -
  have "unat (drop_bit 1 (a AND 7)) = unat (a AND 7) div 2"
    by (simp add: drop_bit_eq_div unat_div)
  moreover have "a AND 7 \<le> (7 :: u16)"
    by (rule word_and_le1)
  then have "unat (a AND 7) \<le> 7"
    by (simp add: word_le_nat_alt)
  ultimately show ?thesis by (simp add: head_phase_def)
qed

lemma track_of_half_track:
  assumes "0 \<le> h" and "h \<le> 140"
  shows "unat (word_of_int ((h + 1) div 2) :: u8) \<le> 70"
proof -
  from assms have "(h + 1) div 2 mod 256 = (h + 1) div 2" by simp
  moreover from assms have "nat ((h + 1) div 2) \<le> 70" by linarith
  ultimately show ?thesis by (simp add: unsigned_of_int take_bit_eq_mod nat_mod_distrib)
qed

lemma move_head_range: "0 \<le> h \<Longrightarrow> h \<le> 140 \<Longrightarrow> 0 \<le> move_head i out h \<and> move_head i out h \<le> 140"
  by (auto simp: move_head_def)

lemma shift_phases_drive_ok: "drive_ok d \<Longrightarrow> phase < 4 \<Longrightarrow> drive_ok (shift_phases phase d)"
  by (simp add: drive_ok_def shift_phases_def Let_def)

lemma shift_phases_frame [simp]:
  "currentDrive (shift_phases p d) = currentDrive d" "disk (shift_phases p d) = disk d"
  "halfTrackPos (shift_phases p d) = halfTrackPos d"
  by (simp_all add: shift_phases_def Let_def)

lemma head_update_drive_ok:
  assumes "drive_ok d" and "0 \<le> h" and "h \<le> 140"
  shows "drive_ok (upd_cur (\<lambda>fd. fd\<lparr>track := word_of_int ((h + 1) div 2)\<rparr>)
    (d\<lparr>halfTrackPos := (halfTrackPos d)(currentDrive d := h), phases := ph\<rparr>))"
  using assms by (simp add: drive_ok_def upd_cur_def cur_def track_of_half_track)

lemma ad_stepMotor_drive_ok:
  assumes "drive_ok d"
  shows "drive_ok (ad_stepMotor a d)"
proof -
  let ?d = "shift_phases (head_phase a) d"
  have ok: "drive_ok ?d"
    using assms head_phase_lt by (rule shift_phases_drive_ok)
  then have range: "0 \<le> halfTrackPos ?d (currentDrive ?d) \<and> halfTrackPos ?d (currentDrive ?d) \<le> 140"
    by (simp add: drive_ok_def)
  have "drive_ok (?d\<lparr>phases := ph\<rparr>)" for ph
    using ok by (simp add: drive_ok_def)
  with head_update_drive_ok [OF ok] move_head_range range show ?thesis
    by (simp add: ad_stepMotor_def Let_def)
qed

lemma ad_setDrv_drive_ok: "drive_ok d \<Longrightarrow> drv < 2 \<Longrightarrow> drive_ok (ad_setDrv drv d)"
  by (auto simp: drive_ok_def ad_setDrv_def Let_def)

lemma upd_cur_drive_ok:
  assumes "drive_ok d" and "track (f (cur d)) = track (cur d)"
    and "unat (nibble (f (cur d))) < 0x1A00"
  shows "drive_ok (upd_cur f d)"
  using assms by (auto simp: drive_ok_def upd_cur_def cur_def)

lemma drive_ok_latch [simp]: "drive_ok (d\<lparr>dLatch := v\<rparr>) = drive_ok d"
  by (simp add: drive_ok_def)

lemma drive_ok_cur: "drive_ok d \<Longrightarrow> unat (track (cur d)) \<le> 70 \<and> unat (nibble (cur d)) < 0x1A00"
  by (simp add: drive_ok_def cur_def)

lemma next_nibble_lt: "unat (word_of_nat (k mod 0x1A00) :: u16) < 0x1A00"
  by (simp add: unsigned_of_nat take_bit_eq_mod order.strict_trans1 [OF mod_less_eq_dividend])

lemma disk_shift_drive_ok:
  assumes "drive_ok d" and "disk_shift d = Some (v, d')"
  shows "drive_ok d'"
  using assms next_nibble_lt drive_ok_cur [OF assms(1)]
  by (auto simp: disk_shift_def Let_def bind_eq_Some_conv split: if_splits
      intro!: upd_cur_drive_ok)

lemma disk_switch_drive_ok:
  assumes "drive_ok d" and "disk_switch a v d = Some (r, d')"
  shows "drive_ok d'"
  using assms drive_ok_cur [OF assms(1)]
  by (auto simp: disk_switch_def Let_def bind_eq_Some_conv split: if_splits
      intro: ad_stepMotor_drive_ok ad_setDrv_drive_ok disk_shift_drive_ok upd_cur_drive_ok)

lemma drive_ok_other_switches [simp]:
  "drive_ok (video_switch a d) = drive_ok d" "drive_ok (ad_resetPaddles t d) = drive_ok d"
  "drive_ok (d\<lparr>keyboard := k\<rparr>) = drive_ok d"
  by (simp_all add: drive_ok_def video_switch_def ad_resetPaddles_def)

lemma ad_readPaddle_drive_ok: "ad_readPaddle t p d = (v, d') \<Longrightarrow> drive_ok d' = drive_ok d"
  by (auto simp: ad_readPaddle_def drive_ok_def Let_def split: if_splits)

lemma ad_SoftSwitch_drive_ok:
  assumes "drive_ok (dev m)" and "ad_SoftSwitch a v w m = Some (r, m')"
  shows "drive_ok (dev m')"
  using assms
  by (auto simp: ad_SoftSwitch_def Let_def bind_eq_Some_conv ad_readPaddle_drive_ok
      split: if_splits prod.splits dest: disk_switch_drive_ok)

subsection \<open>The only fault\<close>

lemma disk_shift_None: "disk_shift d = None \<longleftrightarrow> DISKSIZE \<le> head_index (cur d)"
  by (auto simp: disk_shift_def Let_def bind_eq_None_conv arr_get_None_iff arr_set_None_iff)

lemma disk_switch_None: "disk_switch a v d = None \<longleftrightarrow> a = 0xC0EC \<and> DISKSIZE \<le> head_index (cur d)"
  by (cases "disk_shift d") (auto simp: disk_switch_def Let_def disk_shift_None [symmetric])

lemma ad_SoftSwitch_None:
  "ad_SoftSwitch a v w m = None \<longleftrightarrow> a = 0xC0EC \<and> DISKSIZE \<le> head_index (cur (dev m))"
  by (auto simp: ad_SoftSwitch_def Let_def bind_eq_None_conv disk_switch_None split: prod.splits)

lemma head_index_in_image:
  "unat (nibble fd) < 0x1A00 \<Longrightarrow> head_index fd < DISKSIZE \<longleftrightarrow> unat (track fd) < 35"
  by (auto simp: head_index_def DISKSIZE_def)

subsection \<open>One stepper access\<close>

lemma stepMotor_shift [simp]:
  "currentDrive (ad_stepMotor a d) = currentDrive d"
  "pIdx (ad_stepMotor a d) = (pIdx d)(currentDrive d := head_phase a)"
  "pIdxB (ad_stepMotor a d) = (pIdxB d)(currentDrive d := pIdx d (currentDrive d))"
  "phasesB (ad_stepMotor a d) = (phasesB d)(currentDrive d :=
     (phasesB d (currentDrive d))(pIdx d (currentDrive d) := phases d (currentDrive d) (pIdx d (currentDrive d))))"
  "phasesBB (ad_stepMotor a d) = (phasesBB d)(currentDrive d :=
     (phasesBB d (currentDrive d))(pIdxB d (currentDrive d) := phasesB d (currentDrive d) (pIdxB d (currentDrive d))))"
  by (simp_all add: ad_stepMotor_def shift_phases_def upd_cur_def Let_def)

lemma stepMotor_head:
  assumes "bit a 0"
  shows "phases (ad_stepMotor a d) = (phases d)(currentDrive d := (phases d (currentDrive d))(head_phase a := True))"
    and "halfTrackPos (ad_stepMotor a d) = (halfTrackPos d)(currentDrive d :=
      move_head (phasesBB (ad_stepMotor a d) (currentDrive d) ((head_phase a + 1) mod 4))
        (phasesBB (ad_stepMotor a d) (currentDrive d) ((head_phase a + 3) mod 4)) (halfTrackPos d (currentDrive d)))"
    and "track (cur (ad_stepMotor a d)) = word_of_int ((halfTrackPos (ad_stepMotor a d) (currentDrive d) + 1) div 2)"
  using assms
  by (simp_all add: ad_stepMotor_def shift_phases_def upd_cur_def cur_def Let_def)

end
