(* ===== verification/Apple_Mem.thy ===== *)
theory Apple_Mem
  imports Apple_Device
begin

text \<open>
  \<^verbatim>\<open>AppleMem.c\<close>: the 64K address space of the emulated machine.  \<^verbatim>\<open>$0000-$BFFF\<close> is RAM,
  \<^verbatim>\<open>$D000-$FFFF\<close> is ROM or the language card, \<^verbatim>\<open>$C600-$C6FF\<close> the Disk II PROM and the rest of
  \<^verbatim>\<open>$Cxxx\<close> the soft switches.  Reading may change state (a soft switch is an access, not a load),
  so a read returns the value and the new machine.
\<close>

definition mem_Reset :: "mem_state \<Rightarrow> mem_state" where
  "mem_Reset s = s\<lparr>
     LCWritable := True, LCReadable := False, LCBank2Enable := True, LCPreWriteFlipflop := False,
     ram := memset (ram s) 0 0 RAMSIZE, rom := memset (rom s) 0 0 ROMSIZE,
     lgc := memset (lgc s) 0 0 LGCSIZE, bk2 := memset (bk2 s) 0 0 BK2SIZE,
     sl6 := memset (sl6 s) 0 0 SL6SIZE\<rparr>"

definition mem_Create :: "mem_state \<Rightarrow> mem_state" where
  "mem_Create s = mem_Reset s"

definition mem_ResetRam :: "mem_state \<Rightarrow> mem_state" where
  "mem_ResetRam s = s\<lparr>ram := memset (ram s) 0 0 RAMSIZE\<rparr>"

definition with_val :: "machine \<Rightarrow> u8 option \<Rightarrow> (u8 \<times> machine) option" where
  "with_val m r = map_option (\<lambda>v. (v, m)) r"

definition mem_ReadByte :: "u16 \<Rightarrow> machine \<Rightarrow> (u8 \<times> machine) option" where
  "mem_ReadByte address m =
     (let s = mem m in
      if unat address < RAMSIZE then with_val m (arr_get RAMSIZE (ram s) (unat address))
      else if ROMSTART \<le> address then
        if \<not> LCReadable s then with_val m (arr_get ROMSIZE (rom s) (unat (address - ROMSTART)))
        else if LCBank2Enable s \<and> address < 0xE000
          then with_val m (arr_get BK2SIZE (bk2 s) (unat (address - BK2START)))
        else with_val m (arr_get LGCSIZE (lgc s) (unat (address - LGCSTART)))
      else if address AND 0xFF00 = SL6START
        then with_val m (arr_get SL6SIZE (sl6 s) (unat (address - SL6START)))
      else if address AND 0xF000 = 0xC000 then ad_SoftSwitch address 0 False m
      else Some (0, m))"

definition mem_WriteByte :: "u16 \<Rightarrow> u8 \<Rightarrow> machine \<Rightarrow> machine option" where
  "mem_WriteByte address value m =
     (let s = mem m in
      if unat address < RAMSIZE then do {
        f \<leftarrow> arr_set RAMSIZE (ram s) (unat address) value; Some (m\<lparr>mem := s\<lparr>ram := f\<rparr>\<rparr>) }
      else if LCWritable s \<and> ROMSTART \<le> address then
        if LCBank2Enable s \<and> address < 0xE000 then do {
          f \<leftarrow> arr_set BK2SIZE (bk2 s) (unat (address - BK2START)) value;
          Some (m\<lparr>mem := s\<lparr>bk2 := f\<rparr>\<rparr>) }
        else do {
          f \<leftarrow> arr_set LGCSIZE (lgc s) (unat (address - LGCSTART)) value;
          Some (m\<lparr>mem := s\<lparr>lgc := f\<rparr>\<rparr>) }
      else if address AND 0xF000 = 0xC000 then do {
        (_, m) \<leftarrow> ad_SoftSwitch address value True m; Some m }
      else Some m)"

definition mem_ReadWord :: "u16 \<Rightarrow> machine \<Rightarrow> (u16 \<times> machine) option" where
  "mem_ReadWord addr m = do {
     (m0, m) \<leftarrow> mem_ReadByte addr m;
     (m1, m) \<leftarrow> mem_ReadByte (addr + 1) m;
     Some (mk_word m0 m1, m) }"

definition mem_WriteWord :: "u16 \<Rightarrow> u16 \<Rightarrow> machine \<Rightarrow> machine option" where
  "mem_WriteWord value addr m = do {
     m \<leftarrow> mem_WriteByte addr (ucast (drop_bit 8 value)) m;
     mem_WriteByte (addr + 1) (ucast (value AND 0xFF)) m }"

subsection \<open>Every array index of the bus is in range\<close>

lemma rom_index: "ROMSTART \<le> a \<Longrightarrow> unat (a - ROMSTART) < ROMSIZE"
  using unat_u16_lt [of a] by (simp add: size_defs unat_sub word_le_nat_alt del: unat_u16_lt)

lemma lgc_index: "ROMSTART \<le> a \<Longrightarrow> unat (a - LGCSTART) < LGCSIZE"
  using rom_index [of a] by (simp add: size_defs)

lemma bk2_index: "ROMSTART \<le> a \<Longrightarrow> a < 0xE000 \<Longrightarrow> unat (a - BK2START) < BK2SIZE"
  by (simp add: size_defs unat_sub word_le_nat_alt word_less_nat_alt)

lemma sl6_index: "a AND 0xFF00 = SL6START \<Longrightarrow> unat (a - SL6START) < SL6SIZE"
proof -
  assume "a AND 0xFF00 = SL6START"
  then have h: "unat a - unat a mod 256 = 0xC600"
    unfolding page_mask [symmetric] by (simp add: size_defs)
  then have "SL6START \<le> a" by (simp add: size_defs word_le_nat_alt) 
  with h show ?thesis by (simp add: size_defs unat_sub)
qed

lemma io_block: "\<not> unat a < 0xC000 \<Longrightarrow> \<not> 0xD000 \<le> a \<Longrightarrow> a AND 0xF000 = 0xC000" for a :: u16
proof -
  assume "\<not> unat a < 0xC000" "\<not> 0xD000 \<le> a"
  then have "unat a div 4096 = 12"
    by (intro div_nat_eqI) (simp_all add: word_le_nat_alt)
  then have "unat a - unat a mod 4096 = 0xC000"
    by (simp add: minus_mod_eq_div_mult)
  then show ?thesis by (simp only: word_unat_eq_iff block_mask) simp
qed
lemmas bus_index = rom_index lgc_index bk2_index sl6_index

subsection \<open>The address map\<close>

lemma read_ram [simp]: "unat a < RAMSIZE \<Longrightarrow> mem_ReadByte a m = Some (ram (mem m) (unat a), m)"
  by (simp add: mem_ReadByte_def with_val_def)

lemma write_ram [simp]:
  "unat a < RAMSIZE \<Longrightarrow>
   mem_WriteByte a v m = Some (m\<lparr>mem := mem m\<lparr>ram := (ram (mem m))(unat a := v)\<rparr>\<rparr>)"
  by (simp add: mem_WriteByte_def Let_def)

lemma not_ram_of_rom: "ROMSTART \<le> a \<Longrightarrow> \<not> unat a < RAMSIZE"
  by (simp add: size_defs word_le_nat_alt)

lemma read_high:
  "ROMSTART \<le> a \<Longrightarrow> mem_ReadByte a m = Some
     (if \<not> LCReadable (mem m) then rom (mem m) (unat (a - ROMSTART))
      else if LCBank2Enable (mem m) \<and> a < 0xE000 then bk2 (mem m) (unat (a - BK2START))
      else lgc (mem m) (unat (a - LGCSTART)), m)"
  by (simp add: mem_ReadByte_def Let_def not_ram_of_rom bus_index with_val_def)

lemma write_high:
  "ROMSTART \<le> a \<Longrightarrow> LCWritable (mem m) \<Longrightarrow> mem_WriteByte a v m = Some
     (if LCBank2Enable (mem m) \<and> a < 0xE000
      then m\<lparr>mem := mem m\<lparr>bk2 := (bk2 (mem m))(unat (a - BK2START) := v)\<rparr>\<rparr>
      else m\<lparr>mem := mem m\<lparr>lgc := (lgc (mem m))(unat (a - LGCSTART) := v)\<rparr>\<rparr>)"
  by (simp add: mem_WriteByte_def Let_def not_ram_of_rom bus_index)

lemma rom_not_io: "ROMSTART \<le> a \<Longrightarrow> a AND 0xF000 \<noteq> 0xC000"
proof
  assume a: "ROMSTART \<le> a" "a AND 0xF000 = 0xC000"
  then have "unat a - unat a mod 4096 = 0xC000"
    unfolding block_mask [symmetric] by simp
  moreover from a(1) have "53248 \<le> unat a"
    by (simp add: size_defs word_le_nat_alt)
  ultimately show False by (simp add: minus_mod_eq_div_mult) 
qed

lemma write_protected:
  "ROMSTART \<le> a \<Longrightarrow> \<not> LCWritable (mem m) \<Longrightarrow> mem_WriteByte a v m = Some m"
  by (simp add: mem_WriteByte_def Let_def not_ram_of_rom rom_not_io)

lemma read_io:
  assumes "\<not> unat a < RAMSIZE" and "\<not> ROMSTART \<le> a"
  shows "mem_ReadByte a m =
    (if a AND 0xFF00 = SL6START then Some (sl6 (mem m) (unat (a - SL6START)), m)
     else ad_SoftSwitch a 0 False m)"
  using assms io_block [of a]
  by (auto simp: mem_ReadByte_def Let_def with_val_def bus_index ROMSTART_def RAMSIZE_def)

lemma write_io:
  assumes "\<not> unat a < RAMSIZE" and "\<not> ROMSTART \<le> a"
  shows "mem_WriteByte a v m = map_option snd (ad_SoftSwitch a v True m)"
  using assms io_block [of a]
  by (cases "ad_SoftSwitch a v True m") (auto simp: mem_WriteByte_def Let_def size_defs)

text \<open>The case rule of the address map, used for every bus property below.\<close>

lemma address_cases [case_names RAM ROM IO]:
  assumes "unat (a :: u16) < RAMSIZE \<Longrightarrow> P" and "ROMSTART \<le> a \<Longrightarrow> P"
    and "\<not> unat a < RAMSIZE \<Longrightarrow> \<not> ROMSTART \<le> a \<Longrightarrow> P"
  shows P
  using assms by blast

subsection \<open>Faults and frames of the bus\<close>

lemma mem_ReadByte_None: "mem_ReadByte a m = None \<Longrightarrow> a = 0xC0EC \<and> DISKSIZE \<le> head_index (cur (dev m))"
  by (cases a rule: address_cases)
     (auto simp: read_high read_io ad_SoftSwitch_None split: if_splits)

lemma mem_WriteByte_None:
  "mem_WriteByte a v m = None \<Longrightarrow> a = 0xC0EC \<and> DISKSIZE \<le> head_index (cur (dev m))"
  by (cases a rule: address_cases; cases "LCWritable (mem m)")
     (auto simp: write_high write_protected write_io ad_SoftSwitch_None)

text \<open>What holds for the state before and after every soft switch, and is blind to writes into
  RAM and the language card, holds across every bus access.\<close>

lemma bus_read_via_switch:
  assumes "Q m m" and "\<And>v w r m'. ad_SoftSwitch a v w m = Some (r, m') \<Longrightarrow> Q m m'"
    and "mem_ReadByte a m = Some (x, m')"
  shows "Q m m'"
  using assms by (cases a rule: address_cases) (auto simp: read_high read_io split: if_splits)

lemma bus_write_via_switch:
  assumes "Q m m" and "\<And>v w r m'. ad_SoftSwitch a v w m = Some (r, m') \<Longrightarrow> Q m m'"
    and "\<And>f. Q m (m\<lparr>mem := mem m\<lparr>ram := f\<rparr>\<rparr>)" "\<And>f. Q m (m\<lparr>mem := mem m\<lparr>bk2 := f\<rparr>\<rparr>)"
      "\<And>f. Q m (m\<lparr>mem := mem m\<lparr>lgc := f\<rparr>\<rparr>)"
    and "mem_WriteByte a v m = Some m'"
  shows "Q m m'"
  using assms
  by (cases a rule: address_cases; cases "LCWritable (mem m)")
     (auto simp: write_high write_protected write_io split: if_splits)

lemma mem_ReadByte_cpu: "mem_ReadByte a m = Some (x, m') \<Longrightarrow> cpu m' = cpu m"
  by (rule bus_read_via_switch [where Q = "\<lambda>m m'. cpu m' = cpu m"]) (auto dest: ad_SoftSwitch_frame)

lemma mem_WriteByte_cpu: "mem_WriteByte a v m = Some m' \<Longrightarrow> cpu m' = cpu m"
  by (rule bus_write_via_switch [where Q = "\<lambda>m m'. cpu m' = cpu m"]) (auto dest: ad_SoftSwitch_frame)

end
