(* ===== verification/Apple_Cpu.thy ===== *)
theory Apple_Cpu
  imports Apple_Mem
begin

text \<open>
  \<^verbatim>\<open>AppleCpu.c\<close> below the instruction switch: registers, the status byte, fetching, the stack and
  the addressing modes, and the arithmetic helpers \<^verbatim>\<open>ac_Execute_*\<close>.

  Cycle accounting.  The helpers receive \<^verbatim>\<open>unsigned long* cycle\<close>.  A statement \<^verbatim>\<open>*cycle--;\<close>
  parses as \<^verbatim>\<open>*(cycle--);\<close>: it moves the local pointer and leaves the budget alone.  Where the
  pointer is not used again it has no counterpart in the model; where a helper goes on to store through it,
  in \<^verbatim>\<open>ac_addr_mode_INDX\<close>, the store leaves its object and the model faults.  \<^verbatim>\<open>*cycle -= 2\<close>, and \<^verbatim>\<open>cycle--\<close> inside \<^verbatim>\<open>ac_Run\<close> where \<^verbatim>\<open>cycle\<close> is
  the variable itself, do change it and are written with \<open>spend\<close>.

  The status byte is the union of a byte with eight one-bit fields, \<^verbatim>\<open>C Z I D B Unused V N\<close> from
  bit 0 up.  A field is read with \<open>flag\<close> and written with \<open>set_flag\<close>.
\<close>

subsection \<open>Constants and status flags\<close>

definition STACK_ADDRESS :: u16 where "STACK_ADDRESS = 0x0100"
definition STACK_POS :: u8 where "STACK_POS = 0xFD"
definition PC_START :: u16 where "PC_START = 0xFFFC"

definition FLAG_CARRY :: u8 where "FLAG_CARRY = 0x01"
definition FLAG_ZERO :: u8 where "FLAG_ZERO = 0x02"
definition FLAG_INTERRUPT_DISABLE :: u8 where "FLAG_INTERRUPT_DISABLE = 0x04"
definition FLAG_DECIMAL_MODE :: u8 where "FLAG_DECIMAL_MODE = 0x08"
definition FLAG_BREAK :: u8 where "FLAG_BREAK = 0x10"
definition FLAG_UNUSED :: u8 where "FLAG_UNUSED = 0x20"
definition FLAG_OVERFLOW :: u8 where "FLAG_OVERFLOW = 0x40"
definition FLAG_NEGATIVE :: u8 where "FLAG_NEGATIVE = 0x80"

lemmas flag_masks = FLAG_CARRY_def FLAG_ZERO_def FLAG_INTERRUPT_DISABLE_def FLAG_DECIMAL_MODE_def
  FLAG_BREAK_def FLAG_UNUSED_def FLAG_OVERFLOW_def FLAG_NEGATIVE_def

datatype status_flag = fC | fZ | fI | fD | fB | fUnused | fV | fN

primrec flag_pos :: "status_flag \<Rightarrow> nat" where
  "flag_pos fC = 0"
| "flag_pos fZ = 1"
| "flag_pos fI = 2"
| "flag_pos fD = 3"
| "flag_pos fB = 4"
| "flag_pos fUnused = 5"
| "flag_pos fV = 6"
| "flag_pos fN = 7"

definition flag :: "status_flag \<Rightarrow> machine \<Rightarrow> bool" where
  "flag f m = bit (PS (cpu m)) (flag_pos f)"

definition set_flag :: "status_flag \<Rightarrow> bool \<Rightarrow> machine \<Rightarrow> machine" where
  "set_flag f b m = m\<lparr>cpu := cpu m\<lparr>PS := put_bit (flag_pos f) b (PS (cpu m))\<rparr>\<rparr>"

definition spend :: "u32 \<Rightarrow> machine \<Rightarrow> machine" where
  "spend k m = m\<lparr>cpu := cpu m\<lparr>cycle := cycle (cpu m) - k\<rparr>\<rparr>"

abbreviation set_A :: "u8 \<Rightarrow> machine \<Rightarrow> machine" where
  "set_A v m \<equiv> m\<lparr>cpu := cpu m\<lparr>A := v\<rparr>\<rparr>"

abbreviation set_X :: "u8 \<Rightarrow> machine \<Rightarrow> machine" where
  "set_X v m \<equiv> m\<lparr>cpu := cpu m\<lparr>X := v\<rparr>\<rparr>"

abbreviation set_Y :: "u8 \<Rightarrow> machine \<Rightarrow> machine" where
  "set_Y v m \<equiv> m\<lparr>cpu := cpu m\<lparr>Y := v\<rparr>\<rparr>"

abbreviation set_SP :: "u8 \<Rightarrow> machine \<Rightarrow> machine" where
  "set_SP v m \<equiv> m\<lparr>cpu := cpu m\<lparr>SP := v\<rparr>\<rparr>"

abbreviation set_PC :: "u16 \<Rightarrow> machine \<Rightarrow> machine" where
  "set_PC v m \<equiv> m\<lparr>cpu := cpu m\<lparr>PC := v\<rparr>\<rparr>"

abbreviation set_PS :: "u8 \<Rightarrow> machine \<Rightarrow> machine" where
  "set_PS v m \<equiv> m\<lparr>cpu := cpu m\<lparr>PS := v\<rparr>\<rparr>"

text \<open>\<^verbatim>\<open>safeDec\<close> and \<^verbatim>\<open>safeInc\<close> of \<^verbatim>\<open>Src/util.c\<close>: their saturation is commented out, so both wrap.\<close>

definition safeDec :: "u8 \<Rightarrow> u8 \<Rightarrow> u8" where
  "safeDec src value = src - value"

definition safeInc :: "u8 \<Rightarrow> u8 \<Rightarrow> u8" where
  "safeInc src value = src + value"

subsection \<open>Reset and register access\<close>

definition ac_Reset_0 :: "machine \<Rightarrow> machine" where
  "ac_Reset_0 m = m\<lparr>cpu := cpu m\<lparr>A := 0, X := 0, Y := 0, PS := 0, SP := STACK_POS, PC := PC_START\<rparr>\<rparr>"

definition ac_Init :: "machine \<Rightarrow> machine" where
  "ac_Init m = ac_Reset_0 (m\<lparr>cpu := cpu m\<lparr>cpu_tick := 0\<rparr>\<rparr>)"

definition ac_Reset :: "machine \<Rightarrow> machine option" where
  "ac_Reset m = do {
     let m = m\<lparr>cpu := cpu m\<lparr>A := 0, X := 0, Y := 0,
               PS := (PS (cpu m) OR FLAG_INTERRUPT_DISABLE) AND NOT FLAG_DECIMAL_MODE,
               SP := STACK_POS\<rparr>\<rparr>;
     (lo, m) \<leftarrow> mem_ReadByte 0xFFFC m;
     (hi, m) \<leftarrow> mem_ReadByte 0xFFFD m;
     Some (set_PC (mk_word lo hi) m) }"

definition ac_Reboot :: "machine \<Rightarrow> machine option" where
  "ac_Reboot m = do {
     m \<leftarrow> mem_WriteByte 0x3F4 0 m;
     (lo, m) \<leftarrow> mem_ReadByte 0xFFFC m;
     (hi, m) \<leftarrow> mem_ReadByte 0xFFFD m;
     let m = set_SP 0xFD (set_PC (mk_word lo hi) m);
     let m = set_flag fUnused True (set_flag fI True m);
     Some (m\<lparr>mem := mem_ResetRam (mem m)\<rparr>) }"

definition ac_SetPCAddress :: "u16 \<Rightarrow> machine \<Rightarrow> machine" where
  "ac_SetPCAddress addr m = set_PC addr m"

definition ac_SetRegister :: "u8 \<Rightarrow> u8 \<Rightarrow> machine \<Rightarrow> machine" where
  "ac_SetRegister type value m =
     (if type = 0 then set_A value m
      else if type = 1 then set_X value m
      else if type = 2 then set_Y value m
      else m)"

definition ac_GetRegister :: "u8 \<Rightarrow> machine \<Rightarrow> u8" where
  "ac_GetRegister type m =
     (if type = 0 then A (cpu m)
      else if type = 1 then X (cpu m)
      else if type = 2 then Y (cpu m)
      else 0)"

definition ac_SetFlag :: "u8 \<Rightarrow> bool \<Rightarrow> machine \<Rightarrow> machine" where
  "ac_SetFlag flg b m =
     (if b then set_PS (PS (cpu m) OR flg) m else set_PS (PS (cpu m) AND NOT flg) m)"

definition ac_GetFlag :: "u8 \<Rightarrow> machine \<Rightarrow> bool" where
  "ac_GetFlag flg m \<longleftrightarrow> PS (cpu m) AND flg \<noteq> 0"

definition ac_SetZeroNegative :: "u8 \<Rightarrow> machine \<Rightarrow> machine" where
  "ac_SetZeroNegative r m = set_flag fN (r AND FLAG_NEGATIVE > 0) (set_flag fZ (r = 0) m)"

definition ac_SetCarryFlag :: "u16 \<Rightarrow> machine \<Rightarrow> machine" where
  "ac_SetCarryFlag value m = set_flag fC (value AND 0xFF00 > 0) m"

definition ac_SetCarryFlagNegative :: "u16 \<Rightarrow> machine \<Rightarrow> machine" where
  "ac_SetCarryFlagNegative value m = set_flag fC (value < 0x100) m"

definition ac_SetOverflow :: "u8 \<Rightarrow> u8 \<Rightarrow> u8 \<Rightarrow> machine \<Rightarrow> machine" where
  "ac_SetOverflow oldv0 v0 v1 m =
     (let sign0 = ((oldv0 XOR v1) AND FLAG_NEGATIVE = 0);
          sign1 = ((v0 XOR v1) AND FLAG_NEGATIVE \<noteq> 0)
      in set_flag fV (sign0 \<and> sign1) m)"

subsection \<open>Fetch, bus access, stack\<close>

definition ac_Fetch :: "machine \<Rightarrow> (u8 \<times> machine) option" where
  "ac_Fetch m = mem_ReadByte (PC (cpu m)) (set_PC (PC (cpu m) + 1) m)"

definition ac_FetchWord :: "machine \<Rightarrow> (u16 \<times> machine) option" where
  "ac_FetchWord m = do {
     (c0, m) \<leftarrow> mem_ReadByte (PC (cpu m)) (set_PC (PC (cpu m) + 1) m);
     (c1, m) \<leftarrow> mem_ReadByte (PC (cpu m)) (set_PC (PC (cpu m) + 1) m);
     Some (mk_word c0 c1, spend 2 m) }"

definition ac_ReadByte :: "u16 \<Rightarrow> machine \<Rightarrow> (u8 \<times> machine) option" where
  "ac_ReadByte addr m = mem_ReadByte addr m"

definition ac_ReadWord :: "u16 \<Rightarrow> machine \<Rightarrow> (u16 \<times> machine) option" where
  "ac_ReadWord addr m = do { (c, m) \<leftarrow> mem_ReadWord addr m; Some (c, spend 2 m) }"

definition ac_WriteByte :: "u8 \<Rightarrow> u16 \<Rightarrow> machine \<Rightarrow> machine option" where
  "ac_WriteByte value addr m = mem_WriteByte addr value m"

definition ac_WriteWord :: "u16 \<Rightarrow> u16 \<Rightarrow> machine \<Rightarrow> machine option" where
  "ac_WriteWord value addr m = do { m \<leftarrow> mem_WriteWord value addr m; Some (spend 2 m) }"

definition ac_GetStackAddress :: "machine \<Rightarrow> u16" where
  "ac_GetStackAddress m = STACK_ADDRESS + ucast (SP (cpu m))"

definition ac_PushStackByte :: "u8 \<Rightarrow> machine \<Rightarrow> machine option" where
  "ac_PushStackByte value m = do {
     m \<leftarrow> ac_WriteByte value (ac_GetStackAddress m) m;
     Some (set_SP (safeDec (SP (cpu m)) 1) m) }"

definition ac_PushStackWord :: "u16 \<Rightarrow> machine \<Rightarrow> machine option" where
  "ac_PushStackWord value m = do {
     m \<leftarrow> ac_WriteByte (ucast (drop_bit 8 value)) (ac_GetStackAddress m) m;
     let m = set_SP (safeDec (SP (cpu m)) 1) m;
     m \<leftarrow> ac_WriteByte (ucast (value AND 0xFF)) (ac_GetStackAddress m) m;
     Some (set_SP (safeDec (SP (cpu m)) 1) m) }"

definition ac_PopStackByte :: "machine \<Rightarrow> (u8 \<times> machine) option" where
  "ac_PopStackByte m = (
     let m = set_SP (safeInc (SP (cpu m)) 1) m in ac_ReadByte (ac_GetStackAddress m) m)"

definition ac_PopStackWord :: "machine \<Rightarrow> (u16 \<times> machine) option" where
  "ac_PopStackWord m = do {
     let m = set_SP (safeInc (SP (cpu m)) 1) m;
     (lo, m) \<leftarrow> ac_ReadByte (ac_GetStackAddress m) m;
     let m = set_SP (safeInc (SP (cpu m)) 1) m;
     (hi, m) \<leftarrow> ac_ReadByte (ac_GetStackAddress m) m;
     Some (mk_word lo hi, m) }"

subsection \<open>Addressing modes\<close>

definition ac_addr_mode_ZP :: "machine \<Rightarrow> (u16 \<times> machine) option" where
  "ac_addr_mode_ZP m = do { (address, m) \<leftarrow> ac_Fetch m; Some (ucast address, m) }"

definition ac_addr_mode_ZPX :: "machine \<Rightarrow> (u16 \<times> machine) option" where
  "ac_addr_mode_ZPX m = do { (b, m) \<leftarrow> ac_Fetch m; Some (ucast (b + X (cpu m)), m) }"

definition ac_addr_mode_ZPY :: "machine \<Rightarrow> (u16 \<times> machine) option" where
  "ac_addr_mode_ZPY m = do { (b, m) \<leftarrow> ac_Fetch m; Some (ucast (b + Y (cpu m)), m) }"

definition ac_addr_mode_ABS :: "machine \<Rightarrow> (u16 \<times> machine) option" where
  "ac_addr_mode_ABS m = ac_FetchWord m"

definition ac_addr_mode_ABSX :: "machine \<Rightarrow> (u16 \<times> machine) option" where
  "ac_addr_mode_ABSX m = do {
     (lo, m) \<leftarrow> ac_Fetch m;
     (hi, m) \<leftarrow> ac_Fetch m;
     Some (mk_word lo hi + ucast (X (cpu m)), m) }"

definition ac_addr_mode_ABSX_NoPage :: "machine \<Rightarrow> (u16 \<times> machine) option" where
  "ac_addr_mode_ABSX_NoPage m = do {
     (address, m) \<leftarrow> ac_FetchWord m; Some (address + ucast (X (cpu m)), m) }"

definition ac_addr_mode_ABSY :: "machine \<Rightarrow> (u16 \<times> machine) option" where
  "ac_addr_mode_ABSY m = do {
     (lo, m) \<leftarrow> ac_Fetch m;
     (hi, m) \<leftarrow> ac_Fetch m;
     Some (mk_word lo hi + ucast (Y (cpu m)), m) }"

definition ac_addr_mode_ABSY_NoPage :: "machine \<Rightarrow> (u16 \<times> machine) option" where
  "ac_addr_mode_ABSY_NoPage m = do {
     (address, m) \<leftarrow> ac_FetchWord m; Some (address + ucast (Y (cpu m)), m) }"

text \<open>\<^verbatim>\<open>*cycle--\<close> moves the pointer off the variable \<^verbatim>\<open>cycle\<close> of \<^verbatim>\<open>ac_Run\<close>, and \<^verbatim>\<open>ac_ReadWord(inx, cycle)\<close>, once it has read
  the word, does \<^verbatim>\<open>*cycle -= 2\<close> through it: a store outside of the variable, below it on the stack.\<close>

definition ac_addr_mode_INDX :: "machine \<Rightarrow> (u16 \<times> machine) option" where
  "ac_addr_mode_INDX m = do {
     (t, m) \<leftarrow> ac_Fetch m;
     (address, m) \<leftarrow> mem_ReadWord (ucast (t + X (cpu m))) m;
     None }"

text \<open>\<^verbatim>\<open>addr + 1\<close> is computed in \<^verbatim>\<open>int\<close>: it does not wrap to zero page address 0.\<close>

definition ac_addr_mode_INDY :: "machine \<Rightarrow> (u16 \<times> machine) option" where
  "ac_addr_mode_INDY m = do {
     (addr, m) \<leftarrow> ac_Fetch m;
     (lo, m) \<leftarrow> ac_ReadByte (ucast addr) m;
     (hi, m) \<leftarrow> ac_ReadByte (ucast addr + 1) m;
     Some (mk_word lo hi + ucast (Y (cpu m)), m) }"

subsection \<open>Arithmetic helpers\<close>

text \<open>\<^verbatim>\<open>Result\<close> is a 16-bit variable and the decimal correction is computed in \<^verbatim>\<open>int\<close>; it is at most
  \<open>0x66\<close> and the sums stay below \<open>0x300\<close>, so 16-bit words carry it exactly.\<close>

definition adc_result :: "u8 \<Rightarrow> u8 \<Rightarrow> bool \<Rightarrow> bool \<Rightarrow> u16" where
  "adc_result a v c d =
     (let r = ucast a + ucast v + (if c then 1 else 0) :: u16
      in if d then r + (drop_bit 3 ((r + 0x66) XOR ucast a XOR ucast v) AND 0x22) * 3 else r)"

definition ac_Execute_ADC :: "u8 \<Rightarrow> machine \<Rightarrow> machine" where
  "ac_Execute_ADC v m =
     (let oldA = A (cpu m);
          Result = adc_result oldA v (flag fC m) (flag fD m);
          m = set_A (ucast (Result AND 0xFF)) m;
          m = ac_SetZeroNegative (A (cpu m)) m;
          m = ac_SetCarryFlag Result m
      in ac_SetOverflow oldA (A (cpu m)) v m)"

definition ac_Execute_SBC :: "u8 \<Rightarrow> machine \<Rightarrow> machine" where
  "ac_Execute_SBC v m = ac_Execute_ADC (NOT v) m"

text \<open>\<open>compare_reg r v\<close> is the common body of \<^verbatim>\<open>ac_Execute_CMP\<close>, \<^verbatim>\<open>CPX\<close> and \<^verbatim>\<open>CPY\<close>; the differences
  are taken in \<^verbatim>\<open>int\<close> and only their low eight bits are inspected.\<close>

definition compare_reg :: "u8 \<Rightarrow> u8 \<Rightarrow> machine \<Rightarrow> machine" where
  "compare_reg r v m =
     (let m = set_flag fZ ((r - v) AND 0xFF = 0) m;
          m = set_flag fN ((r - v) AND FLAG_NEGATIVE \<noteq> 0) m
      in set_flag fC (v \<le> r) m)"

definition ac_Execute_CMP :: "u8 \<Rightarrow> machine \<Rightarrow> machine" where
  "ac_Execute_CMP v m = compare_reg (A (cpu m)) v m"

definition ac_Execute_CPX :: "u8 \<Rightarrow> machine \<Rightarrow> machine" where
  "ac_Execute_CPX v m = compare_reg (X (cpu m)) v m"

definition ac_Execute_CPY :: "u8 \<Rightarrow> machine \<Rightarrow> machine" where
  "ac_Execute_CPY v m = compare_reg (Y (cpu m)) v m"

text \<open>The shifts take \<^verbatim>\<open>BYTE *v\<close>: the model returns the new byte with the machine.\<close>

definition ac_Execute_ASL :: "u8 \<Rightarrow> machine \<Rightarrow> u8 \<times> machine" where
  "ac_Execute_ASL v m =
     (let m = set_flag fC (v AND FLAG_NEGATIVE > 0) m; v = push_bit 1 v
      in (v, ac_SetZeroNegative v m))"

definition ac_Execute_LSR :: "u8 \<Rightarrow> machine \<Rightarrow> u8 \<times> machine" where
  "ac_Execute_LSR v m =
     (let m = set_flag fC (v AND 0x01 \<noteq> 0) m; v = drop_bit 1 v
      in (v, ac_SetZeroNegative v m))"

definition ac_Execute_ROL :: "u8 \<Rightarrow> machine \<Rightarrow> u8 \<times> machine" where
  "ac_Execute_ROL v m =
     (let oldcarry = (if flag fC m then 0x01 else 0x00);
          m = set_flag fC (v AND FLAG_NEGATIVE > 0) m;
          v = push_bit 1 v OR oldcarry
      in (v, ac_SetZeroNegative v m))"

definition ac_Execute_ROR :: "u8 \<Rightarrow> machine \<Rightarrow> u8 \<times> machine" where
  "ac_Execute_ROR v m =
     (let oldcarry = (v AND FLAG_CARRY > 0);
          v = drop_bit 1 v OR (if flag fC m then FLAG_NEGATIVE else 0);
          m = set_flag fC oldcarry m
      in (v, ac_SetZeroNegative v m))"

definition ac_Execute_BRANCH :: "bool \<Rightarrow> bool \<Rightarrow> machine \<Rightarrow> machine option" where
  "ac_Execute_BRANCH v condition m = do {
     (offset, m) \<leftarrow> ac_Fetch m;
     Some (if v = condition then set_PC (PC (cpu m) + scast offset) m else m) }"

end
