(* ===== verification/Apple_Opcodes.thy ===== *)
theory Apple_Opcodes
  imports Apple_State
begin

text \<open>
  The opcode numbers of \<^verbatim>\<open>AppleCpu.h\<close>, one abbreviation per \<^verbatim>\<open>#define\<close>, and the list of all of
  them in the order of the header.
\<close>

abbreviation (input) LDA_IM :: u8 where "LDA_IM \<equiv> 0xa9"
abbreviation (input) LDA_ZP :: u8 where "LDA_ZP \<equiv> 0xa5"
abbreviation (input) LDA_ZPX :: u8 where "LDA_ZPX \<equiv> 0xb5"
abbreviation (input) LDA_ABS :: u8 where "LDA_ABS \<equiv> 0xad"
abbreviation (input) LDA_ABSX :: u8 where "LDA_ABSX \<equiv> 0xbd"
abbreviation (input) LDA_ABSY :: u8 where "LDA_ABSY \<equiv> 0xb9"
abbreviation (input) LDA_INDX :: u8 where "LDA_INDX \<equiv> 0xa1"
abbreviation (input) LDA_INDY :: u8 where "LDA_INDY \<equiv> 0xb1"
abbreviation (input) LDX_IM :: u8 where "LDX_IM \<equiv> 0xa2"
abbreviation (input) LDX_ZP :: u8 where "LDX_ZP \<equiv> 0xa6"
abbreviation (input) LDX_ZPY :: u8 where "LDX_ZPY \<equiv> 0xb6"
abbreviation (input) LDX_ABS :: u8 where "LDX_ABS \<equiv> 0xae"
abbreviation (input) LDX_ABSY :: u8 where "LDX_ABSY \<equiv> 0xbe"
abbreviation (input) LDY_IM :: u8 where "LDY_IM \<equiv> 0xa0"
abbreviation (input) LDY_ZP :: u8 where "LDY_ZP \<equiv> 0xa4"
abbreviation (input) LDY_ZPX :: u8 where "LDY_ZPX \<equiv> 0xb4"
abbreviation (input) LDY_ABS :: u8 where "LDY_ABS \<equiv> 0xac"
abbreviation (input) LDY_ABSX :: u8 where "LDY_ABSX \<equiv> 0xbc"
abbreviation (input) NOP :: u8 where "NOP \<equiv> 0xea"
abbreviation (input) JSR :: u8 where "JSR \<equiv> 0x20"
abbreviation (input) JMP_ABS :: u8 where "JMP_ABS \<equiv> 0x4c"
abbreviation (input) JMP_IND :: u8 where "JMP_IND \<equiv> 0x6c"
abbreviation (input) RTS :: u8 where "RTS \<equiv> 0x60"
abbreviation (input) STA_ZP :: u8 where "STA_ZP \<equiv> 0x85"
abbreviation (input) STA_ZPX :: u8 where "STA_ZPX \<equiv> 0x95"
abbreviation (input) STA_ABS :: u8 where "STA_ABS \<equiv> 0x8d"
abbreviation (input) STA_ABSX :: u8 where "STA_ABSX \<equiv> 0x9d"
abbreviation (input) STA_ABSY :: u8 where "STA_ABSY \<equiv> 0x99"
abbreviation (input) STA_INDX :: u8 where "STA_INDX \<equiv> 0x81"
abbreviation (input) STA_INDY :: u8 where "STA_INDY \<equiv> 0x91"
abbreviation (input) STX_ZP :: u8 where "STX_ZP \<equiv> 0x86"
abbreviation (input) STX_ZPY :: u8 where "STX_ZPY \<equiv> 0x96"
abbreviation (input) STX_ABS :: u8 where "STX_ABS \<equiv> 0x8e"
abbreviation (input) STY_ZP :: u8 where "STY_ZP \<equiv> 0x84"
abbreviation (input) STY_ZPX :: u8 where "STY_ZPX \<equiv> 0x94"
abbreviation (input) STY_ABS :: u8 where "STY_ABS \<equiv> 0x8c"
abbreviation (input) TSX :: u8 where "TSX \<equiv> 0xba"
abbreviation (input) TXS :: u8 where "TXS \<equiv> 0x9a"
abbreviation (input) PHA :: u8 where "PHA \<equiv> 0x48"
abbreviation (input) PLA :: u8 where "PLA \<equiv> 0x68"
abbreviation (input) PLP :: u8 where "PLP \<equiv> 0x28"
abbreviation (input) PHP :: u8 where "PHP \<equiv> 0x08"
abbreviation (input) AND_IM :: u8 where "AND_IM \<equiv> 0x29"
abbreviation (input) AND_ZP :: u8 where "AND_ZP \<equiv> 0x25"
abbreviation (input) AND_ZPX :: u8 where "AND_ZPX \<equiv> 0x35"
abbreviation (input) AND_ABS :: u8 where "AND_ABS \<equiv> 0x2d"
abbreviation (input) AND_ABSX :: u8 where "AND_ABSX \<equiv> 0x3d"
abbreviation (input) AND_ABSY :: u8 where "AND_ABSY \<equiv> 0x39"
abbreviation (input) AND_INDX :: u8 where "AND_INDX \<equiv> 0x21"
abbreviation (input) AND_INDY :: u8 where "AND_INDY \<equiv> 0x31"
abbreviation (input) ORA_IM :: u8 where "ORA_IM \<equiv> 0x09"
abbreviation (input) ORA_ZP :: u8 where "ORA_ZP \<equiv> 0x05"
abbreviation (input) ORA_ZPX :: u8 where "ORA_ZPX \<equiv> 0x15"
abbreviation (input) ORA_ABS :: u8 where "ORA_ABS \<equiv> 0x0d"
abbreviation (input) ORA_ABSX :: u8 where "ORA_ABSX \<equiv> 0x1d"
abbreviation (input) ORA_ABSY :: u8 where "ORA_ABSY \<equiv> 0x19"
abbreviation (input) ORA_INDX :: u8 where "ORA_INDX \<equiv> 0x01"
abbreviation (input) ORA_INDY :: u8 where "ORA_INDY \<equiv> 0x11"
abbreviation (input) EOR_IM :: u8 where "EOR_IM \<equiv> 0x49"
abbreviation (input) EOR_ZP :: u8 where "EOR_ZP \<equiv> 0x45"
abbreviation (input) EOR_ZPX :: u8 where "EOR_ZPX \<equiv> 0x55"
abbreviation (input) EOR_ABS :: u8 where "EOR_ABS \<equiv> 0x4d"
abbreviation (input) EOR_ABSX :: u8 where "EOR_ABSX \<equiv> 0x5d"
abbreviation (input) EOR_ABSY :: u8 where "EOR_ABSY \<equiv> 0x59"
abbreviation (input) EOR_INDX :: u8 where "EOR_INDX \<equiv> 0x41"
abbreviation (input) EOR_INDY :: u8 where "EOR_INDY \<equiv> 0x51"
abbreviation (input) BIT_ZP :: u8 where "BIT_ZP \<equiv> 0x24"
abbreviation (input) BIT_ABS :: u8 where "BIT_ABS \<equiv> 0x2c"
abbreviation (input) TAX :: u8 where "TAX \<equiv> 0xaa"
abbreviation (input) TAY :: u8 where "TAY \<equiv> 0xa8"
abbreviation (input) TXA :: u8 where "TXA \<equiv> 0x8a"
abbreviation (input) TYA :: u8 where "TYA \<equiv> 0x98"
abbreviation (input) INX :: u8 where "INX \<equiv> 0xe8"
abbreviation (input) INY :: u8 where "INY \<equiv> 0xc8"
abbreviation (input) DEX :: u8 where "DEX \<equiv> 0xca"
abbreviation (input) DEY :: u8 where "DEY \<equiv> 0x88"
abbreviation (input) INC_ZP :: u8 where "INC_ZP \<equiv> 0xe6"
abbreviation (input) INC_ZPX :: u8 where "INC_ZPX \<equiv> 0xf6"
abbreviation (input) INC_ABS :: u8 where "INC_ABS \<equiv> 0xee"
abbreviation (input) INC_ABSX :: u8 where "INC_ABSX \<equiv> 0xfe"
abbreviation (input) DEC_ZP :: u8 where "DEC_ZP \<equiv> 0xc6"
abbreviation (input) DEC_ZPX :: u8 where "DEC_ZPX \<equiv> 0xd6"
abbreviation (input) DEC_ABS :: u8 where "DEC_ABS \<equiv> 0xce"
abbreviation (input) DEC_ABSX :: u8 where "DEC_ABSX \<equiv> 0xde"
abbreviation (input) ADC_IM :: u8 where "ADC_IM \<equiv> 0x69"
abbreviation (input) ADC_ZP :: u8 where "ADC_ZP \<equiv> 0x65"
abbreviation (input) ADC_ZPX :: u8 where "ADC_ZPX \<equiv> 0x75"
abbreviation (input) ADC_ABS :: u8 where "ADC_ABS \<equiv> 0x6d"
abbreviation (input) ADC_ABSX :: u8 where "ADC_ABSX \<equiv> 0x7d"
abbreviation (input) ADC_ABSY :: u8 where "ADC_ABSY \<equiv> 0x79"
abbreviation (input) ADC_INDX :: u8 where "ADC_INDX \<equiv> 0x61"
abbreviation (input) ADC_INDY :: u8 where "ADC_INDY \<equiv> 0x71"
abbreviation (input) SBC_IM :: u8 where "SBC_IM \<equiv> 0xe9"
abbreviation (input) SBC_ZP :: u8 where "SBC_ZP \<equiv> 0xe5"
abbreviation (input) SBC_ZPX :: u8 where "SBC_ZPX \<equiv> 0xf5"
abbreviation (input) SBC_ABS :: u8 where "SBC_ABS \<equiv> 0xed"
abbreviation (input) SBC_ABSX :: u8 where "SBC_ABSX \<equiv> 0xfd"
abbreviation (input) SBC_ABSY :: u8 where "SBC_ABSY \<equiv> 0xf9"
abbreviation (input) SBC_INDX :: u8 where "SBC_INDX \<equiv> 0xe1"
abbreviation (input) SBC_INDY :: u8 where "SBC_INDY \<equiv> 0xf1"
abbreviation (input) CMP_IM :: u8 where "CMP_IM \<equiv> 0xc9"
abbreviation (input) CMP_ZP :: u8 where "CMP_ZP \<equiv> 0xc5"
abbreviation (input) CMP_ZPX :: u8 where "CMP_ZPX \<equiv> 0xd5"
abbreviation (input) CMP_ABS :: u8 where "CMP_ABS \<equiv> 0xcd"
abbreviation (input) CMP_ABSX :: u8 where "CMP_ABSX \<equiv> 0xdd"
abbreviation (input) CMP_ABSY :: u8 where "CMP_ABSY \<equiv> 0xd9"
abbreviation (input) CMP_INDX :: u8 where "CMP_INDX \<equiv> 0xc1"
abbreviation (input) CMP_INDY :: u8 where "CMP_INDY \<equiv> 0xd1"
abbreviation (input) CPX_IM :: u8 where "CPX_IM \<equiv> 0xe0"
abbreviation (input) CPX_ZP :: u8 where "CPX_ZP \<equiv> 0xe4"
abbreviation (input) CPX_ABS :: u8 where "CPX_ABS \<equiv> 0xec"
abbreviation (input) CPY_IM :: u8 where "CPY_IM \<equiv> 0xc0"
abbreviation (input) CPY_ZP :: u8 where "CPY_ZP \<equiv> 0xc4"
abbreviation (input) CPY_ABS :: u8 where "CPY_ABS \<equiv> 0xcc"
abbreviation (input) ASL :: u8 where "ASL \<equiv> 0x0a"
abbreviation (input) ASL_ZP :: u8 where "ASL_ZP \<equiv> 0x06"
abbreviation (input) ASL_ZPX :: u8 where "ASL_ZPX \<equiv> 0x16"
abbreviation (input) ASL_ABS :: u8 where "ASL_ABS \<equiv> 0x0e"
abbreviation (input) ASL_ABSX :: u8 where "ASL_ABSX \<equiv> 0x1e"
abbreviation (input) LSR :: u8 where "LSR \<equiv> 0x4a"
abbreviation (input) LSR_ZP :: u8 where "LSR_ZP \<equiv> 0x46"
abbreviation (input) LSR_ZPX :: u8 where "LSR_ZPX \<equiv> 0x56"
abbreviation (input) LSR_ABS :: u8 where "LSR_ABS \<equiv> 0x4e"
abbreviation (input) LSR_ABSX :: u8 where "LSR_ABSX \<equiv> 0x5e"
abbreviation (input) ROL :: u8 where "ROL \<equiv> 0x2a"
abbreviation (input) ROL_ZP :: u8 where "ROL_ZP \<equiv> 0x26"
abbreviation (input) ROL_ZPX :: u8 where "ROL_ZPX \<equiv> 0x36"
abbreviation (input) ROL_ABS :: u8 where "ROL_ABS \<equiv> 0x2e"
abbreviation (input) ROL_ABSX :: u8 where "ROL_ABSX \<equiv> 0x3e"
abbreviation (input) ROR :: u8 where "ROR \<equiv> 0x6a"
abbreviation (input) ROR_ZP :: u8 where "ROR_ZP \<equiv> 0x66"
abbreviation (input) ROR_ZPX :: u8 where "ROR_ZPX \<equiv> 0x76"
abbreviation (input) ROR_ABS :: u8 where "ROR_ABS \<equiv> 0x6e"
abbreviation (input) ROR_ABSX :: u8 where "ROR_ABSX \<equiv> 0x7e"
abbreviation (input) BRK :: u8 where "BRK \<equiv> 0x00"
abbreviation (input) RTI :: u8 where "RTI \<equiv> 0x40"
abbreviation (input) BCC :: u8 where "BCC \<equiv> 0x90"
abbreviation (input) BCS :: u8 where "BCS \<equiv> 0xb0"
abbreviation (input) BEQ :: u8 where "BEQ \<equiv> 0xf0"
abbreviation (input) BMI :: u8 where "BMI \<equiv> 0x30"
abbreviation (input) BNE :: u8 where "BNE \<equiv> 0xd0"
abbreviation (input) BPL :: u8 where "BPL \<equiv> 0x10"
abbreviation (input) BVC :: u8 where "BVC \<equiv> 0x50"
abbreviation (input) BVS :: u8 where "BVS \<equiv> 0x70"
abbreviation (input) CLC :: u8 where "CLC \<equiv> 0x18"
abbreviation (input) CLD :: u8 where "CLD \<equiv> 0xd8"
abbreviation (input) CLI :: u8 where "CLI \<equiv> 0x58"
abbreviation (input) CLV :: u8 where "CLV \<equiv> 0xb8"
abbreviation (input) SEC :: u8 where "SEC \<equiv> 0x38"
abbreviation (input) SED :: u8 where "SED \<equiv> 0xf8"
abbreviation (input) SEI :: u8 where "SEI \<equiv> 0x78"

definition header_opcodes :: "u8 list" where
  "header_opcodes = [
     LDA_IM, LDA_ZP, LDA_ZPX, LDA_ABS, LDA_ABSX, LDA_ABSY, LDA_INDX, LDA_INDY, LDX_IM,
     LDX_ZP, LDX_ZPY, LDX_ABS, LDX_ABSY, LDY_IM, LDY_ZP, LDY_ZPX, LDY_ABS, LDY_ABSX,
     NOP, JSR, JMP_ABS, JMP_IND, RTS, STA_ZP, STA_ZPX, STA_ABS, STA_ABSX,
     STA_ABSY, STA_INDX, STA_INDY, STX_ZP, STX_ZPY, STX_ABS, STY_ZP, STY_ZPX, STY_ABS,
     TSX, TXS, PHA, PLA, PLP, PHP, AND_IM, AND_ZP, AND_ZPX,
     AND_ABS, AND_ABSX, AND_ABSY, AND_INDX, AND_INDY, ORA_IM, ORA_ZP, ORA_ZPX, ORA_ABS,
     ORA_ABSX, ORA_ABSY, ORA_INDX, ORA_INDY, EOR_IM, EOR_ZP, EOR_ZPX, EOR_ABS, EOR_ABSX,
     EOR_ABSY, EOR_INDX, EOR_INDY, BIT_ZP, BIT_ABS, TAX, TAY, TXA, TYA,
     INX, INY, DEX, DEY, INC_ZP, INC_ZPX, INC_ABS, INC_ABSX, DEC_ZP,
     DEC_ZPX, DEC_ABS, DEC_ABSX, ADC_IM, ADC_ZP, ADC_ZPX, ADC_ABS, ADC_ABSX, ADC_ABSY,
     ADC_INDX, ADC_INDY, SBC_IM, SBC_ZP, SBC_ZPX, SBC_ABS, SBC_ABSX, SBC_ABSY, SBC_INDX,
     SBC_INDY, CMP_IM, CMP_ZP, CMP_ZPX, CMP_ABS, CMP_ABSX, CMP_ABSY, CMP_INDX, CMP_INDY,
     CPX_IM, CPX_ZP, CPX_ABS, CPY_IM, CPY_ZP, CPY_ABS, ASL, ASL_ZP, ASL_ZPX,
     ASL_ABS, ASL_ABSX, LSR, LSR_ZP, LSR_ZPX, LSR_ABS, LSR_ABSX, ROL, ROL_ZP,
     ROL_ZPX, ROL_ABS, ROL_ABSX, ROR, ROR_ZP, ROR_ZPX, ROR_ABS, ROR_ABSX, BRK,
     RTI, BCC, BCS, BEQ, BMI, BNE, BPL, BVC, BVS,
     CLC, CLD, CLI, CLV, SEC, SED, SEI]"

end
