(* ===== verification/Apple_Instr.thy ===== *)
theory Apple_Instr
  imports Apple_Cpu Apple_Opcodes
begin

text \<open>
  The instruction switch of \<^verbatim>\<open>ac_Run\<close> in \<^verbatim>\<open>AppleCpu.c\<close> and the loop around it.  Cases of the switch
  that differ only in how they obtain their operand share one handler, which takes the operand
  reader (\<open>ac_Fetch\<close> for immediate operands, \<open>rd mode\<close> otherwise) or the addressing mode as its
  argument.  The switch itself is a table from opcode to handler, cut into one list per group of
  cases; an opcode that is in no list runs the \<^verbatim>\<open>default\<close> case, which does nothing.
\<close>

type_synonym handler = "machine \<Rightarrow> machine option"
type_synonym reader = "machine \<Rightarrow> (u8 \<times> machine) option"
type_synonym amode = "machine \<Rightarrow> (u16 \<times> machine) option"

definition rd :: "amode \<Rightarrow> reader" where
  "rd mode m = do { (addr, m) \<leftarrow> mode m; ac_ReadByte addr m }"

subsection \<open>Loads and stores\<close>

definition op_LDA :: "reader \<Rightarrow> handler" where
  "op_LDA r m = do { (v, m) \<leftarrow> r m; Some (ac_SetZeroNegative v (set_A v m)) }"

definition op_LDX :: "reader \<Rightarrow> handler" where
  "op_LDX r m = do { (v, m) \<leftarrow> r m; Some (ac_SetZeroNegative v (set_X v m)) }"

definition op_LDY :: "reader \<Rightarrow> handler" where
  "op_LDY r m = do { (v, m) \<leftarrow> r m; Some (ac_SetZeroNegative v (set_Y v m)) }"

definition op_STA :: "amode \<Rightarrow> handler" where
  "op_STA mode m = do { (addr, m) \<leftarrow> mode m; ac_WriteByte (A (cpu m)) addr m }"

definition op_STA_INDY :: handler where
  "op_STA_INDY m = do {
     (zp, m) \<leftarrow> ac_Fetch m;
     (addr, m) \<leftarrow> ac_ReadWord (ucast zp) m;
     let addr = addr + ucast (Y (cpu m));
     let m = spend 1 m;
     ac_WriteByte (A (cpu m)) addr m }"

definition op_STX :: "amode \<Rightarrow> handler" where
  "op_STX mode m = do { (addr, m) \<leftarrow> mode m; ac_WriteByte (X (cpu m)) addr m }"

definition op_STY :: "amode \<Rightarrow> handler" where
  "op_STY mode m = do { (addr, m) \<leftarrow> mode m; ac_WriteByte (Y (cpu m)) addr m }"

subsection \<open>Jumps and stack\<close>

definition op_JSR :: handler where
  "op_JSR m = do {
     (lo, m) \<leftarrow> ac_ReadByte (PC (cpu m)) m;
     let m = set_PC (PC (cpu m) + 1) m;
     (hi, m) \<leftarrow> ac_ReadByte (PC (cpu m)) m;
     let address = mk_word lo hi;
     m \<leftarrow> ac_PushStackWord (PC (cpu m)) m;
     Some (spend 1 (set_PC address m)) }"

definition op_JMP_ABS :: handler where
  "op_JMP_ABS m = do { (addr, m) \<leftarrow> ac_addr_mode_ABS m; Some (set_PC addr m) }"

definition op_JMP_IND :: handler where
  "op_JMP_IND m = do {
     (addr, m) \<leftarrow> ac_FetchWord m;
     (addr, m) \<leftarrow> ac_ReadWord addr m;
     Some (set_PC addr m) }"

definition op_RTS :: handler where
  "op_RTS m = do { (addr, m) \<leftarrow> ac_PopStackWord m; Some (spend 2 (set_PC (addr + 1) m)) }"

definition op_TSX :: handler where
  "op_TSX m = (let m = spend 1 (set_X (SP (cpu m)) m) in Some (ac_SetZeroNegative (X (cpu m)) m))"

definition op_TXS :: handler where
  "op_TXS m = Some (spend 1 (set_SP (X (cpu m)) m))"

definition op_PHA :: handler where
  "op_PHA m = ac_PushStackByte (A (cpu m)) m"

definition op_PLA :: handler where
  "op_PLA m = do {
     (v, m) \<leftarrow> ac_PopStackByte m;
     let m = spend 1 (set_A v m);
     Some (ac_SetZeroNegative (A (cpu m)) m) }"

definition op_PLP :: handler where
  "op_PLP m = do { (v, m) \<leftarrow> ac_PopStackByte m; Some (set_PS (v OR FLAG_UNUSED) m) }"

definition op_PHP :: handler where
  "op_PHP m = ac_PushStackByte (PS (cpu m) OR FLAG_BREAK) m"

subsection \<open>Logic and transfers\<close>

definition op_AND :: "reader \<Rightarrow> handler" where
  "op_AND r m = do {
     (v, m) \<leftarrow> r m;
     let m = set_A (A (cpu m) AND v) m;
     Some (ac_SetZeroNegative (A (cpu m)) m) }"

definition op_ORA :: "reader \<Rightarrow> handler" where
  "op_ORA r m = do {
     (v, m) \<leftarrow> r m;
     let m = set_A (A (cpu m) OR v) m;
     Some (ac_SetZeroNegative (A (cpu m)) m) }"

definition op_EOR :: "reader \<Rightarrow> handler" where
  "op_EOR r m = do {
     (v, m) \<leftarrow> r m;
     let m = set_A (A (cpu m) XOR v) m;
     Some (ac_SetZeroNegative (A (cpu m)) m) }"

definition op_BIT :: "reader \<Rightarrow> handler" where
  "op_BIT r m = do {
     (R, m) \<leftarrow> r m;
     let m = set_flag fZ (A (cpu m) AND R = 0) m;
     let m = set_flag fN (R AND FLAG_NEGATIVE \<noteq> 0) m;
     Some (set_flag fV (R AND FLAG_OVERFLOW \<noteq> 0) m) }"

definition op_TAX :: handler where
  "op_TAX m = (let m = spend 1 (set_X (A (cpu m)) m) in Some (ac_SetZeroNegative (X (cpu m)) m))"

definition op_TAY :: handler where
  "op_TAY m = (let m = spend 1 (set_Y (A (cpu m)) m) in Some (ac_SetZeroNegative (Y (cpu m)) m))"

definition op_TXA :: handler where
  "op_TXA m = (let m = spend 1 (set_A (X (cpu m)) m) in Some (ac_SetZeroNegative (A (cpu m)) m))"

definition op_TYA :: handler where
  "op_TYA m = (let m = spend 1 (set_A (Y (cpu m)) m) in Some (ac_SetZeroNegative (A (cpu m)) m))"

subsection \<open>Increments and decrements\<close>

definition zn_inc :: "u8 \<Rightarrow> machine \<Rightarrow> machine" where
  "zn_inc v m = set_flag fN (v AND FLAG_NEGATIVE \<noteq> 0) (set_flag fZ (v = 0) m)"

definition op_INX :: handler where
  "op_INX m = (let m = spend 1 (set_X (X (cpu m) + 1) m) in Some (zn_inc (X (cpu m)) m))"

definition op_INY :: handler where
  "op_INY m = (let m = spend 1 (set_Y (Y (cpu m) + 1) m) in Some (zn_inc (Y (cpu m)) m))"

definition op_DEX :: handler where
  "op_DEX m = (let m = spend 1 (set_X (X (cpu m) - 1) m) in Some (zn_inc (X (cpu m)) m))"

definition op_DEY :: handler where
  "op_DEY m = (let m = spend 1 (set_Y (Y (cpu m) - 1) m) in Some (zn_inc (Y (cpu m)) m))"

definition op_INC :: "amode \<Rightarrow> handler" where
  "op_INC mode m = do {
     (addr, m) \<leftarrow> mode m;
     (v, m) \<leftarrow> ac_ReadByte addr m;
     let v = v + 1;
     let m = spend 1 m;
     m \<leftarrow> ac_WriteByte v addr m;
     Some (ac_SetZeroNegative v m) }"

definition op_DEC :: "amode \<Rightarrow> handler" where
  "op_DEC mode m = do {
     (addr, m) \<leftarrow> mode m;
     (v, m) \<leftarrow> ac_ReadByte addr m;
     let v = v - 1;
     let m = spend 1 m;
     m \<leftarrow> ac_WriteByte v addr m;
     Some (ac_SetZeroNegative v m) }"

subsection \<open>Arithmetic, comparison, shifts\<close>

definition op_ADC :: "reader \<Rightarrow> handler" where
  "op_ADC r m = do { (v, m) \<leftarrow> r m; Some (ac_Execute_ADC v m) }"

definition op_SBC :: "reader \<Rightarrow> handler" where
  "op_SBC r m = do { (v, m) \<leftarrow> r m; Some (ac_Execute_SBC v m) }"

definition op_CMP :: "reader \<Rightarrow> handler" where
  "op_CMP r m = do { (v, m) \<leftarrow> r m; Some (ac_Execute_CMP v m) }"

definition op_CPX :: "reader \<Rightarrow> handler" where
  "op_CPX r m = do { (v, m) \<leftarrow> r m; Some (ac_Execute_CPX v m) }"

definition op_CPY :: "reader \<Rightarrow> handler" where
  "op_CPY r m = do { (v, m) \<leftarrow> r m; Some (ac_Execute_CPY v m) }"

definition op_shift_A :: "(u8 \<Rightarrow> machine \<Rightarrow> u8 \<times> machine) \<Rightarrow> handler" where
  "op_shift_A f m = (let (v, m) = f (A (cpu m)) m in Some (set_A v m))"

definition op_shift :: "(u8 \<Rightarrow> machine \<Rightarrow> u8 \<times> machine) \<Rightarrow> amode \<Rightarrow> handler" where
  "op_shift f mode m = do {
     (addr, m) \<leftarrow> mode m;
     (v, m) \<leftarrow> ac_ReadByte addr m;
     let (v, m) = f v m;
     ac_WriteByte v addr m }"

subsection \<open>Branches, flags, interrupts\<close>

definition op_branch :: "status_flag \<Rightarrow> bool \<Rightarrow> handler" where
  "op_branch f condition m = ac_Execute_BRANCH (flag f m) condition m"

definition op_flag :: "status_flag \<Rightarrow> bool \<Rightarrow> handler" where
  "op_flag f b m = Some (spend 1 (set_flag f b m))"

definition op_BRK :: handler where
  "op_BRK m = do {
     let m = set_PC (PC (cpu m) + 1) m;
     m \<leftarrow> ac_WriteByte (ucast (drop_bit 8 (PC (cpu m)) AND 0xFF)) (0x100 + ucast (SP (cpu m))) m;
     let m = set_SP (safeDec (SP (cpu m)) 1) m;
     m \<leftarrow> ac_WriteByte (ucast (PC (cpu m) AND 0xFF)) (0x100 + ucast (SP (cpu m))) m;
     let m = set_SP (safeDec (SP (cpu m)) 1) m;
     m \<leftarrow> ac_WriteByte (PS (cpu m) OR FLAG_BREAK) (0x100 + ucast (SP (cpu m))) m;
     let m = set_SP (safeDec (SP (cpu m)) 1) m;
     let m = set_flag fD False (set_flag fI True m);
     (lo, m) \<leftarrow> ac_ReadByte 0xFFFE m;
     (hi, m) \<leftarrow> ac_ReadByte 0xFFFF m;
     Some (set_PC (mk_word lo hi) m) }"

definition op_RTI :: handler where
  "op_RTI m = do {
     let m = set_SP (safeInc (SP (cpu m)) 1) m;
     (p, m) \<leftarrow> ac_ReadByte (0x100 + ucast (SP (cpu m))) m;
     let m = set_PS p m;
     let m = set_SP (safeInc (SP (cpu m)) 1) m;
     (lo, m) \<leftarrow> ac_ReadByte (0x100 + ucast (SP (cpu m))) m;
     let m = set_PC (ucast lo) m;
     let m = set_SP (safeInc (SP (cpu m)) 1) m;
     (hi, m) \<leftarrow> ac_ReadByte (0x100 + ucast (SP (cpu m))) m;
     Some (spend 5 (set_PC (PC (cpu m) OR push_bit 8 (ucast hi)) m)) }"

definition op_NOP :: handler where
  "op_NOP m = Some (spend 1 m)"

subsection \<open>The switch\<close>

abbreviation (input) ZP :: reader where "ZP \<equiv> rd ac_addr_mode_ZP"
abbreviation (input) ZPX :: reader where "ZPX \<equiv> rd ac_addr_mode_ZPX"
abbreviation (input) ZPY :: reader where "ZPY \<equiv> rd ac_addr_mode_ZPY"
abbreviation (input) ABS :: reader where "ABS \<equiv> rd ac_addr_mode_ABS"
abbreviation (input) ABSX :: reader where "ABSX \<equiv> rd ac_addr_mode_ABSX"
abbreviation (input) ABSY :: reader where "ABSY \<equiv> rd ac_addr_mode_ABSY"
abbreviation (input) INDX :: reader where "INDX \<equiv> rd ac_addr_mode_INDX"
abbreviation (input) INDY :: reader where "INDY \<equiv> rd ac_addr_mode_INDY"

type_synonym table = "(u8 \<times> handler) list"

definition load_cases :: table where
  "load_cases =
    [(LDA_IM, op_LDA ac_Fetch), (LDA_ZP, op_LDA ZP), (LDA_ZPX, op_LDA ZPX), (LDA_ABS, op_LDA ABS),
     (LDA_ABSX, op_LDA ABSX), (LDA_ABSY, op_LDA ABSY), (LDA_INDX, op_LDA INDX),
     (LDA_INDY, op_LDA INDY),
     (LDX_IM, op_LDX ac_Fetch), (LDX_ZP, op_LDX ZP), (LDX_ZPY, op_LDX ZPY), (LDX_ABS, op_LDX ABS),
     (LDX_ABSY, op_LDX ABSY),
     (LDY_IM, op_LDY ac_Fetch), (LDY_ZP, op_LDY ZP), (LDY_ZPX, op_LDY ZPX), (LDY_ABS, op_LDY ABS),
     (LDY_ABSX, op_LDY ABSX)]"

definition store_cases :: table where
  "store_cases =
    [(STA_ZP, op_STA ac_addr_mode_ZP), (STA_ZPX, op_STA ac_addr_mode_ZPX),
     (STA_ABS, op_STA ac_addr_mode_ABS), (STA_ABSX, op_STA ac_addr_mode_ABSX_NoPage),
     (STA_ABSY, op_STA ac_addr_mode_ABSY_NoPage), (STA_INDX, op_STA ac_addr_mode_INDX),
     (STA_INDY, op_STA_INDY),
     (STX_ZP, op_STX ac_addr_mode_ZP), (STX_ZPY, op_STX ac_addr_mode_ZPY),
     (STX_ABS, op_STX ac_addr_mode_ABS),
     (STY_ZP, op_STY ac_addr_mode_ZP), (STY_ZPX, op_STY ac_addr_mode_ZPX),
     (STY_ABS, op_STY ac_addr_mode_ABS)]"

definition jump_stack_cases :: table where
  "jump_stack_cases =
    [(JSR, op_JSR), (JMP_ABS, op_JMP_ABS), (JMP_IND, op_JMP_IND), (RTS, op_RTS),
     (TSX, op_TSX), (TXS, op_TXS), (PHA, op_PHA), (PLA, op_PLA), (PLP, op_PLP), (PHP, op_PHP)]"

definition logic_cases :: table where
  "logic_cases =
    [(AND_IM, op_AND ac_Fetch), (AND_ZP, op_AND ZP), (AND_ZPX, op_AND ZPX), (AND_ABS, op_AND ABS),
     (AND_ABSX, op_AND ABSX), (AND_ABSY, op_AND ABSY), (AND_INDX, op_AND INDX),
     (AND_INDY, op_AND INDY),
     (ORA_IM, op_ORA ac_Fetch), (ORA_ZP, op_ORA ZP), (ORA_ZPX, op_ORA ZPX), (ORA_ABS, op_ORA ABS),
     (ORA_ABSX, op_ORA ABSX), (ORA_ABSY, op_ORA ABSY), (ORA_INDX, op_ORA INDX),
     (ORA_INDY, op_ORA INDY),
     (EOR_IM, op_EOR ac_Fetch), (EOR_ZP, op_EOR ZP), (EOR_ZPX, op_EOR ZPX), (EOR_ABS, op_EOR ABS),
     (EOR_ABSX, op_EOR ABSX), (EOR_ABSY, op_EOR ABSY), (EOR_INDX, op_EOR INDX),
     (EOR_INDY, op_EOR INDY),
     (BIT_ZP, op_BIT ZP), (BIT_ABS, op_BIT ABS)]"

definition transfer_cases :: table where
  "transfer_cases =
    [(TAX, op_TAX), (TAY, op_TAY), (TXA, op_TXA), (TYA, op_TYA),
     (INX, op_INX), (INY, op_INY), (DEX, op_DEX), (DEY, op_DEY),
     (INC_ZP, op_INC ac_addr_mode_ZP), (INC_ZPX, op_INC ac_addr_mode_ZPX),
     (INC_ABS, op_INC ac_addr_mode_ABS), (INC_ABSX, op_INC ac_addr_mode_ABSX_NoPage),
     (DEC_ZP, op_DEC ac_addr_mode_ZP), (DEC_ZPX, op_DEC ac_addr_mode_ZPX),
     (DEC_ABS, op_DEC ac_addr_mode_ABS), (DEC_ABSX, op_DEC ac_addr_mode_ABSX_NoPage)]"

definition arith_cases :: table where
  "arith_cases =
    [(ADC_IM, op_ADC ac_Fetch), (ADC_ZP, op_ADC ZP), (ADC_ZPX, op_ADC ZPX), (ADC_ABS, op_ADC ABS),
     (ADC_ABSX, op_ADC ABSX), (ADC_ABSY, op_ADC ABSY), (ADC_INDX, op_ADC INDX),
     (ADC_INDY, op_ADC INDY),
     (SBC_IM, op_SBC ac_Fetch), (SBC_ZP, op_SBC ZP), (SBC_ZPX, op_SBC ZPX), (SBC_ABS, op_SBC ABS),
     (SBC_ABSX, op_SBC ABSX), (SBC_ABSY, op_SBC ABSY), (SBC_INDX, op_SBC INDX),
     (SBC_INDY, op_SBC INDY)]"

definition compare_cases :: table where
  "compare_cases =
    [(CMP_IM, op_CMP ac_Fetch), (CMP_ZP, op_CMP ZP), (CMP_ZPX, op_CMP ZPX), (CMP_ABS, op_CMP ABS),
     (CMP_ABSX, op_CMP ABSX), (CMP_ABSY, op_CMP ABSY), (CMP_INDX, op_CMP INDX),
     (CMP_INDY, op_CMP INDY),
     (CPX_IM, op_CPX ac_Fetch), (CPX_ZP, op_CPX ZP), (CPX_ABS, op_CPX ABS),
     (CPY_IM, op_CPY ac_Fetch), (CPY_ZP, op_CPY ZP), (CPY_ABS, op_CPY ABS)]"

text \<open>\<^verbatim>\<open>ASL_ABSX\<close> uses the page-checking mode, the other three shifts the \<^verbatim>\<open>NoPage\<close> one.\<close>

definition shift_cases :: table where
  "shift_cases =
    [(ASL, op_shift_A ac_Execute_ASL), (ASL_ZP, op_shift ac_Execute_ASL ac_addr_mode_ZP),
     (ASL_ZPX, op_shift ac_Execute_ASL ac_addr_mode_ZPX),
     (ASL_ABS, op_shift ac_Execute_ASL ac_addr_mode_ABS),
     (ASL_ABSX, op_shift ac_Execute_ASL ac_addr_mode_ABSX),
     (LSR, op_shift_A ac_Execute_LSR), (LSR_ZP, op_shift ac_Execute_LSR ac_addr_mode_ZP),
     (LSR_ZPX, op_shift ac_Execute_LSR ac_addr_mode_ZPX),
     (LSR_ABS, op_shift ac_Execute_LSR ac_addr_mode_ABS),
     (LSR_ABSX, op_shift ac_Execute_LSR ac_addr_mode_ABSX_NoPage),
     (ROL, op_shift_A ac_Execute_ROL), (ROL_ZP, op_shift ac_Execute_ROL ac_addr_mode_ZP),
     (ROL_ZPX, op_shift ac_Execute_ROL ac_addr_mode_ZPX),
     (ROL_ABS, op_shift ac_Execute_ROL ac_addr_mode_ABS),
     (ROL_ABSX, op_shift ac_Execute_ROL ac_addr_mode_ABSX_NoPage),
     (ROR, op_shift_A ac_Execute_ROR), (ROR_ZP, op_shift ac_Execute_ROR ac_addr_mode_ZP),
     (ROR_ZPX, op_shift ac_Execute_ROR ac_addr_mode_ZPX),
     (ROR_ABS, op_shift ac_Execute_ROR ac_addr_mode_ABS),
     (ROR_ABSX, op_shift ac_Execute_ROR ac_addr_mode_ABSX_NoPage)]"

definition branch_flag_cases :: table where
  "branch_flag_cases =
    [(BCC, op_branch fC False), (BCS, op_branch fC True), (BEQ, op_branch fZ True),
     (BNE, op_branch fZ False), (BMI, op_branch fN True), (BPL, op_branch fN False),
     (BVC, op_branch fV False), (BVS, op_branch fV True),
     (CLC, op_flag fC False), (CLD, op_flag fD False), (CLI, op_flag fI False),
     (CLV, op_flag fV False), (SEC, op_flag fC True), (SED, op_flag fD True),
     (SEI, op_flag fI True)]"

definition interrupt_cases :: table where
  "interrupt_cases = [(BRK, op_BRK), (RTI, op_RTI), (NOP, op_NOP)]"

definition case_groups :: "table list" where
  "case_groups = [load_cases, store_cases, jump_stack_cases, logic_cases, transfer_cases,
     arith_cases, compare_cases, shift_cases, branch_flag_cases, interrupt_cases]"

definition opcode_table :: table where
  "opcode_table = concat case_groups"

lemmas case_defs = load_cases_def store_cases_def jump_stack_cases_def logic_cases_def
  transfer_cases_def arith_cases_def compare_cases_def shift_cases_def branch_flag_cases_def
  interrupt_cases_def

lemmas table_defs = opcode_table_def case_groups_def case_defs

definition dispatch :: "u8 \<Rightarrow> handler" where
  "dispatch inst m = (case map_of opcode_table inst of Some h \<Rightarrow> h m | None \<Rightarrow> Some m)"

text \<open>One round of the loop body: fetch an opcode and run its case.\<close>

definition ac_step :: handler where
  "ac_step m = do { (inst, m) \<leftarrow> ac_Fetch m; dispatch inst m }"

subsection \<open>The run loop\<close>

text \<open>
  \<^verbatim>\<open>while (cycle > 0) { ...; if (prevcycle < cycle) break; }\<close>.  The result \<open>None\<close> means that the loop
  does not return; \<open>Some None\<close> that it stops at an out-of-bounds access.
\<close>

partial_function (option) ac_Run_loop :: "machine \<Rightarrow> machine option option" where
  "ac_Run_loop m =
     (if cycle (cpu m) > 0
      then case ac_step m of
          None \<Rightarrow> Some None
        | Some m' \<Rightarrow> if cycle (cpu m) < cycle (cpu m') then Some (Some m') else ac_Run_loop m'
      else Some (Some m))"

definition ac_Run :: "u32 \<Rightarrow> machine \<Rightarrow> machine option option" where
  "ac_Run budget m = ac_Run_loop (m\<lparr>cpu := cpu m\<lparr>cycle := budget\<rparr>\<rparr>)"

end
