(* ===== verification/Apple_Bus.thy ===== *)
theory Apple_Bus
  imports Apple_Instr
begin

text \<open>
  The interface between the CPU and the memory bus, as two locales.  A client of \<open>bus_graded\<close> gives a relation
  \<open>Q k\<close> on machines, for a number \<open>k\<close> of bus accesses, that holds across any change of the registers (the CPU
  record without \<^verbatim>\<open>cpu_tick\<close>), goes from \<open>k\<close> to \<open>k + 1\<close> at every bus read and write, and a predicate \<open>B\<close> that holds
  wherever a bus access faults.  The locale carries both through every helper, addressing mode and instruction handler
  and through the switch: an instruction makes at most six accesses.  \<open>bus_contract\<close> is the case of one reflexive and
  transitive relation, which also goes through \<^verbatim>\<open>ac_Run\<close>: what the bus promises, every program keeps.
\<close>

subsection \<open>The instructions that cannot be executed\<close>

text \<open>The opcodes of the addressing mode \<^verbatim>\<open>ac_addr_mode_INDX\<close>, whose store through the moved pointer is a fault; and a
  machine that fetches one of them next.\<close>

definition indx_opcodes :: "u8 list" where
  "indx_opcodes = [LDA_INDX, STA_INDX, AND_INDX, ORA_INDX, EOR_INDX, ADC_INDX, SBC_INDX, CMP_INDX]"

definition at_indx :: "machine \<Rightarrow> bool" where
  "at_indx m \<longleftrightarrow> (case ac_Fetch m of None \<Rightarrow> False | Some (inst, _) \<Rightarrow> inst \<in> set indx_opcodes)"

lemma indx_None [simp]: "ac_addr_mode_INDX m = None"
  by (auto simp: ac_addr_mode_INDX_def split: Option.bind_split)

lemma indx_handlers:
  "(inst, h) \<in> set opcode_table \<Longrightarrow> inst \<in> set indx_opcodes \<Longrightarrow> h m = None"
proof -
  have "list_all (\<lambda>(inst, h). inst \<in> set indx_opcodes \<longrightarrow> h m = None) g" if "g \<in> set case_groups" for g
    using that by (auto simp: case_groups_def case_defs indx_opcodes_def op_LDA_def op_STA_def op_AND_def op_ORA_def
        op_EOR_def op_ADC_def op_SBC_def op_CMP_def rd_def)
  then show "(inst, h) \<in> set opcode_table \<Longrightarrow> inst \<in> set indx_opcodes \<Longrightarrow> h m = None"
    by (force simp: opcode_table_def list_all_iff)
qed

lemma indx_dispatch: "inst \<in> set indx_opcodes \<Longrightarrow> dispatch inst m = None"
proof -
  assume i: "inst \<in> set indx_opcodes"
  have "set indx_opcodes \<subseteq> fst ` set opcode_table" by (simp add: indx_opcodes_def table_defs)
  with i obtain h where h: "map_of opcode_table inst = Some h"
    using map_of_eq_None_iff [of opcode_table inst] by (cases "map_of opcode_table inst") auto
  then have "h m = None" using indx_handlers i by (auto dest: map_of_SomeD)
  with h show "dispatch inst m = None" by (simp add: dispatch_def)
qed

lemma at_indx_faults: "at_indx m \<Longrightarrow> ac_step m = None"
  by (auto simp: at_indx_def ac_step_def indx_dispatch split: option.splits)

subsection \<open>One instruction\<close>

definition keeps :: "(nat \<Rightarrow> machine \<Rightarrow> machine \<Rightarrow> bool) \<Rightarrow> (machine \<Rightarrow> bool) \<Rightarrow> handler \<Rightarrow> bool" where
  "keeps Q B h \<longleftrightarrow> (\<forall>k j s m. Q k s m \<longrightarrow> k + 5 \<le> j \<longrightarrow> rel_res (Q j) B s (h m))"

definition keeps_rd ::
  "nat \<Rightarrow> (nat \<Rightarrow> machine \<Rightarrow> machine \<Rightarrow> bool) \<Rightarrow> (machine \<Rightarrow> bool) \<Rightarrow> (machine \<Rightarrow> ('v \<times> machine) option) \<Rightarrow> bool" where
  "keeps_rd n Q B r \<longleftrightarrow> (\<forall>k j s m. Q k s m \<longrightarrow> k + n \<le> j \<longrightarrow> rel_val (Q j) B s (r m))"

lemma keepsI: "(\<And>k j s m. Q k s m \<Longrightarrow> k + 5 \<le> j \<Longrightarrow> rel_res (Q j) B s (h m)) \<Longrightarrow> keeps Q B h"
  by (simp add: keeps_def)

lemma keeps_rdD: "keeps_rd n Q B r \<Longrightarrow> Q k s m \<Longrightarrow> k + n \<le> j \<Longrightarrow> rel_val (Q j) B s (r m)"
  by (simp add: keeps_rd_def)

locale bus_graded =
  fixes Q :: "nat \<Rightarrow> machine \<Rightarrow> machine \<Rightarrow> bool" and B :: "machine \<Rightarrow> bool"
  assumes Q_mono: "Q i s m \<Longrightarrow> i \<le> j \<Longrightarrow> Q j s m"
    and Q_cpu: "Q k s m \<Longrightarrow> cpu_tick c = cpu_tick (cpu m) \<Longrightarrow> Q k s (m\<lparr>cpu := c\<rparr>)"
    and bus_read: "Q k s m \<Longrightarrow> rel_val (Q (k + 1)) B s (mem_ReadByte a m)"
    and bus_write: "Q k s m \<Longrightarrow> rel_res (Q (k + 1)) B s (mem_WriteByte a v m)"
begin

text \<open>Rules for the shapes of a handler: the grade of a result is at most the grade asked for.\<close>

lemma leaf_rules [step_rules]:
  "Q k s t \<Longrightarrow> k \<le> j \<Longrightarrow> rel_res (Q j) B s (Some t)"
  "Q k s t \<Longrightarrow> k \<le> j \<Longrightarrow> rel_val (Q j) B s (Some (v, t))"
  using Q_mono by (auto simp: rel_res_def rel_val_def)

lemma grade_None: "Q i s t \<Longrightarrow> B t \<Longrightarrow> i \<le> j \<Longrightarrow> \<exists>t. Q j s t \<and> B t"
  using Q_mono by blast

lemma grade_le:
  "rel_res (Q i) B s r \<Longrightarrow> i \<le> j \<Longrightarrow> rel_res (Q j) B s r"
  "rel_val (Q i) B s x \<Longrightarrow> i \<le> j \<Longrightarrow> rel_val (Q j) B s x"
  using Q_mono [of i s _ j] by (auto simp: rel_res_def rel_val_def split: option.splits)

lemma bind_res_val [step_rules]:
  assumes "rel_val (Q i) B s r" and "i \<le> j" and "\<And>v t. Q i s t \<Longrightarrow> rel_res (Q j) B s (g v t)"
  shows "rel_res (Q j) B s (Option.bind r (\<lambda>(v, t). g v t))"
  using assms(1,3) grade_None [OF _ _ assms(2)] by (cases r) (auto simp: rel_res_def rel_val_def)

lemma bind_res [step_rules]:
  assumes "rel_res (Q i) B s r" and "i \<le> j" and "\<And>t. Q i s t \<Longrightarrow> rel_res (Q j) B s (g t)"
  shows "rel_res (Q j) B s (Option.bind r g)"
  using assms(1,3) grade_None [OF _ _ assms(2)] by (cases r) (auto simp: rel_res_def)

lemma bind_val [step_rules]:
  assumes "rel_val (Q i) B s r" and "i \<le> j" and "\<And>v t. Q i s t \<Longrightarrow> rel_val (Q j) B s (g v t)"
  shows "rel_val (Q j) B s (Option.bind r (\<lambda>(v, t). g v t))"
  using assms(1,3) grade_None [OF _ _ assms(2)] by (cases r) (auto simp: rel_val_def)

lemma if_rules [step_rules]:
  "(b \<Longrightarrow> rel_res (Q j) B s r1) \<Longrightarrow> (\<not> b \<Longrightarrow> rel_res (Q j) B s r2) \<Longrightarrow> rel_res (Q j) B s (if b then r1 else r2)"
  "(b \<Longrightarrow> rel_val (Q j) B s r3) \<Longrightarrow> (\<not> b \<Longrightarrow> rel_val (Q j) B s r4) \<Longrightarrow> rel_val (Q j) B s (if b then r3 else r4)"
  by simp_all

lemma read_rule [step_rules]: "Q k s m \<Longrightarrow> k + 1 \<le> j \<Longrightarrow> rel_val (Q j) B s (mem_ReadByte a m)"
  using grade_le(2) [OF bus_read] .

lemma write_rule [step_rules]: "Q k s m \<Longrightarrow> k + 1 \<le> j \<Longrightarrow> rel_res (Q j) B s (mem_WriteByte a v m)"
  using grade_le(1) [OF bus_write] .

text \<open>Register updates and the pure helpers.\<close>

lemma upd_cpu: "Q k s m \<Longrightarrow> cpu_tick c = cpu_tick (cpu m) \<Longrightarrow> Q k s (m\<lparr>cpu := c\<rparr>)"
  by (rule Q_cpu)

lemma upd_registers [step_rules]:
  assumes "Q k s m"
  shows "Q k s (set_A b m)" and "Q k s (set_X b m)" and "Q k s (set_Y b m)" and "Q k s (set_SP b m)"
    and "Q k s (set_PS b m)" and "Q k s (set_PC w m)"
  using assms by (simp_all add: upd_cpu)

lemma upd_flag [step_rules]: "Q k s m \<Longrightarrow> Q k s (set_flag f b m)"
  by (simp add: set_flag_def upd_cpu)

lemma upd_spend [step_rules]: "Q k s m \<Longrightarrow> Q k s (spend c m)"
  by (simp add: spend_def upd_cpu)

lemma upd_zn [step_rules]: "Q k s m \<Longrightarrow> Q k s (ac_SetZeroNegative v m)"
  by (simp add: ac_SetZeroNegative_def upd_flag)

lemma upd_zn_inc [step_rules]: "Q k s m \<Longrightarrow> Q k s (zn_inc v m)"
  by (simp add: zn_inc_def upd_flag)

lemma upd_adc [step_rules]: "Q k s m \<Longrightarrow> Q k s (ac_Execute_ADC v m)"
  unfolding ac_Execute_ADC_def ac_SetOverflow_def ac_SetCarryFlag_def Let_def
  by (intro step_rules)

lemma upd_sbc [step_rules]: "Q k s m \<Longrightarrow> Q k s (ac_Execute_SBC v m)"
  by (simp add: ac_Execute_SBC_def upd_adc)

lemma upd_compare: "Q k s m \<Longrightarrow> Q k s (compare_reg r v m)"
  unfolding compare_reg_def Let_def by (intro step_rules)

lemma upd_cmp [step_rules]: "Q k s m \<Longrightarrow> Q k s (ac_Execute_CMP v m)"
  by (simp add: ac_Execute_CMP_def upd_compare)

lemma upd_cpx [step_rules]: "Q k s m \<Longrightarrow> Q k s (ac_Execute_CPX v m)"
  by (simp add: ac_Execute_CPX_def upd_compare)

lemma upd_cpy [step_rules]: "Q k s m \<Longrightarrow> Q k s (ac_Execute_CPY v m)"
  by (simp add: ac_Execute_CPY_def upd_compare)

lemma upd_shifts:
  assumes "Q k s m"
  shows "Q k s (snd (ac_Execute_ASL v m))" and "Q k s (snd (ac_Execute_LSR v m))"
    and "Q k s (snd (ac_Execute_ROL v m))" and "Q k s (snd (ac_Execute_ROR v m))"
  using assms
  by (simp_all add: ac_Execute_ASL_def ac_Execute_LSR_def ac_Execute_ROL_def ac_Execute_ROR_def
      Let_def upd_zn upd_flag)

text \<open>Accesses of the CPU, with the number of bus accesses each makes.\<close>

lemma access_rules [step_rules]:
  "Q k s m \<Longrightarrow> k + 1 \<le> j \<Longrightarrow> rel_val (Q j) B s (ac_ReadByte a m)"
  "Q k s m \<Longrightarrow> k + 1 \<le> j \<Longrightarrow> rel_res (Q j) B s (ac_WriteByte v a m)"
  "Q k s m \<Longrightarrow> k + 1 \<le> j \<Longrightarrow> rel_val (Q j) B s (ac_Fetch m)"
  unfolding ac_ReadByte_def ac_WriteByte_def ac_Fetch_def
  by (rule step_rules | assumption | rule order.refl | linarith)+

lemma read_word_rule [step_rules]: "Q k s m \<Longrightarrow> k + 2 \<le> j \<Longrightarrow> rel_val (Q j) B s (mem_ReadWord a m)"
  unfolding mem_ReadWord_def
  by (rule step_rules | assumption | rule order.refl | linarith)+

lemma word_rules [step_rules]:
  "Q k s m \<Longrightarrow> k + 2 \<le> j \<Longrightarrow> rel_val (Q j) B s (ac_FetchWord m)"
  "Q k s m \<Longrightarrow> k + 2 \<le> j \<Longrightarrow> rel_val (Q j) B s (ac_ReadWord a m)"
  unfolding ac_FetchWord_def ac_ReadWord_def
  by (rule step_rules | assumption | rule order.refl | linarith)+

lemma stack_rules [step_rules]:
  "Q k s m \<Longrightarrow> k + 1 \<le> j \<Longrightarrow> rel_res (Q j) B s (ac_PushStackByte v m)"
  "Q k s m \<Longrightarrow> k + 2 \<le> j \<Longrightarrow> rel_res (Q j) B s (ac_PushStackWord w m)"
  "Q k s m \<Longrightarrow> k + 1 \<le> j \<Longrightarrow> rel_val (Q j) B s (ac_PopStackByte m)"
  "Q k s m \<Longrightarrow> k + 2 \<le> j \<Longrightarrow> rel_val (Q j) B s (ac_PopStackWord m)"
  unfolding ac_PushStackByte_def ac_PushStackWord_def ac_PopStackByte_def ac_PopStackWord_def Let_def
  by (rule step_rules | assumption | rule order.refl | linarith)+

text \<open>Readers: every addressing mode but the one that faults, immediate operands, and a mode followed by a load.\<close>

lemma keeps_modes [simp]:
  "keeps_rd 3 Q B ac_addr_mode_ZP" "keeps_rd 3 Q B ac_addr_mode_ZPX" "keeps_rd 3 Q B ac_addr_mode_ZPY"
  "keeps_rd 3 Q B ac_addr_mode_ABS" "keeps_rd 3 Q B ac_addr_mode_ABSX"
  "keeps_rd 3 Q B ac_addr_mode_ABSX_NoPage" "keeps_rd 3 Q B ac_addr_mode_ABSY"
  "keeps_rd 3 Q B ac_addr_mode_ABSY_NoPage" "keeps_rd 3 Q B ac_addr_mode_INDY" "keeps_rd 4 Q B ac_Fetch"
  unfolding keeps_rd_def ac_addr_mode_ZP_def ac_addr_mode_ZPX_def ac_addr_mode_ZPY_def ac_addr_mode_ABS_def
    ac_addr_mode_ABSX_def ac_addr_mode_ABSX_NoPage_def ac_addr_mode_ABSY_def
    ac_addr_mode_ABSY_NoPage_def ac_addr_mode_INDY_def
  by (intro allI impI, (rule step_rules | assumption | rule order.refl | linarith)+)+

lemma keeps_rd_rd [simp]:
  assumes "keeps_rd 3 Q B mode"
  shows "keeps_rd 4 Q B (rd mode)"
  unfolding keeps_rd_def [of 4] rd_def
  by (intro allI impI, (rule step_rules keeps_rdD [OF assms] | assumption | rule order.refl | linarith)+)

text \<open>Handlers that take a reader.\<close>

lemma keeps_readers [simp]:
  assumes "keeps_rd 4 Q B r"
  shows "keeps Q B (op_LDA r)" and "keeps Q B (op_LDX r)" and "keeps Q B (op_LDY r)"
    and "keeps Q B (op_AND r)" and "keeps Q B (op_ORA r)" and "keeps Q B (op_EOR r)"
    and "keeps Q B (op_BIT r)" and "keeps Q B (op_ADC r)" and "keeps Q B (op_SBC r)"
    and "keeps Q B (op_CMP r)" and "keeps Q B (op_CPX r)" and "keeps Q B (op_CPY r)"
  unfolding op_LDA_def op_LDX_def op_LDY_def op_AND_def op_ORA_def op_EOR_def op_BIT_def op_ADC_def
    op_SBC_def op_CMP_def op_CPX_def op_CPY_def Let_def
  by (rule keepsI, (rule step_rules keeps_rdD [OF assms] | assumption | rule order.refl | linarith)+)+

text \<open>Handlers that take an addressing mode.\<close>

lemma keeps_writers [simp]:
  assumes "keeps_rd 3 Q B mode"
  shows "keeps Q B (op_STA mode)" and "keeps Q B (op_STX mode)" and "keeps Q B (op_STY mode)"
    and "keeps Q B (op_INC mode)" and "keeps Q B (op_DEC mode)"
  unfolding op_STA_def op_STX_def op_STY_def op_INC_def op_DEC_def Let_def
  by (rule keepsI, (rule step_rules keeps_rdD [OF assms] | assumption | rule order.refl | linarith)+)+

lemma keeps_shift:
  assumes "keeps_rd 3 Q B mode" and "\<And>k s m v. Q k s m \<Longrightarrow> Q k s (snd (f v m))"
  shows "keeps Q B (op_shift f mode)"
  unfolding op_shift_def Let_def case_prod_beta [of _ "f _ _"]
  by (rule keepsI, (rule step_rules keeps_rdD [OF assms(1)] assms(2) | assumption | rule order.refl | linarith)+)

lemma keeps_shift_A:
  assumes "\<And>k s m v. Q k s m \<Longrightarrow> Q k s (snd (f v m))"
  shows "keeps Q B (op_shift_A f)"
  unfolding op_shift_A_def Let_def case_prod_beta [of _ "f _ _"]
  by (rule keepsI, (rule step_rules assms | assumption | rule order.refl | linarith)+)

text \<open>The remaining handlers.\<close>

lemma keeps_jumps [simp]:
  "keeps Q B op_STA_INDY" "keeps Q B op_JSR" "keeps Q B op_JMP_ABS" "keeps Q B op_JMP_IND"
  "keeps Q B op_RTS" "keeps Q B op_BRK" "keeps Q B op_RTI"
  unfolding op_STA_INDY_def op_JSR_def op_JMP_ABS_def op_JMP_IND_def op_RTS_def op_BRK_def
    op_RTI_def ac_addr_mode_ABS_def Let_def
  by (rule keepsI, (rule step_rules | assumption | rule order.refl | linarith)+)+

lemma keeps_stack [simp]:
  "keeps Q B op_TSX" "keeps Q B op_TXS" "keeps Q B op_PHA" "keeps Q B op_PLA" "keeps Q B op_PLP"
  "keeps Q B op_PHP" "keeps Q B op_NOP" "keeps Q B (op_flag f b)"
  unfolding op_TSX_def op_TXS_def op_PHA_def op_PLA_def op_PLP_def op_PHP_def op_NOP_def op_flag_def
    Let_def
  by (rule keepsI, (rule step_rules | assumption | rule order.refl | linarith)+)+

lemma keeps_registers [simp]:
  "keeps Q B op_TAX" "keeps Q B op_TAY" "keeps Q B op_TXA" "keeps Q B op_TYA"
  "keeps Q B op_INX" "keeps Q B op_INY" "keeps Q B op_DEX" "keeps Q B op_DEY"
  unfolding op_TAX_def op_TAY_def op_TXA_def op_TYA_def op_INX_def op_INY_def op_DEX_def op_DEY_def
    Let_def
  by (rule keepsI, (rule step_rules | assumption | rule order.refl | linarith)+)+

lemma keeps_branch [simp]: "keeps Q B (op_branch f c)"
  unfolding op_branch_def ac_Execute_BRANCH_def if_distrib [of Some]
  by (rule keepsI, (rule step_rules | assumption | rule order.refl | linarith)+)

lemma keeps_table: "(inst, h) \<in> set opcode_table \<Longrightarrow> inst \<notin> set indx_opcodes \<Longrightarrow> keeps Q B h"
proof -
  have "list_all (\<lambda>(inst, h). inst \<in> set indx_opcodes \<or> keeps Q B h) g" if "g \<in> set case_groups" for g
    using that by (auto simp: case_groups_def case_defs upd_shifts keeps_shift keeps_shift_A indx_opcodes_def)
  then show "(inst, h) \<in> set opcode_table \<Longrightarrow> inst \<notin> set indx_opcodes \<Longrightarrow> keeps Q B h"
    by (force simp: opcode_table_def list_all_iff)
qed

theorem keeps_dispatch: "inst \<notin> set indx_opcodes \<Longrightarrow> keeps Q B (dispatch inst)"
proof (cases "map_of opcode_table inst")
  case None
  then show ?thesis by (intro keepsI) (auto simp: dispatch_def intro: leaf_rules)
next
  case (Some h)
  assume "inst \<notin> set indx_opcodes"
  with Some have "keeps Q B h" by (intro keeps_table map_of_SomeD)
  with Some show ?thesis by (simp add: keeps_def dispatch_def)
qed

theorem keeps_step:
  assumes "Q 0 m m" and "\<not> at_indx m"
  shows "rel_res (Q 6) B m (ac_step m)"
proof -
  have f: "rel_val (Q 1) B m (ac_Fetch m)" using access_rules(3) [OF assms(1)] by simp
  show ?thesis
  proof (cases "ac_Fetch m")
    case None
    with f Q_mono [of 1 m _ 6] show ?thesis by (auto simp: ac_step_def rel_res_def rel_val_def)
  next
    case (Some x)
    then obtain inst m1 where x: "ac_Fetch m = Some (inst, m1)" by (cases x) auto
    then have "inst \<notin> set indx_opcodes" "Q 1 m m1" using assms(2) f by (auto simp: at_indx_def rel_val_def)
    with keeps_dispatch [of inst] have "rel_res (Q 6) B m (dispatch inst m1)" unfolding keeps_def by fastforce
    with x show ?thesis by (simp add: ac_step_def)
  qed
qed

end

subsection \<open>Whole runs\<close>

lemma loop_keeps:
  assumes "\<And>m m'. P m \<Longrightarrow> ac_step m = Some m' \<Longrightarrow> P m'" and "ac_Run_loop m = Some r"
  shows "P m \<Longrightarrow> pred_option P r"
proof (rule ac_Run_loop.raw_induct [where P = "\<lambda>m r. P m \<longrightarrow> pred_option P r", OF _ assms(2), rule_format])
  fix run m r
  assume IH: "\<And>m r. run m = Some r \<Longrightarrow> P m \<Longrightarrow> pred_option P r" and "P m"
    and "(if cycle (cpu m) > 0
      then case ac_step m of
          None \<Rightarrow> Some None
        | Some m' \<Rightarrow> if cycle (cpu m) < cycle (cpu m') then Some (Some m') else run m'
      else Some (Some m)) = Some r"
  then show "pred_option P r" using assms(1) [of m] by (cases "ac_step m"; cases r) (auto split: if_splits dest!: IH)
qed

text \<open>A run that faults has come to an instruction that faults.\<close>

lemma loop_faults:
  assumes "\<And>m m'. P m \<Longrightarrow> ac_step m = Some m' \<Longrightarrow> P m'" and "ac_Run_loop m = Some r"
  shows "P m \<Longrightarrow> r = None \<Longrightarrow> \<exists>m'. P m' \<and> ac_step m' = None"
proof (rule ac_Run_loop.raw_induct [where P = "\<lambda>m r. P m \<longrightarrow> r = None \<longrightarrow> (\<exists>m'. P m' \<and> ac_step m' = None)", OF _ assms(2), rule_format])
  fix run m r
  assume IH: "\<And>m r. run m = Some r \<Longrightarrow> P m \<Longrightarrow> r = None \<Longrightarrow> \<exists>m'. P m' \<and> ac_step m' = None" and P: "P m" "r = None"
    and eq: "(if cycle (cpu m) > 0
      then case ac_step m of
          None \<Rightarrow> Some None
        | Some m' \<Rightarrow> if cycle (cpu m) < cycle (cpu m') then Some (Some m') else run m'
      else Some (Some m)) = Some r"
  show "\<exists>m'. P m' \<and> ac_step m' = None"
  proof (cases "ac_step m")
    case (Some m')
    with eq P(2) have "run m' = Some r" by (auto split: if_splits)
    with IH assms(1) [OF P(1) Some] P(2) show ?thesis by blast
  qed (use P in blast)
qed

locale bus_contract =
  fixes Q :: "machine \<Rightarrow> machine \<Rightarrow> bool"
  assumes Q_refl: "Q m m"
    and Q_trans: "Q m m1 \<Longrightarrow> Q m1 m2 \<Longrightarrow> Q m m2"
    and Q_cpu: "cpu_tick c = cpu_tick (cpu m) \<Longrightarrow> Q m (m\<lparr>cpu := c\<rparr>)"
    and Q_read: "mem_ReadByte a m = Some (v, m') \<Longrightarrow> Q m m'"
    and Q_write: "mem_WriteByte a v m = Some m' \<Longrightarrow> Q m m'"
begin

sublocale ungraded: bus_graded "\<lambda>_. Q" "\<lambda>_. True"
proof
  fix s m a v c
  assume q: "Q s m"
  show "rel_val Q (\<lambda>_. True) s (mem_ReadByte a m)"
    using q Q_trans Q_read by (auto simp: rel_val_def split: option.split)
  show "rel_res Q (\<lambda>_. True) s (mem_WriteByte a v m)"
    using q Q_trans Q_write by (auto simp: rel_res_def split: option.split)
  show "Q s (m\<lparr>cpu := c\<rparr>)" if "cpu_tick c = cpu_tick (cpu m)"
    using Q_trans [OF q Q_cpu [OF that]] .
qed

lemma keeps_ac_step: "ac_step m = Some m' \<Longrightarrow> Q m m'"
  using ungraded.keeps_step [OF Q_refl, of m] at_indx_faults [of m] by (auto simp: rel_res_def)

theorem keeps_run:
  assumes "ac_Run n m = Some (Some m')"
  shows "Q m m'"
proof -
  have "pred_option (Q m) (Some m')"
    using assms Q_cpu unfolding ac_Run_def by (intro loop_keeps [of "Q m"]) (auto intro: Q_trans keeps_ac_step)
  then show ?thesis by simp
qed

end

end
