(* ===== verification/Apple_Demo.thy ===== *)
theory Apple_Demo
  imports Apple_Instr
begin

text \<open>
  Small programs for the emulated machine and the lemmas that run them, one instruction at a time.
\<close>

definition program :: "u8 list \<Rightarrow> machine" where
  "program code = machine_image\<lparr>
     mem := mem_image\<lparr>LCWritable := False, ram := (\<lambda>i. if i < length code then code ! i else 0xEA)\<rparr>\<rparr>"

lemma run_next:
  assumes "ac_step m = Some m'" and "0 < cycle (cpu m)" and "\<not> cycle (cpu m) < cycle (cpu m')"
  shows "ac_Run_loop m = ac_Run_loop m'"
  by (subst ac_Run_loop.simps) (simp add: assms)

lemma run_wrap:
  assumes "ac_step m = Some m'" and "0 < cycle (cpu m)" and "cycle (cpu m) < cycle (cpu m')"
  shows "ac_Run_loop m = Some (Some m')"
  by (subst ac_Run_loop.simps) (simp add: assms)

lemma run_done: "cycle (cpu m) = 0 \<Longrightarrow> ac_Run_loop m = Some (Some m)"
  by (subst ac_Run_loop.simps) simp

lemma run_fault: "ac_step m = None \<Longrightarrow> 0 < cycle (cpu m) \<Longrightarrow> ac_Run_loop m = Some None"
  by (subst ac_Run_loop.simps) simp

lemma demo_dispatch:
  "dispatch NOP = op_NOP" "dispatch STA_ABS = op_STA ac_addr_mode_ABS" "dispatch LDA_ABS = op_LDA (rd ac_addr_mode_ABS)"
  "dispatch JMP_ABS = op_JMP_ABS" "dispatch BCC = op_branch fC False"
  by (rule ext, simp add: dispatch_def table_defs)+

lemmas demo_defs = program_def mem_image_def size_defs ac_step_def ac_Fetch_def demo_dispatch
  ac_FetchWord_def ac_addr_mode_ABS_def mk_word_def spend_def

lemma demo_cpu: "cpu (program code) = cpu machine_image"
  by (simp add: program_def)

text \<open>\<^verbatim>\<open>STA $D000\<close> then \<^verbatim>\<open>NOP\<close>, with the language card write-protected.\<close>

lemma store_rom_run:
  "ac_Run 3 (program [STA_ABS, 0x00, 0xD0]) =
     Some (Some (program [STA_ABS, 0x00, 0xD0]\<lparr>cpu := cpu machine_image\<lparr>PC := 4\<rparr>\<rparr>))"
proof -
  let ?m = "\<lambda>pc c. program [STA_ABS, 0x00, 0xD0]\<lparr>cpu := cpu machine_image\<lparr>PC := pc, cycle := c\<rparr>\<rparr>"
  have 1: "ac_step (?m 0 3) = Some (?m 3 1)"
    by (simp add: demo_defs op_STA_def ac_WriteByte_def mem_WriteByte_def)
  have 2: "ac_step (?m 3 1) = Some (?m 4 0)"
    by (simp add: demo_defs op_NOP_def)
  show ?thesis
    using run_next [OF 1] run_next [OF 2] run_done [of "?m 4 0"]
    by (simp add: ac_Run_def demo_cpu)
qed

text \<open>\<^verbatim>\<open>LDA $C0EC\<close> with the head of the selected drive on track 35.\<close>

definition past_end :: machine where
  "past_end = program [LDA_ABS, 0xEC, 0xC0]
     \<lparr>dev := dev_image\<lparr>disk := (\<lambda>_. zero_drive\<lparr>track := 35\<rparr>)\<rparr>\<rparr>"

lemma past_end_run: "ac_Run n past_end = Some None" if "0 < n"
proof -
  have "ac_step (past_end\<lparr>cpu := cpu past_end\<lparr>cycle := n\<rparr>\<rparr>) = None"
    by (simp add: past_end_def demo_defs op_LDA_def rd_def ac_ReadByte_def mem_ReadByte_def with_val_def
        ad_SoftSwitch_None bind_eq_None_conv head_index_def cur_def dev_image_def zero_drive_def DISKSIZE_def)
  then show ?thesis using that by (simp add: ac_Run_def run_fault)
qed
text \<open>\<^verbatim>\<open>JMP\<close> to itself spends two cycles a turn, \<^verbatim>\<open>BCC\<close> to itself none.\<close>

lemma jmp_step:
  "ac_step (program [JMP_ABS, 0x00, 0x00]\<lparr>cpu := cpu machine_image\<lparr>cycle := n\<rparr>\<rparr>) =
   Some (program [JMP_ABS, 0x00, 0x00]\<lparr>cpu := cpu machine_image\<lparr>cycle := n - 2\<rparr>\<rparr>)"
  by (simp add: demo_defs op_JMP_ABS_def)

lemma bcc_step:
  "ac_step (program [BCC, 0xFE]\<lparr>cpu := cpu machine_image\<lparr>cycle := n\<rparr>\<rparr>) =
   Some (program [BCC, 0xFE]\<lparr>cpu := cpu machine_image\<lparr>cycle := n\<rparr>\<rparr>)"
  by (simp add: demo_defs op_branch_def ac_Execute_BRANCH_def flag_def)
end
