(* ===== verification/Apple_Address.thy ===== *)
theory Apple_Address
  imports Apple_Bus Apple_Demo
begin

text \<open>
  The addressing modes of \<^verbatim>\<open>AppleCpu.c\<close> against a reference: the effective address as a natural number, computed
  from the operand bytes in memory, the index registers and, for \<^verbatim>\<open>($zp),Y\<close>, a pointer in page 0.  The mode \<^verbatim>\<open>($zp,X)\<close> is a fault of the code and has no reference.
\<close>

subsection \<open>The reference\<close>

datatype mode = Zero_Page | Zero_Page_X | Zero_Page_Y | Absolute | Absolute_X | Absolute_X_NoPage
  | Absolute_Y | Absolute_Y_NoPage | Indirect_Y

text \<open>The byte and the little-endian word at an address below the ROM.\<close>

definition peek :: "machine \<Rightarrow> nat \<Rightarrow> nat" where
  "peek m a = unat (ram (mem m) a)"

definition peek_word :: "machine \<Rightarrow> nat \<Rightarrow> nat" where
  "peek_word m a = peek m a + 256 * peek m (a + 1)"

definition effective :: "mode \<Rightarrow> machine \<Rightarrow> nat" where
  "effective md m =
     (let pc = unat (PC (cpu m)); b = peek m pc; w = peek_word m pc; x = unat (X (cpu m)); y = unat (Y (cpu m))
      in case md of
           Zero_Page \<Rightarrow> b
         | Zero_Page_X \<Rightarrow> (b + x) mod 256
         | Zero_Page_Y \<Rightarrow> (b + y) mod 256
         | Absolute \<Rightarrow> w
         | Absolute_X \<Rightarrow> (w + x) mod 65536
         | Absolute_X_NoPage \<Rightarrow> (w + x) mod 65536
         | Absolute_Y \<Rightarrow> (w + y) mod 65536
         | Absolute_Y_NoPage \<Rightarrow> (w + y) mod 65536
         | Indirect_Y \<Rightarrow> (peek_word m b + y) mod 65536)"

text \<open>Operand bytes and cycles of each mode.\<close>

definition operand_bytes :: "mode \<Rightarrow> nat" where
  "operand_bytes md = (if md \<in> {Zero_Page, Zero_Page_X, Zero_Page_Y, Indirect_Y} then 1 else 2)"

definition mode_cycles :: "mode \<Rightarrow> u32" where
  "mode_cycles md = (if md \<in> {Absolute, Absolute_X_NoPage, Absolute_Y_NoPage} then 2 else 0)"

definition addressing :: "mode \<Rightarrow> amode" where
  "addressing md = (case md of
       Zero_Page \<Rightarrow> ac_addr_mode_ZP | Zero_Page_X \<Rightarrow> ac_addr_mode_ZPX | Zero_Page_Y \<Rightarrow> ac_addr_mode_ZPY
     | Absolute \<Rightarrow> ac_addr_mode_ABS | Absolute_X \<Rightarrow> ac_addr_mode_ABSX | Absolute_X_NoPage \<Rightarrow> ac_addr_mode_ABSX_NoPage
     | Absolute_Y \<Rightarrow> ac_addr_mode_ABSY | Absolute_Y_NoPage \<Rightarrow> ac_addr_mode_ABSY_NoPage
     | Indirect_Y \<Rightarrow> ac_addr_mode_INDY)"

subsection \<open>Words and numbers\<close>

lemma mk_word_unat: "unat (mk_word lo hi) = unat lo + 256 * unat hi"
proof -
  have "ucast lo AND (push_bit 8 (ucast hi) :: u16) = 0"
    by (rule bit_eqI) (auto simp: bit_simps dest: bit_imp_le_length)
  then have "mk_word lo hi = ucast lo + push_bit 8 (ucast hi)"
    by (simp add: mk_word_def disjunctive_add_eq_or)
  moreover have "unat lo + 256 * unat hi < 65536" using unat_u8_lt [of lo] unat_u8_lt [of hi] by linarith
  moreover have "unat (push_bit 8 (ucast hi) :: u16) = 256 * unat hi"
    using unat_u8_lt [of hi] by (simp add: push_bit_eq_mult unat_word_ariths del: unat_u8_lt)
  ultimately show ?thesis by (simp add: unat_word_ariths)
qed

lemma index_unat: "unat (w + ucast i) = (unat w + unat i) mod 65536" for w :: u16 and i :: u8
  by (simp add: unat_word_ariths)

lemma next_pc: "unat a + 1 < RAMSIZE \<Longrightarrow> unat (a + 1) = unat a + 1" for a :: u16
  by (simp add: unat_word_ariths size_defs)

lemma zero_page_next: "unat (ucast b + 1 :: u16) = unat b + 1" for b :: u8
  using unat_u8_lt [of b] by (simp add: unat_word_ariths del: unat_u8_lt)

lemma zero_page_ram: "unat b < RAMSIZE" "Suc (unat b) < RAMSIZE" "n mod 256 < RAMSIZE" "Suc (n mod 256) < RAMSIZE"
  for b :: u8
proof -
  have "unat b < 256" "n mod 256 < 256" by simp_all
  then show "unat b < RAMSIZE" "Suc (unat b) < RAMSIZE" "n mod 256 < RAMSIZE" "Suc (n mod 256) < RAMSIZE"
    unfolding size_defs by linarith+
qed

lemmas mode_defs = ac_addr_mode_ZP_def ac_addr_mode_ZPX_def ac_addr_mode_ZPY_def ac_addr_mode_ABS_def
  ac_addr_mode_ABSX_def ac_addr_mode_ABSX_NoPage_def ac_addr_mode_ABSY_def ac_addr_mode_ABSY_NoPage_def
  ac_addr_mode_INDY_def ac_Fetch_def ac_FetchWord_def ac_ReadByte_def ac_ReadWord_def
  mem_ReadWord_def spend_def

subsection \<open>Properties\<close>

text \<open>
  C21. Every addressing mode but one computes the effective address of the 6502 from its operand in RAM: indexing in page 0
  wraps inside the page, absolute indexing wraps at 64K, the pointer of the indirect mode is little-endian; it moves
  the program counter over its operand and touches nothing else but the budget.  The pointer of \<^verbatim>\<open>($zp),Y\<close> diverges in one
  point: its high byte is read behind its low byte even across the end of page 0.  The mode \<^verbatim>\<open>($zp,X)\<close> never ends well:
  it stores through a pointer that no longer points to the budget.
\<close>

theorem addressing_effective:
  assumes "unat (PC (cpu m)) + 1 < RAMSIZE"
  shows "(\<exists>a. addressing md m = Some (a, m\<lparr>cpu := (cpu m)\<lparr>PC := PC (cpu m) + of_nat (operand_bytes md),
      cycle := cycle (cpu m) - mode_cycles md\<rparr>\<rparr>) \<and> unat a = effective md m) \<and> ac_addr_mode_INDX m = None"
proof -
  note pc = next_pc [OF assms]
  have r: "unat (PC (cpu m)) < RAMSIZE" "unat (PC (cpu m) + 1) < RAMSIZE" using assms pc by simp_all
  show ?thesis
    using r assms by (cases md) (simp_all add: addressing_def mode_defs effective_def operand_bytes_def mode_cycles_def Let_def
      peek_def peek_word_def mk_word_unat index_unat pc zero_page_next zero_page_ram unat_word_ariths(1) [where 'a = 8])
qed

text \<open>\<^verbatim>\<open>LDA ($FF),Y\<close> takes the high byte from \<^verbatim>\<open>$0100\<close>.\<close>

theorem addressing_effective_witness:
  "\<exists>a. addressing Indirect_Y (program [0xFF]) = Some (a, (program [0xFF])\<lparr>cpu := (cpu machine_image)\<lparr>PC := 1\<rparr>\<rparr>) \<and>
     unat a = peek (program [0xFF]) 0xFF + 256 * peek (program [0xFF]) 0x100"
proof -
  have "effective Indirect_Y (program [0xFF]) = peek (program [0xFF]) 0xFF + 256 * peek (program [0xFF]) 0x100"
    by (simp add: effective_def peek_word_def peek_def program_def Let_def)
  then show ?thesis
    using addressing_effective [of "program [0xFF]" Indirect_Y]
    by (simp add: demo_cpu size_defs operand_bytes_def mode_cycles_def)
qed

end
