(* ===== verification/Apple_Safety.thy ===== *)
theory Apple_Safety
  imports Apple_Bus Apple_Demo
begin

text \<open>
  Interpretations of the bus contract: what no emulated program can do.  ROM and the disk PROM are
  never written, \<^verbatim>\<open>cpu_tick\<close> never changes, the drive stays in its invariant, its head moves by at most half a track
  per access, and an instruction faults only when it is one of the eight that cannot be executed or when the head is near
  the end of the image.
\<close>

subsection \<open>Read-only memory\<close>

definition same_rom :: "machine \<Rightarrow> machine \<Rightarrow> bool" where
  "same_rom m m' \<longleftrightarrow> rom (mem m') = rom (mem m) \<and> sl6 (mem m') = sl6 (mem m)"

lemma same_rom_read: "mem_ReadByte a m = Some (v, m') \<Longrightarrow> same_rom m m'"
  by (rule bus_read_via_switch [of same_rom m a]) (auto simp: same_rom_def ad_SoftSwitch_frame)

lemma same_rom_write: "mem_WriteByte a v m = Some m' \<Longrightarrow> same_rom m m'"
  by (rule bus_write_via_switch [of same_rom m a]) (auto simp: same_rom_def ad_SoftSwitch_frame)

interpretation romc: bus_contract same_rom
  by unfold_locales (simp add: same_rom_def, simp add: same_rom_def, simp add: same_rom_def, erule same_rom_read, erule same_rom_write)

subsection \<open>The tick counter\<close>

definition same_tick :: "machine \<Rightarrow> machine \<Rightarrow> bool" where
  "same_tick m m' \<longleftrightarrow> cpu_tick (cpu m') = cpu_tick (cpu m)"

interpretation tick: bus_contract same_tick
  by unfold_locales (auto simp: same_tick_def dest: mem_ReadByte_cpu mem_WriteByte_cpu)

subsection \<open>The drive\<close>

definition keeps_drive :: "machine \<Rightarrow> machine \<Rightarrow> bool" where
  "keeps_drive m m' \<longleftrightarrow> (drive_ok (dev m) \<longrightarrow> drive_ok (dev m'))"

lemma keeps_drive_read: "mem_ReadByte a m = Some (v, m') \<Longrightarrow> keeps_drive m m'"
  by (rule bus_read_via_switch [of keeps_drive m a])
     (auto simp: keeps_drive_def ad_SoftSwitch_drive_ok)

lemma keeps_drive_write: "mem_WriteByte a v m = Some m' \<Longrightarrow> keeps_drive m m'"
  by (rule bus_write_via_switch [of keeps_drive m a])
     (auto simp: keeps_drive_def ad_SoftSwitch_drive_ok)

interpretation drv: bus_contract keeps_drive
  by unfold_locales (simp add: keeps_drive_def, simp add: keeps_drive_def, simp add: keeps_drive_def, erule keeps_drive_read, erule keeps_drive_write)

subsection \<open>Paddles\<close>

text \<open>The countdown of a started paddle, with the tick counter at the value it always has.\<close>

definition paddle_armed :: "machine \<Rightarrow> bool" where
  "paddle_armed m \<longleftrightarrow> cpu_tick (cpu m) = 0 \<and> GCCrigger (dev m) = 0 \<and>
     (\<forall>p < 2. GCP (dev m) p = 127 \<and> GCC (dev m) p = 16129)"

definition keeps_armed :: "machine \<Rightarrow> machine \<Rightarrow> bool" where
  "keeps_armed m m' \<longleftrightarrow> (paddle_armed m \<longrightarrow> paddle_armed m')"

definition armed_demo :: machine where
  "armed_demo = program []\<lparr>dev := ad_resetPaddles 0 (ad_Reset dev_image)\<rparr>"

lemma f32_countdown [simp]: "f32 16129 = 16129"
  by code_simp

lemma disk_paddles:
  assumes "disk_switch a v d = Some (r, d')"
  shows "GCP d' = GCP d" and "GCC d' = GCC d" and "GCCrigger d' = GCCrigger d"
  using assms
  by (auto simp: disk_switch_def disk_shift_def ad_stepMotor_def shift_phases_def ad_setDrv_def
      upd_cur_def Let_def bind_eq_Some_conv split: if_splits)

lemma read_armed_paddle:
  assumes "GCCrigger d = 0" and "GCC d p = 16129"
  shows "ad_readPaddle 0 p d = (0x80, d\<lparr>GCC := (GCC d)(p := 16129)\<rparr>)"
  using assms by (simp add: ad_readPaddle_def Let_def)

lemma armed_frame [simp]:
  "paddle_armed (m\<lparr>mem := x\<rparr>) = paddle_armed m"
  "cpu_tick c = cpu_tick (cpu m) \<Longrightarrow> paddle_armed (m\<lparr>cpu := c\<rparr>) = paddle_armed m"
  by (simp_all add: paddle_armed_def)

lemma armed_devices [simp]:
  "paddle_armed (m\<lparr>dev := dev m\<lparr>keyboard := k\<rparr>\<rparr>) = paddle_armed m"
  "paddle_armed (m\<lparr>dev := video_switch a (dev m)\<rparr>) = paddle_armed m"
  "paddle_armed m \<Longrightarrow> paddle_armed (m\<lparr>dev := ad_resetPaddles (cpu_tick (cpu m)) (dev m)\<rparr>)"
  by (auto simp: paddle_armed_def video_switch_def ad_resetPaddles_def less_2_cases_iff)

lemma armed_disk:
  "disk_switch a v (dev m) = Some (r, d) \<Longrightarrow> paddle_armed (m\<lparr>dev := d\<rparr>) = paddle_armed m"
  using disk_paddles [of a v "dev m" r d] by (simp add: paddle_armed_def)

lemma armed_read:
  assumes "paddle_armed m" and "p < 2"
  obtains d where "ad_readPaddle (cpu_tick (cpu m)) p (dev m) = (0x80, d)" and "paddle_armed (m\<lparr>dev := d\<rparr>)"
  using that [of "dev m\<lparr>GCC := (GCC (dev m))(p := 16129)\<rparr>"] assms
  by (simp add: paddle_armed_def read_armed_paddle)

lemma armed_switch:
  assumes "ad_SoftSwitch a v w m = Some (r, m')" and armed: "paddle_armed m"
  shows "paddle_armed m'"
  using assms(1)
proof (cases rule: ad_SoftSwitch_cases)
  case (paddle p)
  obtain d where "ad_readPaddle (cpu_tick (cpu m)) p (dev m) = (0x80, d)" "paddle_armed (m\<lparr>dev := d\<rparr>)"
    using armed paddle(1) by (rule armed_read)
  with paddle show ?thesis by simp
qed (use armed armed_disk in auto)

lemma keeps_armed_read: "mem_ReadByte a m = Some (v, m') \<Longrightarrow> keeps_armed m m'"
  by (rule bus_read_via_switch [of keeps_armed m a]) (auto simp: keeps_armed_def armed_switch)

lemma keeps_armed_write: "mem_WriteByte a v m = Some m' \<Longrightarrow> keeps_armed m m'"
  by (rule bus_write_via_switch [of keeps_armed m a]) (auto simp: keeps_armed_def armed_switch)

interpretation pdl: bus_contract keeps_armed
  by unfold_locales (simp add: keeps_armed_def, simp add: keeps_armed_def, simp add: keeps_armed_def, erule keeps_armed_read, erule keeps_armed_write)

subsection \<open>The head of a drive\<close>

text \<open>The track under the head of drive \<open>c\<close>, or the one its half-track counter asks for if that is larger; and the
  grade of an access: \<open>k\<close> accesses move a head by at most \<open>k\<close> tracks.\<close>

definition head_track :: "dev_state \<Rightarrow> nat \<Rightarrow> nat" where
  "head_track d c = max (unat (track (disk d c))) (nat ((halfTrackPos d c + 1) div 2))"

definition head_moves :: "nat \<Rightarrow> machine \<Rightarrow> machine \<Rightarrow> bool" where
  "head_moves k m m' \<longleftrightarrow> (drive_ok (dev m) \<longrightarrow>
     drive_ok (dev m') \<and> (\<forall>c < 2. head_track (dev m') c \<le> head_track (dev m) c + k))"

definition past_image :: "machine \<Rightarrow> bool" where
  "past_image m \<longleftrightarrow> DISKSIZE \<le> head_index (cur (dev m))"

lemma stepper_head_track:
  assumes "drive_ok d" and "c < 2"
  shows "head_track (ad_stepMotor a d) c \<le> head_track d c + 1"
proof (cases "bit a 0 \<and> c = currentDrive d")
  case False
  then show ?thesis by (auto simp: ad_stepMotor_def head_track_def upd_cur_def Let_def)
next
  case True
  let ?d = "ad_stepMotor a d"
  have h: "0 \<le> halfTrackPos d c" "halfTrackPos d c \<le> 140" using assms by (simp_all add: drive_ok_def)
  have h': "halfTrackPos ?d c \<le> halfTrackPos d c + 1" "0 \<le> halfTrackPos ?d c" "halfTrackPos ?d c \<le> 140"
    using stepMotor_head(2) [of a d] True move_head_range [OF h] h by (auto simp: move_head_def Let_def)
  have "unat (track (disk ?d c)) = nat ((halfTrackPos ?d c + 1) div 2)"
    using stepMotor_head(3) [of a d] True h' by (simp add: cur_def unsigned_of_int take_bit_eq_mod)
  then show ?thesis using h' h unfolding head_track_def by linarith
qed

lemma head_track_cong: "disk d' = disk d \<Longrightarrow> halfTrackPos d' = halfTrackPos d \<Longrightarrow> head_track d' = head_track d"
  by (simp add: fun_eq_iff head_track_def)

lemma head_track_latch [simp]: "head_track (d\<lparr>dLatch := v\<rparr>) = head_track d"
  by (simp add: fun_eq_iff head_track_def)

lemma head_track_setDrv: "drv < 2 \<Longrightarrow> head_track (ad_setDrv drv d) = head_track d"
  by (auto simp: fun_eq_iff head_track_def ad_setDrv_def Let_def)

lemma head_track_cur: "track (f (cur d)) = track (cur d) \<Longrightarrow> head_track (upd_cur f d) = head_track d"
  by (auto simp: fun_eq_iff head_track_def upd_cur_def cur_def)

lemma head_track_shift: "disk_shift d = Some (v, d') \<Longrightarrow> head_track d' = head_track d"
  by (auto simp: disk_shift_def Let_def bind_eq_Some_conv head_track_cur split: if_splits)

lemma disk_head_track:
  assumes "drive_ok d" and "disk_switch a v d = Some (r, d')" and "c < 2"
  shows "head_track d' c \<le> head_track d c + 1"
proof (cases "0xC0E0 \<le> a \<and> a \<le> 0xC0E7")
  case True
  then show ?thesis using assms(2) stepper_head_track [OF assms(1,3), of a] by (simp add: disk_switch_def)
next
  case False
  then have "head_track d' = head_track d"
    using assms(2) unfolding disk_switch_def if_not_P [OF False]
    by (auto simp: head_track_cur head_track_setDrv head_track_shift Let_def bind_eq_Some_conv split: if_splits
        intro: head_track_cong)
  then show ?thesis by simp
qed

lemma paddle_drives:
  assumes "ad_readPaddle t p d = (v, d')"
  shows "disk d' = disk d" "halfTrackPos d' = halfTrackPos d"
  using assms by (auto simp: ad_readPaddle_def Let_def split: if_splits)

lemma head_track_paddle [simp]: "head_track (snd (ad_readPaddle t p d)) = head_track d"
  using paddle_drives [OF prod.collapse [symmetric], of t p d] by (rule head_track_cong)

lemma head_track_other [simp]:
  "head_track (video_switch a d) = head_track d" "head_track (ad_resetPaddles t d) = head_track d"
  "head_track (d\<lparr>keyboard := k\<rparr>) = head_track d"
  by (rule head_track_cong; simp add: video_switch_def ad_resetPaddles_def)+

lemma head_switch:
  assumes "ad_SoftSwitch a v w m = Some (r, m')" and "drive_ok (dev m)" and "c < 2"
  shows "head_track (dev m') c \<le> head_track (dev m) c + 1"
  using assms(1)
proof (cases rule: ad_SoftSwitch_cases)
  case (disk x d)
  with disk_head_track [OF assms(2) _ assms(3)] show ?thesis by simp
qed simp_all

lemma head_read:
  "mem_ReadByte a m = Some (v, m') \<Longrightarrow> drive_ok (dev m) \<longrightarrow> (\<forall>c < 2. head_track (dev m') c \<le> head_track (dev m) c + 1)"
  by (rule bus_read_via_switch [where Q = "\<lambda>m m'. drive_ok (dev m) \<longrightarrow> (\<forall>c < 2. head_track (dev m') c \<le> head_track (dev m) c + 1)"])
     (auto dest: head_switch)

lemma head_write:
  "mem_WriteByte a v m = Some m' \<Longrightarrow> drive_ok (dev m) \<longrightarrow> (\<forall>c < 2. head_track (dev m') c \<le> head_track (dev m) c + 1)"
  by (rule bus_write_via_switch [where Q = "\<lambda>m m'. drive_ok (dev m) \<longrightarrow> (\<forall>c < 2. head_track (dev m') c \<le> head_track (dev m) c + 1)"])
     (auto dest: head_switch)

lemma head_moves_access:
  assumes "head_moves k s m" and "keeps_drive m m'"
    and "drive_ok (dev m) \<longrightarrow> (\<forall>c < 2. head_track (dev m') c \<le> head_track (dev m) c + 1)"
  shows "head_moves (k + 1) s m'"
  using assms unfolding head_moves_def keeps_drive_def by (auto intro: order.trans)

interpretation heads: bus_graded head_moves past_image
proof
  fix k s m a v
  assume h: "head_moves k s m"
  then have h1: "head_moves (k + 1) s m" by (auto simp: head_moves_def)
  show "rel_val (head_moves (k + 1)) past_image s (mem_ReadByte a m)"
    using head_moves_access [OF h keeps_drive_read head_read] h1 mem_ReadByte_None [of a m]
    by (auto simp: rel_val_def past_image_def split: option.split)
  show "rel_res (head_moves (k + 1)) past_image s (mem_WriteByte a v m)"
    using head_moves_access [OF h keeps_drive_write head_write] h1 mem_WriteByte_None [of a v m]
    by (auto simp: rel_res_def past_image_def split: option.split)
qed (auto simp: head_moves_def intro: order.trans)

text \<open>Why an instruction faults.\<close>

lemma step_fault_cause:
  assumes "drive_ok (dev m)" and "ac_step m = None"
  shows "at_indx m \<or> (\<exists>c < 2. 29 \<le> head_track (dev m) c)"
proof (cases "at_indx m")
  case False
  have "head_moves 0 m m" by (simp add: head_moves_def)
  then obtain t where t: "head_moves 6 m t" "past_image t"
    using heads.keeps_step [OF _ False] assms(2) by (auto simp: rel_res_def)
  then have ok: "drive_ok (dev t)" "\<forall>c < 2. head_track (dev t) c \<le> head_track (dev m) c + 6"
    using assms(1) by (simp_all add: head_moves_def)
  have "35 \<le> unat (track (cur (dev t)))"
    using t(2) head_index_in_image drive_ok_cur [OF ok(1)] by (metis past_image_def linorder_not_less)
  then have "35 \<le> head_track (dev t) (currentDrive (dev t))" by (simp add: head_track_def cur_def)
  moreover have "currentDrive (dev t) < 2" using ok(1) by (simp add: drive_ok_def)
  ultimately show ?thesis using ok(2) by fastforce
qed simp

subsection \<open>The language card\<close>

definition lc_odd :: "u16 \<Rightarrow> bool" where
  "lc_odd a \<longleftrightarrow> a \<in> {0xC081, 0xC083, 0xC085, 0xC087, 0xC089, 0xC08B, 0xC08D, 0xC08F}"

lemma lc_switch_flags:
  "LCWritable (lc_switch a w s) \<Longrightarrow> LCWritable s \<or> LCPreWriteFlipflop s \<and> lc_odd a"
  "LCPreWriteFlipflop (lc_switch a w s) \<Longrightarrow> lc_odd a \<and> \<not> w \<or> LCPreWriteFlipflop s"
  by (auto simp: lc_switch_def lc_odd_def split: if_splits)

lemma soft_switch_lc:
  assumes "ad_SoftSwitch a v w m = Some (r, m')"
  shows "LCWritable (mem m') \<Longrightarrow> LCWritable (mem m) \<or> LCPreWriteFlipflop (mem m) \<and> lc_odd a"
    and "LCPreWriteFlipflop (mem m') \<Longrightarrow> LCPreWriteFlipflop (mem m) \<or> lc_odd a \<and> \<not> w"
  using assms lc_switch_flags [of a w "mem m"]
  by (auto simp: ad_SoftSwitch_def Let_def bind_eq_Some_conv split: if_splits prod.splits)

subsection \<open>Walking the head off the image\<close>

fun bus_reads :: "u16 list \<Rightarrow> machine \<Rightarrow> machine option" where
  "bus_reads [] m = Some m"
| "bus_reads (a # as) m = do { (_, m) \<leftarrow> mem_ReadByte a m; bus_reads as m }"

lemma read_stepper:
  "mem_ReadByte 0xC0E1 m = Some (tick_byte m, m\<lparr>dev := ad_stepMotor 0xC0E1 (dev m)\<rparr>)"
  "mem_ReadByte 0xC0E3 m = Some (tick_byte m, m\<lparr>dev := ad_stepMotor 0xC0E3 (dev m)\<rparr>)"
  by (simp_all add: read_io size_defs ad_SoftSwitch_def disk_switch_def)

definition winding :: "int \<Rightarrow> dev_state \<Rightarrow> bool" where
  "winding h d \<longleftrightarrow> currentDrive d = 0 \<and> pIdx d 0 = 1 \<and> pIdxB d 0 = 1 \<and>
     phasesBB d 0 0 \<and> \<not> phasesBB d 0 2 \<and> halfTrackPos d 0 = h \<and> track (cur d) = word_of_int ((h + 1) div 2)"

lemma phase_C0E3: "head_phase 0xC0E3 = 1" "head_phase 0xC0E1 = 0"
  by (simp_all add: head_phase_def)

lemma wind_step: "winding h d \<Longrightarrow> 0 \<le> h \<Longrightarrow> h < 140 \<Longrightarrow> winding (h + 1) (ad_stepMotor 0xC0E3 d)"
  unfolding winding_def by (simp add: stepMotor_head phase_C0E3 move_head_def numeral_2_eq_2)

lemma wind_start:
  assumes "currentDrive d = 0" "phasesBB d 0 = (\<lambda>_. False)" "phasesB d 0 = (\<lambda>_. False)"
    "phases d 0 = (\<lambda>_. False)" "pIdx d 0 = 0" "pIdxB d 0 = 0" "halfTrackPos d 0 = 0"
  shows "winding 1 (ad_stepMotor 0xC0E3 (ad_stepMotor 0xC0E3 (ad_stepMotor 0xC0E1 d)))"
  using assms unfolding winding_def by (simp add: stepMotor_head phase_C0E3 move_head_def)

lemma wind:
  assumes "winding h (dev m)" and "0 \<le> h" and "h + int k \<le> 140"
  shows "\<exists>m'. bus_reads (replicate k 0xC0E3) m = Some m' \<and> winding (h + int k) (dev m')"
  using assms
proof (induction k arbitrary: h m)
  case (Suc k)
  then have "winding (h + 1) (dev (m\<lparr>dev := ad_stepMotor 0xC0E3 (dev m)\<rparr>))"
    by (simp add: wind_step)
  from Suc.IH [OF this] Suc.prems show ?case
    by (simp add: read_stepper algebra_simps)
qed simp

lemma bus_reads_append: "bus_reads (xs @ ys) m = Option.bind (bus_reads xs m) (bus_reads ys)"
proof (induction xs arbitrary: m)
  case (Cons a xs)
  then show ?case by (cases "mem_ReadByte a m") auto
qed simp

lemma wound_off: "winding 69 (dev m) \<Longrightarrow> mem_ReadByte 0xC0EC m = None"
  by (simp add: winding_def read_io size_defs ad_SoftSwitch_None head_index_def DISKSIZE_def)

subsection \<open>Properties\<close>

text \<open>
  C1. No emulated program changes the ROM or the Disk II PROM: whatever code \<^verbatim>\<open>ac_Run\<close> executes, for
  whatever budget, both arrays are the same afterwards.
\<close>

theorem ac_Run_keeps_rom:
  assumes "ac_Run n m = Some (Some m')"
  shows "rom (mem m') = rom (mem m) \<and> sl6 (mem m') = sl6 (mem m)"
  using romc.keeps_run [OF assms] by (simp add: same_rom_def)

theorem ac_Run_keeps_rom_witness:
  "rom (mem (program [STA_ABS, 0x00, 0xD0]\<lparr>cpu := cpu machine_image\<lparr>PC := 4\<rparr>\<rparr>)) =
   rom (mem (program [STA_ABS, 0x00, 0xD0]))"
  using ac_Run_keeps_rom [OF store_rom_run] by blast

text \<open>
  C18. The drive invariant survives every program: the selected drive exists, phase indices stay in
  0..3, half-track counters in 0..140, tracks at most 70 and nibble pointers inside a track.
\<close>

theorem ac_Run_keeps_drive_ok:
  assumes "ac_Run n m = Some (Some m')" and "drive_ok (dev m)"
  shows "drive_ok (dev m')"
  using drv.keeps_run [OF assms(1)] assms(2) by (simp add: keeps_drive_def)

theorem ac_Run_keeps_drive_ok_witness:
  "drive_ok (dev (program [STA_ABS, 0x00, 0xD0]\<lparr>cpu := cpu machine_image\<lparr>PC := 4\<rparr>\<rparr>))"
  by (rule ac_Run_keeps_drive_ok [OF store_rom_run])
     (simp add: program_def drive_ok_def dev_image_def zero_drive_def)

text \<open>
  C10. The bus faults in exactly one place: under the drive invariant, a read or a write leaves its
  array exactly when it addresses \<^verbatim>\<open>$C0EC\<close> while the head is on track 35 or beyond.  Every other
  index computed by \<^verbatim>\<open>mem_ReadByte\<close> and \<^verbatim>\<open>mem_WriteByte\<close> is in range.
\<close>

theorem bus_fault_iff:
  assumes "drive_ok (dev m)"
  shows "(mem_ReadByte a m = None \<longleftrightarrow> a = 0xC0EC \<and> 35 \<le> unat (track (cur (dev m)))) \<and>
    (mem_WriteByte a v m = None \<longleftrightarrow> a = 0xC0EC \<and> 35 \<le> unat (track (cur (dev m))))"
proof -
  have "DISKSIZE \<le> head_index (cur (dev m)) \<longleftrightarrow> 35 \<le> unat (track (cur (dev m)))"
    using head_index_in_image drive_ok_cur [OF assms] by (metis linorder_not_less)
  then show ?thesis
    using mem_ReadByte_None [of a m] mem_WriteByte_None [of a v m]
    by (auto simp: read_io write_io size_defs ad_SoftSwitch_None)
qed

theorem bus_fault_iff_witness:
  "mem_ReadByte 0xC0EC past_end = None \<and> mem_ReadByte 0xC0ED past_end \<noteq> None"
  using bus_fault_iff [of past_end "0xC0EC"] bus_fault_iff [of past_end "0xC0ED"]
  by (simp add: past_end_def drive_ok_def dev_image_def zero_drive_def cur_def)

text \<open>
  C29. That access is reachable: on any machine whose devices have just been reset, one read of
  \<^verbatim>\<open>$C0E1\<close>, seventy of \<^verbatim>\<open>$C0E3\<close> and one of \<^verbatim>\<open>$C0EC\<close> index the disk image out of bounds.
\<close>

theorem head_walks_off_image:
  "bus_reads (0xC0E1 # replicate 70 0xC0E3 @ [0xC0EC]) (m\<lparr>dev := ad_Reset d\<rparr>) = None"
proof -
  let ?m = "m\<lparr>dev := ad_stepMotor 0xC0E3 (ad_stepMotor 0xC0E3 (ad_stepMotor 0xC0E1 (ad_Reset d)))\<rparr>"
  obtain m' where m': "bus_reads (replicate 68 0xC0E3) ?m = Some m'" "winding 69 (dev m')"
    using wind [of 1 ?m 68] wind_start [of "ad_Reset d"] by (auto simp: ad_Reset_def)
  have "replicate 70 (0xC0E3 :: u16) = 0xC0E3 # 0xC0E3 # replicate 68 0xC0E3"
    by (simp add: numeral_eq_Suc)
  with m' show ?thesis
    by (simp add: read_stepper bus_reads_append wound_off)
qed

text \<open>
  C30. A started paddle never times out: in a state where the countdown has been started with
  centred paddles, it is still running after any program, and reading \<^verbatim>\<open>$C064\<close> there gives \<open>0x80\<close>,
  because nothing advances \<^verbatim>\<open>cpu_tick\<close>.
\<close>

theorem paddle_never_expires:
  assumes "ac_Run n m = Some (Some m')" and "paddle_armed m"
  shows "paddle_armed m' \<and> (\<exists>m2. mem_ReadByte 0xC064 m' = Some (0x80, m2) \<and> paddle_armed m2)"
proof -
  have a: "paddle_armed m'"
    using pdl.keeps_run [OF assms(1)] assms(2) by (simp add: keeps_armed_def)
  obtain d where "ad_readPaddle (cpu_tick (cpu m')) 0 (dev m') = (0x80, d)" "paddle_armed (m'\<lparr>dev := d\<rparr>)"
    using armed_read [OF a, of 0] by auto
  with a show ?thesis by (simp add: read_io size_defs ad_SoftSwitch_def)
qed

theorem paddle_never_expires_witness:
  "\<exists>m2. mem_ReadByte 0xC064 (armed_demo\<lparr>cpu := cpu machine_image\<lparr>PC := 1\<rparr>\<rparr>) = Some (0x80, m2) \<and>
     paddle_armed m2"
proof -
  have "ac_step (armed_demo\<lparr>cpu := cpu machine_image\<lparr>cycle := 1\<rparr>\<rparr>) =
      Some (armed_demo\<lparr>cpu := cpu machine_image\<lparr>PC := 1\<rparr>\<rparr>)"
    by (simp add: armed_demo_def demo_defs op_NOP_def)
  then have "ac_Run 1 armed_demo = Some (Some (armed_demo\<lparr>cpu := cpu machine_image\<lparr>PC := 1\<rparr>\<rparr>))"
    using run_next run_done by (simp add: ac_Run_def armed_demo_def demo_cpu)
  moreover have "paddle_armed armed_demo"
    by (simp add: armed_demo_def paddle_armed_def program_def ad_resetPaddles_def ad_Reset_def
        dev_image_def)
  ultimately show ?thesis using paddle_never_expires [of 1 armed_demo] by blast
qed

text \<open>
  C28. The language card opens for writing only through two accesses: if an access makes it
  writable, the pre-write flip-flop was set before and the address is an odd one of
  \<^verbatim>\<open>$C081-$C08F\<close>; and the flip-flop is set only by reading such an address.
\<close>

theorem language_card_write_enable:
  "(mem_ReadByte a m = Some (x, m1) \<and> LCWritable (mem m1) \<longrightarrow>
      LCWritable (mem m) \<or> LCPreWriteFlipflop (mem m) \<and> lc_odd a) \<and>
   (mem_WriteByte a v m = Some m2 \<and> LCWritable (mem m2) \<longrightarrow>
      LCWritable (mem m) \<or> LCPreWriteFlipflop (mem m) \<and> lc_odd a) \<and>
   (mem_ReadByte a m = Some (x, m1) \<and> LCPreWriteFlipflop (mem m1) \<longrightarrow>
      LCPreWriteFlipflop (mem m) \<or> lc_odd a) \<and>
   (mem_WriteByte a v m = Some m2 \<and> LCPreWriteFlipflop (mem m2) \<longrightarrow> LCPreWriteFlipflop (mem m)) \<and>
   (lc_odd a \<longrightarrow> (\<exists>m1. bus_reads [a, a] m = Some m1 \<and> LCWritable (mem m1)))"
proof -
  have "\<exists>m1. bus_reads [a, a] m = Some m1 \<and> LCWritable (mem m1)" if "lc_odd a"
    using that unfolding lc_odd_def by (elim insertE emptyE) (simp_all add: read_io size_defs ad_SoftSwitch_def lc_switch_def)
  then show ?thesis
    by (cases a rule: address_cases; cases "LCWritable (mem m)")
       (auto simp: read_high write_high write_protected read_io write_io dest: soft_switch_lc
         split: if_splits)
qed

theorem language_card_write_enable_witness:
  "\<exists>m1. mem_ReadByte 0xC083 (program []) = Some (0, m1) \<and> LCPreWriteFlipflop (mem m1) \<and>
     \<not> LCPreWriteFlipflop (mem (program [])) \<and> lc_odd 0xC083"
proof -
  let ?m1 = "program []\<lparr>mem := lc_switch 0xC083 False (mem (program []))\<rparr>"
  have r: "mem_ReadByte 0xC083 (program []) = Some (0, ?m1)"
    by (simp add: read_io size_defs ad_SoftSwitch_def tick_byte_def demo_cpu)
  moreover have f: "LCPreWriteFlipflop (mem ?m1)" "\<not> LCPreWriteFlipflop (mem (program []))"
    by (simp_all add: lc_switch_def program_def mem_image_def)
  ultimately show ?thesis
    using language_card_write_enable [of "0xC083" "program []" 0 ?m1] by blast
qed

end
