(* ===== verification/Apple_Arith.thy ===== *)
theory Apple_Arith
  imports Apple_Safety
begin

text \<open>
  Arithmetic of the CPU helpers against numbers.  The accumulator and flags that ADC and SBC leave
  are compared with the unsigned and the signed sum, ADC in decimal mode with addition of
  two-digit decimal numbers, the comparisons with the order of the operands, and the shifts with
  doubling and halving.
\<close>

definition bcd :: "u8 \<Rightarrow> bool" where
  "bcd w \<longleftrightarrow> unat w mod 16 < 10 \<and> unat w div 16 < 10"

definition bcd_val :: "u8 \<Rightarrow> nat" where
  "bcd_val w = 10 * (unat w div 16) + unat w mod 16"

subsection \<open>Sign, carry and flags as numbers\<close>

lemma and_sign: "w AND FLAG_NEGATIVE = 0 \<longleftrightarrow> \<not> bit w 7"
  using and_exp_eq_0_iff_not_bit [of w 7] by (simp add: flag_masks)

lemma and_sign_pos: "w AND FLAG_NEGATIVE > 0 \<longleftrightarrow> bit w 7"
  using and_sign [of w] by (simp add: word_gt_0)

lemma and_carry: "w AND FLAG_CARRY > 0 \<longleftrightarrow> bit w 0" for w :: u8
  using and_exp_eq_0_iff_not_bit [of w 0] unfolding flag_masks word_gt_0 by simp

lemma sign_bit: "bit FLAG_NEGATIVE n \<longleftrightarrow> n = 7"
  using bit_exp_iff [of 7 n, where ?'a = u8] by (simp add: flag_masks) linarith

lemma bit_double: "bit (push_bit 1 v) n \<longleftrightarrow> 0 < n \<and> n < 8 \<and> bit v (n - 1)" for v :: u8
  unfolding bit_push_bit_iff by (auto dest: bit_imp_le_length)

lemma bit_unat: "bit w n \<longleftrightarrow> odd (unat w div 2 ^ n)" for w :: "'a::len word"
proof -
  have "bit w n \<longleftrightarrow> bit (unat w) n"
    using bit_imp_le_length [of w n] by (auto simp: bit_unsigned_iff)
  then show ?thesis by (simp add: bit_iff_odd)
qed

lemma bit_7_unat: "bit w 7 \<longleftrightarrow> 128 \<le> unat w" for w :: u8
proof -
  have "bit w 7 \<longleftrightarrow> bit (unat w) 7"
    by (simp add: bit_unsigned_iff)
  also have "\<dots> \<longleftrightarrow> odd (unat w div 128)"
    by (simp add: bit_iff_odd)
  also have "\<dots> \<longleftrightarrow> 128 \<le> unat w"
  proof (cases "128 \<le> unat w")
    case True
    then have "unat w div 128 = 1"
      using unat_u8_lt [of w] by (intro div_nat_eqI) (simp_all del: unat_u8_lt)
    with True show ?thesis by simp
  qed simp
  finally show ?thesis .
qed

lemma negative_iff: "sint w < 0 \<longleftrightarrow> bit w 7" for w :: u8
  using unat_u8_lt [of w] unfolding sint_u8 bit_7_unat by (cases "unat w < 128") (simp_all only: if_True if_False, linarith+)

lemma sign_differs: "(x XOR y) AND FLAG_NEGATIVE = 0 \<longleftrightarrow> (128 \<le> unat x \<longleftrightarrow> 128 \<le> unat y)" for x y :: u8
  unfolding and_sign bit_xor_iff by (auto simp: bit_7_unat)

lemma carry_iff: "w AND 0xFF00 > 0 \<longleftrightarrow> 256 \<le> unat w" for w :: u16
proof -
  have "w AND 0xFF00 > 0 \<longleftrightarrow> 0 < unat (w AND 0xFF00)"
    by (simp add: word_less_nat_alt)
  also have "\<dots> \<longleftrightarrow> 256 \<le> unat w"
    unfolding page_mask minus_mod_eq_div_mult by (auto simp: div_greater_zero_iff)
  finally show ?thesis .
qed

lemma low_byte: "unat (ucast (w AND 0xFF) :: u8) = unat w mod 256" for w :: u16
proof -
  have ff: "(0xFF :: u16) = mask 8"
    by (simp add: mask_eq_exp_minus_1)
  have "ucast (w AND 0xFF) = (ucast w :: u8)"
    unfolding ff by (rule bit_word_eqI) (auto simp: bit_simps)
  then show ?thesis by (simp add: unsigned_ucast_eq take_bit_eq_mod)
qed

lemma unat_not: "unat (NOT v) = 255 - unat v" for v :: u8
proof -
  have "NOT v = - 1 - v" by (simp add: not_eq_complement)
  moreover have "v \<le> - 1" by simp
  ultimately show ?thesis by (simp add: unat_sub unsigned_minus_1_eq_mask mask_eq_exp_minus_1)
qed

lemma and_0x22: "w AND 0x22 = (if bit w 1 then 2 else 0) + (if bit w 5 then 32 else 0)" for w :: u16
proof -
  have e: "w AND 2 ^ n = (if bit w n then 2 ^ n else 0)" if "n < 16" for n
    by (rule bit_word_eqI) (auto simp: bit_simps bit_exp_iff)
  have "(0x22 :: u16) = 2 ^ 1 OR 2 ^ 5" by simp
  then have "w AND 0x22 = (w AND 2 ^ 1) OR (w AND 2 ^ 5)"
    by (simp only: bit.conj_disj_distrib)
  then show ?thesis using e [of 1] e [of 5] by simp
qed

subsection \<open>Reading flags back\<close>

lemma flag_set_flag [simp]: "flag f (set_flag g b m) = (if f = g then b else flag f m)"
  by (cases f; cases g; simp add: flag_def set_flag_def)

lemma registers_set_flag [simp]:
  "A (cpu (set_flag f b m)) = A (cpu m)" "X (cpu (set_flag f b m)) = X (cpu m)"
  "Y (cpu (set_flag f b m)) = Y (cpu m)" "SP (cpu (set_flag f b m)) = SP (cpu m)"
  "PC (cpu (set_flag f b m)) = PC (cpu m)" "mem (set_flag f b m) = mem m"
  "dev (set_flag f b m) = dev m"
  by (simp_all add: set_flag_def)

lemma set_zn_flags [simp]:
  "flag f (ac_SetZeroNegative v m) = (if f = fZ then v = 0 else if f = fN then bit v 7 else flag f m)"
  by (simp add: ac_SetZeroNegative_def and_sign_pos)

lemma set_zn_registers [simp]:
  "A (cpu (ac_SetZeroNegative v m)) = A (cpu m)" "X (cpu (ac_SetZeroNegative v m)) = X (cpu m)"
  "Y (cpu (ac_SetZeroNegative v m)) = Y (cpu m)" "SP (cpu (ac_SetZeroNegative v m)) = SP (cpu m)"
  "PC (cpu (ac_SetZeroNegative v m)) = PC (cpu m)" "mem (ac_SetZeroNegative v m) = mem m"
  by (simp_all add: ac_SetZeroNegative_def)

subsection \<open>Addition and subtraction\<close>

lemma adc_word:
  fixes m v
  defines "R \<equiv> adc_result (A (cpu m)) v (flag fC m) (flag fD m)"
  defines "r \<equiv> ucast (R AND 0xFF) :: u8"
  shows "A (cpu (ac_Execute_ADC v m)) = r"
    and "flag fC (ac_Execute_ADC v m) \<longleftrightarrow> R AND 0xFF00 > 0"
    and "flag fZ (ac_Execute_ADC v m) \<longleftrightarrow> r = 0"
    and "flag fN (ac_Execute_ADC v m) \<longleftrightarrow> bit r 7"
    and "flag fV (ac_Execute_ADC v m) \<longleftrightarrow>
      (A (cpu m) XOR v) AND FLAG_NEGATIVE = 0 \<and> (r XOR v) AND FLAG_NEGATIVE \<noteq> 0"
  unfolding R_def r_def
  by (simp_all add: ac_Execute_ADC_def Let_def ac_SetOverflow_def ac_SetCarryFlag_def)

lemma adc_flags:
  assumes "unat (adc_result (A (cpu m)) v (flag fC m) (flag fD m)) = t"
  shows "unat (A (cpu (ac_Execute_ADC v m))) = t mod 256"
    and "flag fC (ac_Execute_ADC v m) \<longleftrightarrow> 256 \<le> t"
    and "flag fZ (ac_Execute_ADC v m) \<longleftrightarrow> t mod 256 = 0"
    and "flag fN (ac_Execute_ADC v m) \<longleftrightarrow> 128 \<le> t mod 256"
    and "flag fV (ac_Execute_ADC v m) \<longleftrightarrow>
      (128 \<le> unat (A (cpu m)) \<longleftrightarrow> 128 \<le> unat v) \<and> (128 \<le> t mod 256 \<longleftrightarrow> \<not> 128 \<le> unat v)"
  unfolding adc_word sign_differs [unfolded not_less] bit_7_unat carry_iff low_byte assms
    unat_eq_0 [of "ucast _", symmetric] by auto

lemma adc_result_binary:
  "unat (adc_result a v c False) = unat a + unat v + of_bool c"
  using unat_u8_lt [of a] unat_u8_lt [of v]
  by (simp add: adc_result_def Let_def unat_word_ariths del: unat_u8_lt)

lemma signed_overflow:
  fixes x y c :: nat
  assumes "x < 256" "y < 256" "c \<le> 1"
  defines "s \<equiv> (\<lambda>u. if u < 128 then int u else int u - 256)"
  shows "(128 \<le> x \<longleftrightarrow> 128 \<le> y) \<and> (128 \<le> (x + y + c) mod 256 \<longleftrightarrow> \<not> 128 \<le> y) \<longleftrightarrow>
    s x + s y + int c < -128 \<or> 127 < s x + s y + int c"
proof -
  have "(x + y + c) mod 256 = (if x + y + c < 256 then x + y + c else x + y + c - 256)"
    using assms by (auto simp: mod_if)
  then show ?thesis using assms by auto
qed

lemma adc_binary:
  fixes v m
  assumes "\<not> flag fD m"
  defines "a \<equiv> A (cpu m)" and "m' \<equiv> ac_Execute_ADC v m"
  defines "tot \<equiv> unat a + unat v + of_bool (flag fC m)"
    and "ssum \<equiv> sint a + sint v + of_bool (flag fC m)"
  shows "unat (A (cpu m')) = tot mod 256 \<and> (flag fC m' \<longleftrightarrow> 256 \<le> tot) \<and>
    (flag fZ m' \<longleftrightarrow> A (cpu m') = 0) \<and> (flag fN m' \<longleftrightarrow> sint (A (cpu m')) < 0) \<and>
    (flag fV m' \<longleftrightarrow> ssum < -128 \<or> 127 < ssum)"
proof -
  have R: "unat (adc_result a v (flag fC m) (flag fD m)) = tot"
    using assms(1) by (simp add: adc_result_binary tot_def)
  note f = adc_flags [of m v, folded m'_def a_def, OF R]
  have "(128 \<le> unat a \<longleftrightarrow> 128 \<le> unat v) \<and> (128 \<le> tot mod 256 \<longleftrightarrow> \<not> 128 \<le> unat v)
      \<longleftrightarrow> ssum < -128 \<or> 127 < ssum"
    using signed_overflow [OF unat_u8_lt [of a] unat_u8_lt [of v], of "of_bool (flag fC m)"]
    unfolding tot_def ssum_def sint_u8 by simp
  then show ?thesis
    using f unfolding unat_eq_0 [symmetric] sint_u8 by auto
qed

lemma sbc_binary:
  fixes v m
  assumes "\<not> flag fD m"
  defines "a \<equiv> A (cpu m)" and "m' \<equiv> ac_Execute_SBC v m"
  defines "d \<equiv> int (unat a) - int (unat v) - of_bool (\<not> flag fC m)"
    and "sd \<equiv> sint a - sint v - of_bool (\<not> flag fC m)"
  shows "int (unat (A (cpu m'))) = d mod 256 \<and> (flag fC m' \<longleftrightarrow> 0 \<le> d) \<and>
    (flag fZ m' \<longleftrightarrow> A (cpu m') = 0) \<and> (flag fN m' \<longleftrightarrow> sint (A (cpu m')) < 0) \<and>
    (flag fV m' \<longleftrightarrow> sd < -128 \<or> 127 < sd)"
proof -
  let ?t = "unat a + unat (NOT v) + of_bool (flag fC m)"
  have v: "unat v \<le> 255" using unat_u8_lt [of v] by linarith
  have t: "int ?t = d + 256"
    using v by (cases "flag fC m") (simp_all add: d_def unat_not of_nat_diff)
  have "sint (NOT v) = - sint v - 1"
    using v unfolding sint_u8 unat_not by (auto simp: of_nat_diff)
  then have s: "sint a + sint (NOT v) + of_bool (flag fC m) = sd"
    by (simp add: sd_def)
  have "int (?t mod 256) = d mod 256"
    unfolding zmod_int t by simp
  moreover have "256 \<le> ?t \<longleftrightarrow> 0 \<le> d" using t by linarith
  ultimately show ?thesis
    using adc_binary [OF assms(1), of "NOT v", folded a_def] unfolding s m'_def ac_Execute_SBC_def by simp
qed

subsection \<open>Decimal mode\<close>

lemma adc_result_decimal:
  fixes a v c
  defines "t \<equiv> unat a + unat v + of_bool c"
  assumes lt: "t < 410"
  shows "unat (adc_result a v c True) = t
    + (if odd ((t + 102) div 16) \<noteq> (odd (unat a div 16) \<noteq> odd (unat v div 16)) then 6 else 0)
    + (if 154 \<le> t then 96 else 0)"
proof -
  define r :: u16 where "r = ucast a + ucast v + (if c then 1 else 0)"
  define w where "w = (r + 0x66) XOR ucast a XOR ucast v"
  have r: "unat r = t"
    using lt by (auto simp: r_def t_def unat_word_ariths)
  have r66: "unat (r + 0x66) = t + 102"
    using lt r by (simp add: unat_word_ariths)
  have b4: "bit w 4 \<longleftrightarrow> odd ((t + 102) div 16) \<noteq> (odd (unat a div 16) \<noteq> odd (unat v div 16))"
    unfolding w_def bit_xor_iff unfolding bit_unat r66 unat_u16_of_u8 by auto
  have "unat a div 256 = 0" "unat v div 256 = 0" by simp_all
  then have "bit w 8 \<longleftrightarrow> odd ((t + 102) div 256)"
    unfolding w_def bit_xor_iff unfolding bit_unat r66 unat_u16_of_u8 by simp
  also have "\<dots> \<longleftrightarrow> 154 \<le> t"
  proof (cases "154 \<le> t")
    case True
    then have "(t + 102) div 256 = 1" using lt by (intro div_nat_eqI) simp_all
    with True show ?thesis by simp
  qed simp
  finally have b8: "bit w 8 \<longleftrightarrow> 154 \<le> t" .
  have "adc_result a v c True = r + ((if bit w 4 then 2 else 0) + (if bit w 8 then 32 else 0)) * 3"
    unfolding adc_result_def Let_def r_def [symmetric] w_def [symmetric] and_0x22 bit_drop_bit_eq
    by (simp add: numeral_eq_Suc)
  then show ?thesis
    using lt r unfolding b4 b8 by (auto simp: unat_word_ariths)
qed

lemma bcd_digits:
  assumes "bcd a"
  obtains h l where "h < 10" "l < 10" "unat a = 16 * h + l" "bcd_val a = 10 * h + l"
    "unat a div 16 = h"
  using assms that [of "unat a div 16" "unat a mod 16"] by (simp add: bcd_def bcd_val_def)

lemma bcd_valI:
  assumes "unat a = 16 * h + l" "h < 10" "l < 10"
  shows "bcd a \<and> bcd_val a = 10 * h + l"
  using assms by (simp add: bcd_def bcd_val_def)

lemma two_digits:
  fixes p q j :: nat
  assumes "p < 10" "q < 10" "j \<le> 1"
  shows "(256 * j + (16 * p + q)) mod 256 = 16 * p + q \<and> (100 * j + (10 * p + q)) mod 100 = 10 * p + q \<and>
    (256 \<le> 256 * j + (16 * p + q) \<longleftrightarrow> 100 \<le> 100 * j + (10 * p + q))"
  using assms by (cases "j = 0") auto

lemma adc_digits:
  assumes d: "h < 10" "l < 10" "h' < 10" "l' < 10" "c \<le> (1::nat)"
    and t: "t = 16 * h + l + (16 * h' + l') + c"
    and R: "R = t + (if odd ((t + 102) div 16) \<noteq> (odd h \<noteq> odd h') then 6 else 0) + (if 154 \<le> t then 96 else 0)"
  defines "s \<equiv> 10 * h + l + (10 * h' + l') + c"
  shows "\<exists>p q. p < 10 \<and> q < 10 \<and> R mod 256 = 16 * p + q \<and> s mod 100 = 10 * p + q \<and>
    (256 \<le> R \<longleftrightarrow> 100 \<le> s)"
proof -
  define k where "k = (if 10 \<le> l + l' + c then 1 else 0 :: nat)"
  have "(t + 102) div 16 = h + h' + 6 + k"
    unfolding t k_def using d by (auto intro!: div_nat_eqI)
  then have "(odd ((t + 102) div 16) \<noteq> (odd h \<noteq> odd h')) \<longleftrightarrow> k = 1"
    by (auto simp: k_def)
  moreover define j where "j = (if 10 \<le> h + h' + k then 1 else 0 :: nat)"
  moreover have "154 \<le> t \<longleftrightarrow> j = 1"
    using d unfolding t j_def k_def by auto
  ultimately have "R = t + 6 * k + 96 * j"
    unfolding R by (auto simp: k_def j_def)
  moreover have s: "s = 100 * j + (10 * (h + h' + k - 10 * j) + (l + l' + c - 10 * k))"
    unfolding s_def j_def k_def by auto
  ultimately have "R = 256 * j + (16 * (h + h' + k - 10 * j) + (l + l' + c - 10 * k))"
    unfolding t j_def k_def by auto
  moreover have "h + h' + k - 10 * j < 10" "l + l' + c - 10 * k < 10"
    unfolding j_def k_def using d by auto
  moreover have "j \<le> 1" by (simp add: j_def)
  ultimately show ?thesis unfolding s using two_digits by metis
qed

lemma adc_bcd:
  assumes "flag fD m" and a: "bcd (A (cpu m))" and v: "bcd v"
  defines "s \<equiv> bcd_val (A (cpu m)) + bcd_val v + of_bool (flag fC m)"
  shows "bcd (A (cpu (ac_Execute_ADC v m))) \<and> bcd_val (A (cpu (ac_Execute_ADC v m))) = s mod 100 \<and>
    (flag fC (ac_Execute_ADC v m) \<longleftrightarrow> 100 \<le> s)"
proof -
  obtain h l where d: "h < 10" "l < 10" "unat (A (cpu m)) = 16 * h + l" "bcd_val (A (cpu m)) = 10 * h + l"
    "unat (A (cpu m)) div 16 = h" using a by (rule bcd_digits)
  obtain h' l' where d': "h' < 10" "l' < 10" "unat v = 16 * h' + l'" "bcd_val v = 10 * h' + l'"
    "unat v div 16 = h'" using v by (rule bcd_digits)
  let ?t = "unat (A (cpu m)) + unat v + of_bool (flag fC m)"
  have lt: "?t < 410" using d d' by (cases "flag fC m") auto
  have "adc_result (A (cpu m)) v (flag fC m) (flag fD m) = adc_result (A (cpu m)) v (flag fC m) True"
    using assms(1) by simp
  note R = adc_flags(1,2) [of m v, unfolded this, OF refl]
  have c: "of_bool (flag fC m) \<le> (1 :: nat)" by simp
  obtain p q where "p < 10" "q < 10" "s mod 100 = 10 * p + q"
    "unat (A (cpu (ac_Execute_ADC v m))) = 16 * p + q" "flag fC (ac_Execute_ADC v m) \<longleftrightarrow> 100 \<le> s"
    using adc_digits [OF d(1,2) d'(1,2) c _ adc_result_decimal [OF lt, unfolded d(5) d'(5)]]
    unfolding R s_def d d' by auto
  then show ?thesis using bcd_valI by simp
qed

subsection \<open>Comparison and shifts\<close>

lemma compare_flags:
  "flag fC (compare_reg r v m) \<longleftrightarrow> unat v \<le> unat r"
  "flag fZ (compare_reg r v m) \<longleftrightarrow> r = v"
  "flag fN (compare_reg r v m) \<longleftrightarrow> sint (r - v) < 0"
proof -
  have ff: "(0xFF :: u8) = - 1" by simp
  show "flag fC (compare_reg r v m) \<longleftrightarrow> unat v \<le> unat r"
    by (simp add: compare_reg_def Let_def word_le_nat_alt)
  show "flag fZ (compare_reg r v m) \<longleftrightarrow> r = v"
    unfolding compare_reg_def Let_def ff by simp
  show "flag fN (compare_reg r v m) \<longleftrightarrow> sint (r - v) < 0"
    unfolding compare_reg_def Let_def by (simp add: and_sign negative_iff)
qed

lemma rol_bits:
  "bit (fst (ac_Execute_ROL v m)) n \<longleftrightarrow> n < 8 \<and> (if n = 0 then flag fC m else bit v (n - 1))"
  "flag fC (snd (ac_Execute_ROL v m)) \<longleftrightarrow> bit v 7"
  unfolding ac_Execute_ROL_def Let_def fst_conv snd_conv bit_or_iff bit_double
  by (auto simp: and_sign_pos bit_1_iff)

lemma ror_bits:
  "bit (fst (ac_Execute_ROR v m)) n \<longleftrightarrow> n < 8 \<and> (if n = 7 then flag fC m else bit v (n + 1))"
  "flag fC (snd (ac_Execute_ROR v m)) \<longleftrightarrow> bit v 0"
  by (auto simp: ac_Execute_ROR_def Let_def and_carry bit_simps sign_bit dest: bit_imp_le_length)

lemma rol_ror:
  assumes "ac_Execute_ROL v m = (w, m1)" and "ac_Execute_ROR w m1 = (v', m2)"
  shows "v' = v \<and> flag fC m2 = flag fC m"
proof -
  have w: "w = fst (ac_Execute_ROL v m)" "m1 = snd (ac_Execute_ROL v m)"
    "v' = fst (ac_Execute_ROR w m1)" "m2 = snd (ac_Execute_ROR w m1)"
    using assms by simp_all
  have "v' = v"
    unfolding w(3) by (rule bit_word_eqI) (auto simp: ror_bits rol_bits w(1,2))
  then show ?thesis by (simp add: w(4) ror_bits) (simp add: w(1) rol_bits)
qed

lemma asl_double:
  "unat (fst (ac_Execute_ASL v m)) + 256 * of_bool (flag fC (snd (ac_Execute_ASL v m))) = 2 * unat v"
proof -
  have "unat (push_bit 1 v) = 2 * unat v mod 256"
    unfolding unsigned_push_bit_eq by (simp add: take_bit_eq_mod mult.commute)
  also have "\<dots> = (if 128 \<le> unat v then 2 * unat v - 256 else 2 * unat v)"
    using unat_u8_lt [of v] by (auto simp: le_mod_geq simp del: unat_u8_lt)
  finally show ?thesis
    unfolding ac_Execute_ASL_def Let_def fst_conv snd_conv by (simp add: and_sign_pos bit_7_unat)
qed

lemma lsr_half:
  "2 * unat (fst (ac_Execute_LSR v m)) + of_bool (flag fC (snd (ac_Execute_LSR v m))) = unat v"
proof -
  have "unat (drop_bit 1 v) = unat v div 2"
    unfolding unsigned_drop_bit_eq by (simp add: drop_bit_eq_div take_bit_eq_mod)
  moreover have "v AND 1 \<noteq> 0 \<longleftrightarrow> odd (unat v)"
    using and_exp_eq_0_iff_not_bit [of v 0] bit_unat [of v 0] by simp
  ultimately show ?thesis
    unfolding ac_Execute_LSR_def Let_def fst_conv snd_conv by simp
qed

lemma ror_rol:
  assumes "ac_Execute_ROR v m = (w, m1)" and "ac_Execute_ROL w m1 = (v', m2)"
  shows "v' = v \<and> flag fC m2 = flag fC m"
proof -
  have w: "w = fst (ac_Execute_ROR v m)" "m1 = snd (ac_Execute_ROR v m)"
    "v' = fst (ac_Execute_ROL w m1)" "m2 = snd (ac_Execute_ROL w m1)"
    using assms by simp_all
  have "v' = v"
    unfolding w(3) by (rule bit_word_eqI) (auto simp: ror_bits rol_bits w(1,2))
  then show ?thesis by (simp add: w(4) rol_bits) (simp add: w(1) ror_bits)
qed

text \<open>
  In decimal mode SBC adds the one's complement with the correction that is meant for decimal
  addition: 10 - 1 gives \<open>0x75\<close>, where the decimal difference is \<open>0x09\<close>.
\<close>

lemma SBC_decimal_10_minus_1:
  "A (cpu (ac_Execute_SBC 0x01 (set_flag fC True (set_flag fD True (set_A 0x10 machine_image))))) = 0x75"
  by (simp add: ac_Execute_SBC_def adc_word flag_def set_flag_def put_bit_def adc_result_def Let_def)

subsection \<open>Properties\<close>

text \<open>
  C20. Binary ADC is addition: the accumulator gets the low byte of A + v + C, the carry says that
  the unsigned sum passed 255, Z and N describe the new accumulator, and V is set exactly when the
  sum of the two signed operands and the carry leaves the signed byte range.
\<close>

theorem ac_Execute_ADC_binary:
  assumes "\<not> flag fD m"
  shows "let m' = ac_Execute_ADC v m;
      u = unat (A (cpu m)) + unat v + of_bool (flag fC m);
      s = sint (A (cpu m)) + sint v + of_bool (flag fC m)
    in unat (A (cpu m')) = u mod 256 \<and> (flag fC m' \<longleftrightarrow> 256 \<le> u) \<and>
       (flag fZ m' \<longleftrightarrow> A (cpu m') = 0) \<and> (flag fN m' \<longleftrightarrow> sint (A (cpu m')) < 0) \<and>
       (flag fV m' \<longleftrightarrow> s < -128 \<or> 127 < s)"
  using adc_binary [OF assms] by (simp add: Let_def)

theorem ac_Execute_ADC_binary_witness:
  "unat (A (cpu (ac_Execute_ADC 0x50 (set_A 0xD0 machine_image)))) = 0x20 \<and>
   flag fC (ac_Execute_ADC 0x50 (set_A 0xD0 machine_image)) \<and>
   flag fV (ac_Execute_ADC 0x50 (set_A 0x50 machine_image))"
  using ac_Execute_ADC_binary [of "set_A 0xD0 machine_image" "0x50"]
    ac_Execute_ADC_binary [of "set_A 0x50 machine_image" "0x50"]
  by (simp add: flag_def Let_def)

text \<open>
  C24. Binary SBC is subtraction with borrow: the accumulator gets A - v - (1 - C) modulo 256, the
  carry is set exactly when no borrow is needed, Z and N describe the new accumulator, and V is set
  exactly when the signed difference leaves the signed byte range.
\<close>

theorem ac_Execute_SBC_binary:
  assumes "\<not> flag fD m"
  shows "let m' = ac_Execute_SBC v m;
      u = int (unat (A (cpu m))) - int (unat v) - of_bool (\<not> flag fC m);
      s = sint (A (cpu m)) - sint v - of_bool (\<not> flag fC m)
    in int (unat (A (cpu m'))) = u mod 256 \<and> (flag fC m' \<longleftrightarrow> 0 \<le> u) \<and>
       (flag fZ m' \<longleftrightarrow> A (cpu m') = 0) \<and> (flag fN m' \<longleftrightarrow> sint (A (cpu m')) < 0) \<and>
       (flag fV m' \<longleftrightarrow> s < -128 \<or> 127 < s)"
  using sbc_binary [OF assms] by (simp add: Let_def)

theorem ac_Execute_SBC_binary_witness:
  "int (unat (A (cpu (ac_Execute_SBC 0x10 (set_A 0x0F machine_image))))) = 254 \<and>
   \<not> flag fC (ac_Execute_SBC 0x10 (set_A 0x0F machine_image))"
  using ac_Execute_SBC_binary [of "set_A 0x0F machine_image" "0x10"]
  by (simp add: flag_def Let_def)

text \<open>
  C25. Decimal ADC adds two-digit decimal numbers: if A and the operand hold two decimal digits each,
  the result holds two decimal digits, their value is the decimal sum with carry modulo 100, and
  the carry is set exactly when the sum reaches 100.
\<close>

theorem ac_Execute_ADC_decimal:
  assumes "flag fD m" and "bcd (A (cpu m))" and "bcd v"
  shows "let m' = ac_Execute_ADC v m; s = bcd_val (A (cpu m)) + bcd_val v + of_bool (flag fC m)
    in bcd (A (cpu m')) \<and> bcd_val (A (cpu m')) = s mod 100 \<and> (flag fC m' \<longleftrightarrow> 100 \<le> s)"
  using adc_bcd [OF assms] by (simp add: Let_def)

theorem ac_Execute_ADC_decimal_witness:
  "bcd_val (A (cpu (ac_Execute_ADC 0x47 (set_flag fD True (set_A 0x85 machine_image))))) = 32 \<and>
   flag fC (ac_Execute_ADC 0x47 (set_flag fD True (set_A 0x85 machine_image)))"
  using ac_Execute_ADC_decimal [of "set_flag fD True (set_A 0x85 machine_image)" "0x47"]
  by (simp add: bcd_def bcd_val_def Let_def) (simp add: flag_def)

text \<open>
  A comparison orders its operands: after CMP, CPX or CPY the carry says that the register is at
  least the operand, Z that they are equal and N that their byte difference is negative; the
  registers and memory are unchanged.
\<close>

theorem comparisons_order:
  "(let m' = ac_Execute_CMP v m; r = A (cpu m)
   in (flag fC m' \<longleftrightarrow> unat v \<le> unat r) \<and> (flag fZ m' \<longleftrightarrow> r = v) \<and>
      (flag fN m' \<longleftrightarrow> sint (r - v) < 0) \<and> A (cpu m') = r \<and> mem m' = mem m) \<and>
   (let m' = ac_Execute_CPX v m; r = X (cpu m)
   in (flag fC m' \<longleftrightarrow> unat v \<le> unat r) \<and> (flag fZ m' \<longleftrightarrow> r = v) \<and>
      (flag fN m' \<longleftrightarrow> sint (r - v) < 0) \<and> X (cpu m') = r \<and> mem m' = mem m) \<and>
   (let m' = ac_Execute_CPY v m; r = Y (cpu m)
   in (flag fC m' \<longleftrightarrow> unat v \<le> unat r) \<and> (flag fZ m' \<longleftrightarrow> r = v) \<and>
      (flag fN m' \<longleftrightarrow> sint (r - v) < 0) \<and> Y (cpu m') = r \<and> mem m' = mem m)"
  unfolding Let_def ac_Execute_CMP_def ac_Execute_CPX_def ac_Execute_CPY_def compare_flags
  by (simp_all add: compare_reg_def Let_def)

text \<open>
  The shifts lose nothing: ROR undoes ROL and ROL undoes ROR on the byte and the carry; ASL
  doubles the byte with the carry as the ninth bit; LSR halves it with the remainder in the carry.
\<close>

theorem shifts_and_rotates:
  "(case ac_Execute_ROL v m of (w, m1) \<Rightarrow> case ac_Execute_ROR w m1 of (x, m2) \<Rightarrow>
      x = v \<and> flag fC m2 = flag fC m) \<and>
   (case ac_Execute_ROR v m of (w, m1) \<Rightarrow> case ac_Execute_ROL w m1 of (x, m2) \<Rightarrow>
      x = v \<and> flag fC m2 = flag fC m) \<and>
   (case ac_Execute_ASL v m of (w, m1) \<Rightarrow> unat w + 256 * of_bool (flag fC m1) = 2 * unat v) \<and>
   (case ac_Execute_LSR v m of (w, m1) \<Rightarrow> 2 * unat w + of_bool (flag fC m1) = unat v)"
  using asl_double [of v m] lsr_half [of v m] rol_ror [of v m] ror_rol [of v m]
  by (auto split: prod.split)

end
