(* ===== verification/Apple_Stack.thy ===== *)
theory Apple_Stack
  imports Apple_Demo
begin

text \<open>
  Page 1 as the stack of the CPU.  The interface \<open>lifo\<close> says what a push and a pop do to a
  256-entry window of the stack; its client lemma is that pops return what was pushed, in reverse.
  The interpretation is \<^verbatim>\<open>ac_PushStackByte\<close> and \<^verbatim>\<open>ac_PopStackByte\<close>, whose pointer wraps inside the page.
  The instruction pairs built on the stack (JSR/RTS, BRK/RTI, PHP/PLP, PHA/PLA) follow.
\<close>

subsection \<open>Interface\<close>

fun pushes :: "('v \<Rightarrow> 's \<Rightarrow> 's option) \<Rightarrow> 'v list \<Rightarrow> 's \<Rightarrow> 's option" where
  "pushes push [] s = Some s"
| "pushes push (v # vs) s = do { s \<leftarrow> push v s; pushes push vs s }"

fun pops :: "('s \<Rightarrow> ('v \<times> 's) option) \<Rightarrow> nat \<Rightarrow> 's \<Rightarrow> ('v list \<times> 's) option" where
  "pops pop 0 s = Some ([], s)"
| "pops pop (Suc n) s = do { (v, s) \<leftarrow> pop s; (vs, s) \<leftarrow> pops pop n s; Some (v # vs, s) }"

locale lifo =
  fixes push :: "'v \<Rightarrow> 's \<Rightarrow> 's option" and pop :: "'s \<Rightarrow> ('v \<times> 's) option"
    and view :: "'s \<Rightarrow> nat \<Rightarrow> 'v" and pos :: "'s \<Rightarrow> u8"
  assumes push_total: "\<exists>s'. push v s = Some s'"
    and push_top: "push v s = Some s' \<Longrightarrow> view s' 0 = v"
    and push_below: "push v s = Some s' \<Longrightarrow> i < 255 \<Longrightarrow> view s' (Suc i) = view s i"
    and push_pos: "push v s = Some s' \<Longrightarrow> pos s' = pos s - 1"
    and pop_view: "\<exists>s'. pop s = Some (view s 0, s') \<and> pos s' = pos s + 1 \<and> (\<forall>i. view s' i = view s (Suc i))"
begin

lemma pushes_view:
  assumes "length vs + k \<le> 256"
  shows "\<exists>s'. pushes push vs s = Some s' \<and> pos s' = pos s - of_nat (length vs) \<and>
    (\<forall>i < length vs. view s' i = rev vs ! i) \<and> (\<forall>i < k. view s' (length vs + i) = view s i)"
  using assms
proof (induction vs arbitrary: s k)
  case (Cons v vs)
  obtain s1 where s1: "push v s = Some s1" using push_total by blast
  obtain s' where s': "pushes push vs s1 = Some s'" "pos s' = pos s1 - of_nat (length vs)"
    "\<forall>i < length vs. view s' i = rev vs ! i" "\<forall>i < Suc k. view s' (length vs + i) = view s1 i"
    using Cons.IH [of "Suc k" s1] Cons.prems by auto
  have top: "view s' (length vs) = v"
    using s'(4) [rule_format, of 0] push_top [OF s1] by simp
  have "view s' (length (v # vs) + i) = view s i" if "i < k" for i
    using s'(4) [rule_format, of "Suc i"] push_below [OF s1, of i] that Cons.prems by simp
  with s1 s' top push_pos [OF s1] show ?case
    by (auto simp: nth_append less_Suc_eq)
qed simp

lemma pops_view:
  "\<exists>s'. pops pop n s = Some (map (view s) [0..<n], s') \<and> pos s' = pos s + of_nat n"
proof (induction n arbitrary: s)
  case (Suc n)
  obtain s1 where s1: "pop s = Some (view s 0, s1)" "pos s1 = pos s + 1" "\<forall>i. view s1 i = view s (Suc i)"
    using pop_view by blast
  moreover have "map (view s) [0..<Suc n] = view s 0 # map (view s1) [0..<n]"
    using s1(3) by (simp add: upt_conv_Cons map_Suc_upt [symmetric] del: upt_Suc)
  ultimately show ?case using Suc.IH [of s1] by (auto simp: add.assoc)
qed simp

lemma pops_pushes:
  assumes "length vs \<le> 256"
  shows "\<exists>s1 s2. pushes push vs s = Some s1 \<and> pops pop (length vs) s1 = Some (rev vs, s2) \<and> pos s2 = pos s"
proof -
  obtain s1 where s1: "pushes push vs s = Some s1" "pos s1 = pos s - of_nat (length vs)"
    "\<forall>i < length vs. view s1 i = rev vs ! i"
    using pushes_view [of vs 0 s] assms by auto
  then have "map (view s1) [0..<length vs] = rev vs"
    by (auto intro: nth_equalityI)
  with s1 pops_view [of "length vs" s1] show ?thesis by auto
qed

end

subsection \<open>Page 1\<close>

lemma stack_address [simp]: "unat (0x100 + ucast (s :: u8) :: u16) = 256 + unat s"
  using unat_u8_lt [of s] by (simp add: unat_word_ariths del: unat_u8_lt)

lemma stack_in_ram [simp]: "256 + unat (s :: u8) < RAMSIZE"
  using unat_u8_lt [of s] by (simp add: size_defs del: unat_u8_lt) 

lemma sp_neq [simp]: "unat (s - 1) \<noteq> unat s" "unat s \<noteq> unat (s - 1)" "unat (s - 2) \<noteq> unat s" "unat s \<noteq> unat (s - 2)"
  "unat (s - 2) \<noteq> unat (s - 1)" "unat (s - 1) \<noteq> unat (s - 2)" for s :: u8
  by (simp_all add: word_unat_eq_iff [symmetric])

lemma low_byte_cast [simp]: "(ucast (w AND 0xFF) :: u8) = ucast w" for w :: u16
proof -
  have ff: "(0xFF :: u16) = mask 8"
    by (simp add: mask_eq_exp_minus_1)
  show ?thesis
    unfolding ff by (rule bit_word_eqI) (auto simp: bit_simps)
qed

lemmas stack_defs = ac_GetStackAddress_def STACK_ADDRESS_def safeDec_def safeInc_def ac_WriteByte_def ac_ReadByte_def

lemma stack_write: "mem_WriteByte (0x100 + ucast (s :: u8)) v m =
    Some (m\<lparr>mem := mem m\<lparr>ram := (ram (mem m))(256 + unat s := v)\<rparr>\<rparr>)"
  by simp

lemma stack_read: "mem_ReadByte (0x100 + ucast (s :: u8)) m = Some (ram (mem m) (256 + unat s), m)"
  by simp

lemma vector_read:
  "\<not> LCReadable (mem m) \<Longrightarrow> mem_ReadByte 0xFFFE m = Some (rom (mem m) 0x2FFE, m)"
  "\<not> LCReadable (mem m) \<Longrightarrow> mem_ReadByte 0xFFFF m = Some (rom (mem m) 0x2FFF, m)"
  by (simp_all add: read_high size_defs)

lemma push_byte:
  "ac_PushStackByte v m = Some (m\<lparr>mem := mem m\<lparr>ram := (ram (mem m))(256 + unat (SP (cpu m)) := v)\<rparr>,
     cpu := cpu m\<lparr>SP := SP (cpu m) - 1\<rparr>\<rparr>)"
  by (simp add: ac_PushStackByte_def stack_defs)

lemma pop_byte:
  "ac_PopStackByte m = Some (ram (mem m) (256 + unat (SP (cpu m) + 1)), m\<lparr>cpu := cpu m\<lparr>SP := SP (cpu m) + 1\<rparr>\<rparr>)"
  by (simp add: ac_PopStackByte_def stack_defs)

lemma push_word:
  "ac_PushStackWord w m = Some (m\<lparr>mem := mem m\<lparr>ram := (ram (mem m))
       (256 + unat (SP (cpu m)) := ucast (drop_bit 8 w), 256 + unat (SP (cpu m) - 1) := ucast w)\<rparr>,
     cpu := cpu m\<lparr>SP := SP (cpu m) - 2\<rparr>\<rparr>)"
  by (simp add: ac_PushStackWord_def stack_defs)
lemma pop_word:
  "ac_PopStackWord m = Some (mk_word (ram (mem m) (256 + unat (SP (cpu m) + 1))) (ram (mem m) (256 + unat (SP (cpu m) + 2))),
     m\<lparr>cpu := cpu m\<lparr>SP := SP (cpu m) + 2\<rparr>\<rparr>)"
  by (simp add: ac_PopStackWord_def stack_defs add.assoc)

text \<open>Entry \<open>i\<close> below the top of the stack.\<close>

definition stack_view :: "machine \<Rightarrow> nat \<Rightarrow> u8" where
  "stack_view m i = ram (mem m) (256 + unat (SP (cpu m) + of_nat (Suc i)))"

lemma view_index: "i < 255 \<Longrightarrow> unat (s + of_nat (Suc i)) \<noteq> unat s" for s :: u8
proof
  assume i: "i < 255" and "unat (s + of_nat (Suc i)) = unat s"
  then have "of_nat (Suc i) = (0 :: u8)"
    by (simp add: word_unat_eq_iff [symmetric] del: of_nat_Suc)
  then have "256 dvd Suc i"
    unfolding word_of_nat_eq_0_iff by simp
  then show False
    using i by (auto dest: dvd_imp_le)
qed

lemma view_shift:
  "s - 1 + of_nat (Suc 0) = s" "s - 1 + of_nat (Suc (Suc i)) = s + of_nat (Suc i)"
  "s + 1 + of_nat (Suc i) = s + of_nat (Suc (Suc i))" "s + of_nat (Suc 0) = s + 1" for s :: u8
  by simp_all

interpretation stk: lifo ac_PushStackByte ac_PopStackByte stack_view "\<lambda>m. SP (cpu m)"
  by unfold_locales
     (auto simp: push_byte pop_byte stack_view_def view_index view_shift simp del: of_nat_Suc)

subsection \<open>Properties\<close>

text \<open>
  C26. The stack is last-in first-out, across the wrap of its pointer: up to 256 bytes pushed on any
  machine come back in reverse order and leave the stack pointer where it was.
\<close>

theorem stack_lifo:
  assumes "length vs \<le> 256"
  shows "\<exists>m1 m2. pushes ac_PushStackByte vs m = Some m1 \<and>
    pops ac_PopStackByte (length vs) m1 = Some (rev vs, m2) \<and> SP (cpu m2) = SP (cpu m)"
  using stk.pops_pushes [OF assms] by blast

theorem stack_lifo_witness:
  "\<exists>m1 m2. pushes ac_PushStackByte [1, 2, 3] machine_image = Some m1 \<and>
    pops ac_PopStackByte 3 m1 = Some ([3, 2, 1], m2) \<and> SP (cpu m2) = 0"
  using stack_lifo [of "[1, 2, 3]" machine_image] by (simp add: numeral_3_eq_3)

text \<open>
  C27. JSR calls and RTS returns: with the operand of JSR in RAM, JSR jumps to the address it names
  and an RTS executed next continues after the JSR, with every register restored except the
  budget, of which the pair spends three.
\<close>

theorem JSR_RTS_roundtrip:
  assumes "unat (PC (cpu m)) + 1 < RAMSIZE"
  shows "\<exists>m1 m2. op_JSR m = Some m1 \<and>
    PC (cpu m1) = mk_word (ram (mem m) (unat (PC (cpu m)))) (ram (mem m) (unat (PC (cpu m)) + 1)) \<and>
    op_RTS m1 = Some m2 \<and> cpu m2 = cpu m\<lparr>PC := PC (cpu m) + 2, cycle := cycle (cpu m) - 3\<rparr> \<and>
    dev m2 = dev m"
proof -
  have "unat (PC (cpu m) + 1) = unat (PC (cpu m)) + 1"
    using assms by (simp add: unat_word_ariths size_defs)
  then show ?thesis using assms
    by (simp add: op_JSR_def op_RTS_def stack_defs push_word pop_word spend_def)
qed

theorem JSR_RTS_roundtrip_witness:
  "\<exists>m1 m2. op_JSR (program [0x34, 0x12]) = Some m1 \<and> PC (cpu m1) = 0x1234 \<and> op_RTS m1 = Some m2 \<and>
     PC (cpu m2) = 2"
  using JSR_RTS_roundtrip [of "program [0x34, 0x12]"]
  by (auto simp: demo_cpu RAMSIZE_def) (auto simp: program_def mem_image_def mk_word_def)

text \<open>
  BRK enters the interrupt handler and RTI leaves it: with ROM mapped, BRK continues at the
  vector \<^verbatim>\<open>$FFFE\<close> with interrupts disabled and decimal mode off, and RTI restores every register and
  flag, except that the B bit is set in the restored status and the return address is one past
  the BRK operand position.
\<close>

theorem BRK_RTI_roundtrip:
  assumes "\<not> LCReadable (mem m)"
  shows "\<exists>m1 m2. op_BRK m = Some m1 \<and> PC (cpu m1) = mk_word (rom (mem m) 0x2FFE) (rom (mem m) 0x2FFF) \<and>
    flag fI m1 \<and> \<not> flag fD m1 \<and> op_RTI m1 = Some m2 \<and>
    cpu m2 = cpu m\<lparr>PC := PC (cpu m) + 1, PS := PS (cpu m) OR FLAG_BREAK, cycle := cycle (cpu m) - 5\<rparr>"
  using assms unfolding op_BRK_def op_RTI_def Let_def stack_defs
  by (simp add: stack_write stack_read vector_read spend_def flag_def set_flag_def
      mk_word_parts [unfolded mk_word_def])

theorem BRK_RTI_roundtrip_witness:
  "\<exists>m1 m2. op_BRK (program []) = Some m1 \<and> PC (cpu m1) = 0 \<and> flag fI m1 \<and> op_RTI m1 = Some m2 \<and>
     PS (cpu m2) = 0x10 \<and> PC (cpu m2) = 1"
  using BRK_RTI_roundtrip [of "program []"]
  by (auto simp: demo_cpu FLAG_BREAK_def) (auto simp: program_def mem_image_def mk_word_def)

text \<open>
  PHP/PLP and PHA/PLA restore what they save: PLP after PHP gives back the status byte with the
  B and unused bits set; PLA after PHA gives back the accumulator whatever it was set to in
  between; both leave the stack pointer where it was.
\<close>

theorem push_pull_roundtrip:
  "(\<exists>m1 m2. op_PHP m = Some m1 \<and> op_PLP m1 = Some m2 \<and>
      cpu m2 = cpu m\<lparr>PS := PS (cpu m) OR FLAG_BREAK OR FLAG_UNUSED\<rparr>) \<and>
   (\<exists>m1 m2. op_PHA m = Some m1 \<and> op_PLA (set_A v m1) = Some m2 \<and>
      A (cpu m2) = A (cpu m) \<and> SP (cpu m2) = SP (cpu m))"
  by (simp add: op_PHP_def op_PLP_def op_PHA_def op_PLA_def push_byte pop_byte spend_def or.assoc
      ac_SetZeroNegative_def set_flag_def)

text \<open>
  \<^verbatim>\<open>mem_WriteWord\<close> and \<^verbatim>\<open>mem_ReadWord\<close> disagree on byte order: a word written to RAM and read back
  comes back with its two bytes exchanged.
\<close>

theorem word_write_read_swaps:
  assumes "unat a + 1 < RAMSIZE"
  shows "\<exists>m1. mem_WriteWord w a m = Some m1 \<and>
    mem_ReadWord a m1 = Some (mk_word (ucast (drop_bit 8 w)) (ucast w), m1)"
proof -
  have "unat (a + 1) = unat a + 1"
    using assms by (simp add: unat_word_ariths size_defs)
  then show ?thesis using assms
    by (simp add: mem_WriteWord_def mem_ReadWord_def)
qed

theorem word_write_read_swaps_witness:
  "\<exists>m1. mem_WriteWord 0x1234 0 machine_image = Some m1 \<and> mem_ReadWord 0 m1 = Some (0x3412, m1)"
  using word_write_read_swaps [of 0 "0x1234" machine_image] by (simp add: RAMSIZE_def mk_word_def)

end
