(* ===== verification/Loops.thy ===== *)
theory Loops
  imports Prelude
begin

text \<open>
  Counting loops over fallible state transformers.  \<open>for_range a b body\<close> is
  \<^verbatim>\<open>for (i = a; i < b; i++) body\<close>; it stops at the first fault.  \<open>ends P r\<close> says that \<open>r\<close> is a
  result, not a fault, and that it satisfies \<open>P\<close>: total correctness, in the style of a \<open>runs to\<close>
  judgement, with one rule per construct.
\<close>

definition for_range :: "nat \<Rightarrow> nat \<Rightarrow> (nat \<Rightarrow> 's \<Rightarrow> 's option) \<Rightarrow> 's \<Rightarrow> 's option" where
  "for_range a b body s = fold (\<lambda>i r. Option.bind r (body i)) [a..<b] (Some s)"

definition ends :: "('s \<Rightarrow> bool) \<Rightarrow> 's option \<Rightarrow> bool" where
  "ends P r = (case r of None \<Rightarrow> False | Some s \<Rightarrow> P s)"

lemma ends_Some [simp]: "ends P (Some s) = P s"
  by (simp add: ends_def)

lemma ends_None [simp]: "\<not> ends P None"
  by (simp add: ends_def)

lemma ends_iff: "ends P r \<longleftrightarrow> (\<exists>s. r = Some s \<and> P s)"
  by (cases r) simp_all

lemma ends_bind: "ends P (Option.bind r g) \<longleftrightarrow> ends (\<lambda>s. ends P (g s)) r"
  by (cases r) simp_all

lemma ends_mono: "ends P r \<Longrightarrow> (\<And>s. P s \<Longrightarrow> Q s) \<Longrightarrow> ends Q r"
  by (cases r) simp_all

lemma for_range_empty [simp]: "b \<le> a \<Longrightarrow> for_range a b body s = Some s"
  by (simp add: for_range_def)

lemma for_range_Suc: "a \<le> b \<Longrightarrow> for_range a (Suc b) body s = Option.bind (for_range a b body s) (body b)"
  by (simp add: for_range_def)

text \<open>The loop rule: an invariant indexed by the counter.\<close>

lemma for_range_ends:
  assumes "a \<le> b" and "I a s"
    and step: "\<And>i s. a \<le> i \<Longrightarrow> i < b \<Longrightarrow> I i s \<Longrightarrow> ends (I (Suc i)) (body i s)"
  shows "ends (I b) (for_range a b body s)"
proof -
  have "a + n \<le> b \<Longrightarrow> ends (I (a + n)) (for_range a (a + n) body s)" for n
  proof (induction n)
    case 0
    then show ?case using assms(2) by simp
  next
    case (Suc n)
    then have "ends (I (a + n)) (for_range a (a + n) body s)" by simp
    then show ?case
      using Suc.prems by (auto simp: for_range_Suc ends_bind intro!: step elim!: ends_mono)
  qed
  from this[of "b - a"] assms(1) show ?thesis by simp
qed

text \<open>A loop whose rounds have a closed form has one.\<close>

lemma for_range_closed:
  assumes "a \<le> b" and "F a = s" and "\<And>i. a \<le> i \<Longrightarrow> i < b \<Longrightarrow> body i (F i) = Some (F (Suc i))"
  shows "for_range a b body s = Some (F b)"
proof -
  have "ends (\<lambda>t. t = F b) (for_range a b body s)"
    by (rule for_range_ends[where I = "\<lambda>i t. t = F i"]) (use assms in auto)
  then show ?thesis by (auto simp: ends_iff)
qed

lemma for_range_cong:
  assumes "\<And>i s. a \<le> i \<Longrightarrow> i < b \<Longrightarrow> f i s = g i s"
  shows "for_range a b f s = for_range a b g s"
  unfolding for_range_def
proof (rule fold_cong[OF refl refl])
  fix i assume "i \<in> set [a..<b]"
  then have "f i = g i" using assms by auto
  then show "(\<lambda>r. Option.bind r (f i)) = (\<lambda>r. Option.bind r (g i))" by simp
qed

end
