(* ===== verification/Apple_Video.thy ===== *)
theory Apple_Video
  imports Apple_Mem Loops
begin

text \<open>
  The screen of the emulated machine: the renderer of \<^verbatim>\<open>AppleDevice.c\<close> and the fonts of \<^verbatim>\<open>AppleFont.c\<close>.
  The back buffer \<^verbatim>\<open>colorbuffer\<close> has one byte per pixel, 280 by 192; writing outside it is a fault.
  Only memory that was last rendered differently is redrawn, except on every thirtieth frame.  The
  font tables are filled once and then only read, so the renderer takes them as an argument.
\<close>

definition FONT_X :: nat where "FONT_X = 7"
definition FONT_Y :: nat where "FONT_Y = 8"
definition FONT_NUM :: nat where "FONT_NUM = 128"
definition SCREENTEXT_X :: nat where "SCREENTEXT_X = 40"
definition SCREENTEXT_Y :: nat where "SCREENTEXT_Y = 24"

lemmas video_defs = FONT_X_def FONT_Y_def FONT_NUM_def SCREENTEXT_X_def SCREENTEXT_Y_def
  SCREENSIZE_X_def SCREENSIZE_Y_def

record fonts =
  af_font :: "nat \<Rightarrow> nat \<Rightarrow> u8"
  af_invfont :: "nat \<Rightarrow> nat \<Rightarrow> u8"

definition offsetGR :: "u16 list" where
  "offsetGR =
    [
     0x000, 0x080, 0x100, 0x180, 0x200, 0x280, 0x300, 0x380, 0x028, 0x0A8, 0x128, 0x1A8, 0x228,
     0x2A8, 0x328, 0x3A8, 0x050, 0x0D0, 0x150, 0x1D0, 0x250, 0x2D0, 0x350, 0x3D0]"

definition offsetHGR :: "u16 list" where
  "offsetHGR =
    [
     0x0000, 0x0400, 0x0800, 0x0C00, 0x1000, 0x1400, 0x1800, 0x1C00, 0x0080, 0x0480, 0x0880, 0x0C80,
     0x1080, 0x1480, 0x1880, 0x1C80, 0x0100, 0x0500, 0x0900, 0x0D00, 0x1100, 0x1500, 0x1900, 0x1D00,
     0x0180, 0x0580, 0x0980, 0x0D80, 0x1180, 0x1580, 0x1980, 0x1D80, 0x0200, 0x0600, 0x0A00, 0x0E00,
     0x1200, 0x1600, 0x1A00, 0x1E00, 0x0280, 0x0680, 0x0A80, 0x0E80, 0x1280, 0x1680, 0x1A80, 0x1E80,
     0x0300, 0x0700, 0x0B00, 0x0F00, 0x1300, 0x1700, 0x1B00, 0x1F00, 0x0380, 0x0780, 0x0B80, 0x0F80,
     0x1380, 0x1780, 0x1B80, 0x1F80, 0x0028, 0x0428, 0x0828, 0x0C28, 0x1028, 0x1428, 0x1828, 0x1C28,
     0x00A8, 0x04A8, 0x08A8, 0x0CA8, 0x10A8, 0x14A8, 0x18A8, 0x1CA8, 0x0128, 0x0528, 0x0928, 0x0D28,
     0x1128, 0x1528, 0x1928, 0x1D28, 0x01A8, 0x05A8, 0x09A8, 0x0DA8, 0x11A8, 0x15A8, 0x19A8, 0x1DA8,
     0x0228, 0x0628, 0x0A28, 0x0E28, 0x1228, 0x1628, 0x1A28, 0x1E28, 0x02A8, 0x06A8, 0x0AA8, 0x0EA8,
     0x12A8, 0x16A8, 0x1AA8, 0x1EA8, 0x0328, 0x0728, 0x0B28, 0x0F28, 0x1328, 0x1728, 0x1B28, 0x1F28,
     0x03A8, 0x07A8, 0x0BA8, 0x0FA8, 0x13A8, 0x17A8, 0x1BA8, 0x1FA8, 0x0050, 0x0450, 0x0850, 0x0C50,
     0x1050, 0x1450, 0x1850, 0x1C50, 0x00D0, 0x04D0, 0x08D0, 0x0CD0, 0x10D0, 0x14D0, 0x18D0, 0x1CD0,
     0x0150, 0x0550, 0x0950, 0x0D50, 0x1150, 0x1550, 0x1950, 0x1D50, 0x01D0, 0x05D0, 0x09D0, 0x0DD0,
     0x11D0, 0x15D0, 0x19D0, 0x1DD0, 0x0250, 0x0650, 0x0A50, 0x0E50, 0x1250, 0x1650, 0x1A50, 0x1E50,
     0x02D0, 0x06D0, 0x0AD0, 0x0ED0, 0x12D0, 0x16D0, 0x1AD0, 0x1ED0, 0x0350, 0x0750, 0x0B50, 0x0F50,
     0x1350, 0x1750, 0x1B50, 0x1F50, 0x03D0, 0x07D0, 0x0BD0, 0x0FD0, 0x13D0, 0x17D0, 0x1BD0, 0x1FD0]"

subsection \<open>Pixels\<close>

definition set_pixel :: "int \<Rightarrow> int \<Rightarrow> u8 \<Rightarrow> bytes \<Rightarrow> bytes option" where
  "set_pixel x y v buf =
     (let i = y * int SCREENSIZE_X + x
      in if 0 \<le> i \<and> i < int (SCREENSIZE_X * SCREENSIZE_Y) then Some (buf(nat i := v)) else None)"

definition upd_buffer :: "(bytes \<Rightarrow> bytes option) \<Rightarrow> dev_state \<Rightarrow> dev_state option" where
  "upd_buffer f d = map_option (\<lambda>buf. d\<lparr>colorbuffer := buf\<rparr>) (f (colorbuffer d))"

definition ad_ClearScreen :: "dev_state \<Rightarrow> dev_state option" where
  "ad_ClearScreen = upd_buffer (for_range 0 SCREENSIZE_Y (\<lambda>y. for_range 0 SCREENSIZE_X (\<lambda>x.
     set_pixel (int x) (int y) 0)))"

definition ad_DrawPixelIndex :: "int \<Rightarrow> int \<Rightarrow> u8 \<Rightarrow> dev_state \<Rightarrow> dev_state option" where
  "ad_DrawPixelIndex x y index = upd_buffer (set_pixel x y index)"

definition ad_DrawRectIndex :: "rect \<Rightarrow> u8 \<Rightarrow> dev_state \<Rightarrow> dev_state option" where
  "ad_DrawRectIndex r index = for_range 0 (nat (rheight r)) (\<lambda>y. for_range 0 (nat (rwidth r)) (\<lambda>x.
     ad_DrawPixelIndex (rx r + int x) (ry r + int y) index))"

text \<open>The index \<^verbatim>\<open>pos\<close> of the loops in \<^verbatim>\<open>af_RenderFont\<close> is \<open>y * FONT_X + x\<close>.\<close>

definition af_RenderFont :: "fonts \<Rightarrow> nat \<Rightarrow> int \<Rightarrow> int \<Rightarrow> bool \<Rightarrow> bytes \<Rightarrow> bytes option" where
  "af_RenderFont F fontnum posx posy reversed = for_range 0 FONT_Y (\<lambda>y. for_range 0 FONT_X (\<lambda>x buf. do {
     c \<leftarrow> (if fontnum < FONT_NUM
          then arr_get (FONT_X * FONT_Y) (if reversed then af_invfont F fontnum else af_font F fontnum) (y * FONT_X + x)
          else None);
     set_pixel (posx + int x) (posy + int y) (if c = 1 then 15 else 0) buf }))"

subsection \<open>The renderer\<close>

abbreviation upd_dev :: "(dev_state \<Rightarrow> dev_state) \<Rightarrow> machine \<Rightarrow> machine" where
  "upd_dev f m \<equiv> m\<lparr>dev := f (dev m)\<rparr>"

definition on_dev :: "(dev_state \<Rightarrow> dev_state option) \<Rightarrow> machine \<Rightarrow> machine option" where
  "on_dev f m = map_option (\<lambda>d. m\<lparr>dev := d\<rparr>) (f (dev m))"

text \<open>One block of the low-resolution screen.\<close>

definition lores_cell :: "nat \<Rightarrow> nat \<Rightarrow> machine \<Rightarrow> machine option" where
  "lores_cell col line m = do {
     let m = upd_dev (\<lambda>d. d\<lparr>pixelGR := (pixelGR d)\<lparr>ry := int line * 8\<rparr>\<rparr>) m;
     (glyph, m) \<leftarrow> mem_ReadByte (videoAddress (dev m) + offsetGR ! line + of_nat col) m;
     if LoResCache (dev m) line col \<noteq> int (unat glyph) \<or> flashCycle (dev m) = 0 then do {
       let m = upd_dev (\<lambda>d. d\<lparr>LoResCache := (LoResCache d)(line := (LoResCache d line)(col := int (unat glyph)))\<rparr>) m;
       m \<leftarrow> on_dev (\<lambda>d. ad_DrawRectIndex (pixelGR d) (glyph AND 0x0F) d) m;
       let m = upd_dev (\<lambda>d. d\<lparr>pixelGR := (pixelGR d)\<lparr>ry := ry (pixelGR d) + 4\<rparr>\<rparr>) m;
       on_dev (\<lambda>d. ad_DrawRectIndex (pixelGR d) (drop_bit 4 (glyph AND 0xF0)) d) m }
     else Some m }"

definition render_lores :: "machine \<Rightarrow> machine option" where
  "render_lores m = do {
     let m = upd_dev (\<lambda>d. d\<lparr>videoAddress := ucast (videoPage d) * 0x0400\<rparr>) m;
     for_range 0 40 (\<lambda>col m. do {
       let m = upd_dev (\<lambda>d. d\<lparr>pixelGR := (pixelGR d)\<lparr>rx := int col * 7\<rparr>\<rparr>) m;
       for_range 0 (if mixedMode (dev m) then 20 else 24) (lores_cell col) m }) m }"

text \<open>\<open>bits w b\<close> is \<^verbatim>\<open>bits[b]\<close>.  The loop draws the fourteen dots of two bytes; bit 7 of each byte
  selects the colour set and is no dot.\<close>

definition bits :: "u16 \<Rightarrow> nat \<Rightarrow> u8" where
  "bits w b = ucast (drop_bit b w AND 1)"

function hires_dots :: "u16 \<Rightarrow> nat \<Rightarrow> u8 \<Rightarrow> u8 \<Rightarrow> u8 \<Rightarrow> int \<Rightarrow> int \<Rightarrow> dev_state \<Rightarrow> (u8 \<times> dev_state) option" where
  "hires_dots w b pbit colorSet dark x line d =
     (if b < 15 then
        let colorSet = (if b = 7 then bits w 15 * 4 else colorSet);
            b = (if b = 7 then b + 1 else b);
            colorIdx = dark + colorSet + push_bit 1 (bits w b) + pbit
        in do {
          d \<leftarrow> ad_DrawPixelIndex x line colorIdx d;
          hires_dots w (b + 1) (bits w b) colorSet (if dark \<noteq> 0 then 0 else 8) (x + 1) line d }
      else Some (pbit, d))"
  by auto
termination by (relation "measure (\<lambda>(w, b, _). 15 - b)") auto

declare hires_dots.simps [simp del]

definition set_previous :: "nat \<Rightarrow> nat \<Rightarrow> u8 \<Rightarrow> dev_state \<Rightarrow> dev_state" where
  "set_previous line col pbit d =
     (if col < 37 \<and> previousBit d line (col + 2) \<noteq> pbit then
        d\<lparr>previousBit := (previousBit d)(line := (previousBit d line)(col + 2 := pbit)),
          HiResCache := (HiResCache d)(line := (HiResCache d line)(col + 2 := -1))\<rparr>
      else d)"

definition hires_group :: "nat \<Rightarrow> nat \<Rightarrow> machine \<Rightarrow> machine option" where
  "hires_group line col m = do {
     (hi, m) \<leftarrow> mem_ReadByte (videoAddress (dev m) + offsetHGR ! line + of_nat col + 1) m;
     (lo, m) \<leftarrow> mem_ReadByte (videoAddress (dev m) + offsetHGR ! line + of_nat col) m;
     let word = (push_bit 8 (ucast hi) + ucast lo :: u16);
     if HiResCache (dev m) line col \<noteq> int (unat word) \<or> flashCycle (dev m) = 0 then
       on_dev (\<lambda>d. do {
         (pbit, d) \<leftarrow> hires_dots word 0 (previousBit d line col) (bits word 7 * 4) 0 (int col * 7) (int line) d;
         let d = d\<lparr>HiResCache := (HiResCache d)(line := (HiResCache d line)(col := int (unat word)))\<rparr>;
         Some (set_previous line col pbit d) }) m
     else Some m }"

definition render_hires :: "machine \<Rightarrow> machine option" where
  "render_hires m = do {
     let m = upd_dev (\<lambda>d. d\<lparr>videoAddress := ucast (videoPage d) * 0x2000\<rparr>) m;
     for_range 0 (if mixedMode (dev m) then 160 else 192) (\<lambda>line.
       for_range 0 20 (\<lambda>k. hires_group line (2 * k))) m }"

datatype fontattr = FONT_NORMAL | FONT_INVERSE | FONT_FLASH

definition glyph_attr :: "u8 \<Rightarrow> fontattr" where
  "glyph_attr glyph = (if glyph > 0x7F then FONT_NORMAL else if glyph < 0x40 then FONT_INVERSE else FONT_FLASH)"

definition glyph_code :: "u8 \<Rightarrow> u8" where
  "glyph_code glyph =
     (let glyph = glyph AND 0x7F;
          glyph = (if glyph > 0x5F then glyph AND 0x3F else glyph)
      in if glyph < 0x20 then glyph OR 0x40 else glyph)"

definition text_cell :: "fonts \<Rightarrow> int \<Rightarrow> nat \<Rightarrow> nat \<Rightarrow> machine \<Rightarrow> machine option" where
  "text_cell F frame col line m = do {
     (glyph, m) \<leftarrow> mem_ReadByte (videoAddress (dev m) + offsetGR ! line + of_nat col) m;
     let fontattr = glyph_attr glyph;
     let reversed = \<not> (fontattr = FONT_NORMAL \<or> fontattr = FONT_FLASH \<and> frame < 15);
     on_dev (upd_buffer (af_RenderFont F (unat (glyph_code glyph)) (int (col * FONT_X)) (int (line * FONT_Y)) reversed)) m }"

definition render_text :: "fonts \<Rightarrow> int \<Rightarrow> machine \<Rightarrow> machine option" where
  "render_text F frame m = do {
     let m = upd_dev (\<lambda>d. d\<lparr>videoAddress := ucast (videoPage d) * 0x0400\<rparr>) m;
     let linelimit = (if textMode (dev m) then 0 else 20);
     for_range 0 SCREENTEXT_X (\<lambda>col. for_range linelimit SCREENTEXT_Y (text_cell F frame col)) m }"

definition next_flash :: "dev_state \<Rightarrow> dev_state" where
  "next_flash d = (let d = d\<lparr>flashCycle := flashCycle d + 1\<rparr>
     in if flashCycle d = 30 then d\<lparr>flashCycle := 0\<rparr> else d)"

text \<open>The copy to the screen at the end calls \<^verbatim>\<open>k_drawPixel\<close> for every pixel, and that returns at once:
  it reads the buffer, inside its bounds, and shows nothing.\<close>

definition ad_Render :: "fonts \<Rightarrow> int \<Rightarrow> machine \<Rightarrow> machine option" where
  "ad_Render F frame m = do {
     let screenmode = ad_GetScreenMode (dev m);
     m \<leftarrow> (if screenmode = LORES_MODE \<or> screenmode = HIRES_MODE \<or> screenmode = LORES_MIX_MODE \<or>
             screenmode = HIRES_MIX_MODE
           then (if \<not> hires_Mode (dev m) then render_lores m else render_hires m) else Some m);
     m \<leftarrow> (if screenmode = TEXT_MODE \<or> screenmode = LORES_MIX_MODE \<or> screenmode = HIRES_MIX_MODE
           then render_text F frame m else Some m);
     Some (upd_dev next_flash m) }"

end
