(* ===== verification/Apple_Screen.thy ===== *)
theory Apple_Screen
  imports Apple_Video
begin

text \<open>
  What the renderer of the theory \<open>Apple_Video\<close> draws.  A reference picture is a function of the video
  memory alone; the lemmas show that the incremental renderer, with its caches, draws that picture.
\<close>

subsection \<open>Loops that paint rectangles\<close>

definition paint :: "nat \<Rightarrow> nat \<Rightarrow> nat \<Rightarrow> nat \<Rightarrow> (nat \<Rightarrow> nat \<Rightarrow> u8) \<Rightarrow> bytes \<Rightarrow> bytes" where
  "paint x0 w y0 h g buf = (\<lambda>i.
     if x0 \<le> i mod 280 \<and> i mod 280 < x0 + w \<and> y0 \<le> i div 280 \<and> i div 280 < y0 + h
     then g (i mod 280 - x0) (i div 280 - y0) else buf i)"

lemma set_pixel_in:
  "x < 280 \<Longrightarrow> y < 192 \<Longrightarrow> set_pixel (int x) (int y) v buf = Some (buf(y * 280 + x := v))"
  by (simp add: set_pixel_def Let_def video_defs nat_int_add flip: of_nat_add of_nat_mult)
     (metis add.commute nat_int_add of_nat_mult nat_int of_nat_numeral)

lemma pixel_coords: "x < 280 \<Longrightarrow> i = y * 280 + x \<longleftrightarrow> i mod 280 = x \<and> i div 280 = y" for i x y :: nat
  by (metis add.commute div_mult_mod_eq div_mult_self3 div_less mod_less mod_mult_self3 add_0 zero_neq_numeral)

lemma paint_empty [simp]: "paint x0 0 y0 h g buf = buf" "paint x0 w y0 0 g buf = buf"
  by (rule ext, auto simp: paint_def)+

lemma paint_row:
  assumes "x0 + w \<le> 280" "y < 192"
  shows "for_range 0 w (\<lambda>x. set_pixel (int x0 + int x) (int y) (g x)) buf = Some (paint x0 w y 1 (\<lambda>x _. g x) buf)"
proof (rule for_range_closed)
  fix i assume "i < w"
  then have "x0 + i < 280" using assms(1) by linarith
  then show "set_pixel (int x0 + int i) (int y) (g i) (paint x0 i y 1 (\<lambda>x _. g x) buf) =
      Some (paint x0 (Suc i) y 1 (\<lambda>x _. g x) buf)"
    using set_pixel_in[of "x0 + i" y "g i"] assms(2)
    by (auto simp: paint_def fun_eq_iff pixel_coords less_Suc_eq)
qed simp_all

lemma paint_block:
  assumes "x0 + w \<le> 280" "y0 + h \<le> 192"
  shows "for_range 0 h (\<lambda>y. for_range 0 w (\<lambda>x. set_pixel (int x0 + int x) (int y0 + int y) (g x y))) buf =
    Some (paint x0 w y0 h g buf)"
proof (rule for_range_closed)
  fix i assume "i < h"
  then have "y0 + i < 192" using assms(2) by linarith
  then have "for_range 0 w (\<lambda>x. set_pixel (int x0 + int x) (int (y0 + i)) (g x i)) (paint x0 w y0 i g buf) =
      Some (paint x0 w (y0 + i) 1 (\<lambda>x _. g x i) (paint x0 w y0 i g buf))"
    by (rule paint_row[OF assms(1)])
  also have "paint x0 w (y0 + i) 1 (\<lambda>x _. g x i) (paint x0 w y0 i g buf) = paint x0 w y0 (Suc i) g buf"
    by (auto simp: paint_def fun_eq_iff less_Suc_eq)
  finally show "for_range 0 w (\<lambda>x. set_pixel (int x0 + int x) (int y0 + int i) (g x i)) (paint x0 w y0 i g buf) =
      Some (paint x0 w y0 (Suc i) g buf)" by simp
qed simp_all

lemma for_range_upd_buffer:
  "for_range a b (\<lambda>i. upd_buffer (f i)) = upd_buffer (for_range a b f)"
proof (rule ext, goal_cases)
  case (1 d)
  show ?case
  proof (induction "b - a" arbitrary: b)
    case (Suc n)
    then obtain c where c: "b = Suc c" "a \<le> c" "n = c - a" by (cases b) auto
    with Suc.hyps(1)[of c] show ?case
      by (cases "for_range a c f (colorbuffer d)") (simp_all add: for_range_Suc upd_buffer_def)
  qed (simp add: upd_buffer_def)
qed

lemma draw_rect:
  assumes "rx r = int x0" "ry r = int y0" "rwidth r = int w" "rheight r = int h"
    and "x0 + w \<le> 280" "y0 + h \<le> 192"
  shows "ad_DrawRectIndex r v d = Some (d\<lparr>colorbuffer := paint x0 w y0 h (\<lambda>_ _. v) (colorbuffer d)\<rparr>)"
  using paint_block[OF assms(5,6), of "\<lambda>_ _. v" "colorbuffer d"]
  by (simp add: ad_DrawRectIndex_def ad_DrawPixelIndex_def assms(1-4) for_range_upd_buffer)
     (simp add: upd_buffer_def)

subsection \<open>Cells of the text grid\<close>

text \<open>\<open>tile P g buf\<close> repaints the 7 by 8 cells, by column and line, that \<open>P\<close> selects.\<close>

definition tile :: "(nat \<Rightarrow> nat \<Rightarrow> bool) \<Rightarrow> (nat \<Rightarrow> nat \<Rightarrow> nat \<Rightarrow> nat \<Rightarrow> u8) \<Rightarrow> bytes \<Rightarrow> bytes" where
  "tile P g buf = (\<lambda>i. let c = i mod 280 div 7; l = i div 280 div 8
     in if P c l then g c l (i mod 280 mod 7) (i div 280 mod 8) else buf i)"

lemma paint_cell: "paint (c * 7) 7 (l * 8) 8 (g c l) buf = tile (\<lambda>c' l'. c' = c \<and> l' = l) g buf"
proof (rule ext)
  fix i :: nat
  define px py where "px = i mod 280" and "py = i div 280"
  have x: "c * 7 \<le> px \<and> px < c * 7 + 7 \<longleftrightarrow> px div 7 = c" by (rule cell_coords) simp
  have y: "l * 8 \<le> py \<and> py < l * 8 + 8 \<longleftrightarrow> py div 8 = l" by (rule cell_coords) simp
  have "(if (c * 7 \<le> px \<and> px < c * 7 + 7) \<and> (l * 8 \<le> py \<and> py < l * 8 + 8)
      then g c l (px - c * 7) (py - l * 8) else buf i) =
    (if px div 7 = c \<and> py div 8 = l then g (px div 7) (py div 8) (px mod 7) (py mod 8) else buf i)"
    unfolding x y by (auto simp: cell_offset)
  then show "paint (c * 7) 7 (l * 8) 8 (g c l) buf i = tile (\<lambda>c' l'. c' = c \<and> l' = l) g buf i"
    unfolding paint_def tile_def Let_def px_def py_def conj_assoc .
qed

lemma tile_tile: "tile P g (tile Q g buf) = tile (\<lambda>c l. P c l \<or> Q c l) g buf"
  by (auto simp: tile_def Let_def fun_eq_iff)

lemma tile_none [simp]: "tile (\<lambda>c l. False) g buf = buf"
  by (simp add: tile_def Let_def)

lemma tile_same: "(\<And>i. P (i mod 280 div 7) (i div 280 div 8) \<Longrightarrow>
    buf i = g (i mod 280 div 7) (i div 280 div 8) (i mod 280 mod 7) (i div 280 mod 8)) \<Longrightarrow> tile P g buf = buf"
  by (auto simp: tile_def Let_def fun_eq_iff)

subsection \<open>What the renderer leaves alone\<close>

definition no_video :: "dev_state \<Rightarrow> dev_state" where
  "no_video d = d\<lparr>videoAddress := 0, pixelGR := \<lparr>rx = 0, ry = 0, rwidth = 0, rheight = 0\<rparr>,
     LoResCache := \<lambda>_ _. 0, HiResCache := \<lambda>_ _. 0, previousBit := \<lambda>_ _. 0, colorbuffer := \<lambda>_. 0\<rparr>"

lemma no_video_upd [simp]:
  "no_video (d\<lparr>videoAddress := a\<rparr>) = no_video d" "no_video (d\<lparr>pixelGR := r\<rparr>) = no_video d"
  "no_video (d\<lparr>LoResCache := lc\<rparr>) = no_video d" "no_video (d\<lparr>HiResCache := hc\<rparr>) = no_video d"
  "no_video (d\<lparr>previousBit := pb\<rparr>) = no_video d" "no_video (d\<lparr>colorbuffer := cb\<rparr>) = no_video d"
  by (simp_all add: no_video_def)

lemma no_videoD:
  assumes "no_video d = no_video e"
  shows "textMode d = textMode e" "mixedMode d = mixedMode e" "hires_Mode d = hires_Mode e"
    "videoPage d = videoPage e" "flashCycle d = flashCycle e"
  using arg_cong[OF assms, of textMode] arg_cong[OF assms, of mixedMode] arg_cong[OF assms, of hires_Mode]
    arg_cong[OF assms, of videoPage] arg_cong[OF assms, of flashCycle]
  by (simp_all add: no_video_def)

definition same_rest :: "machine \<Rightarrow> machine \<Rightarrow> bool" where
  "same_rest m m' \<longleftrightarrow> cpu m' = cpu m \<and> mem m' = mem m \<and> no_video (dev m') = no_video (dev m)"

lemma same_rest_refl [simp]: "same_rest m m"
  by (simp add: same_rest_def)

lemma same_restD:
  assumes "same_rest m m'"
  shows "mem m' = mem m" "textMode (dev m') = textMode (dev m)" "mixedMode (dev m') = mixedMode (dev m)"
    "hires_Mode (dev m') = hires_Mode (dev m)" "videoPage (dev m') = videoPage (dev m)"
    "flashCycle (dev m') = flashCycle (dev m)"
  using assms no_videoD[of "dev m'" "dev m"] by (auto simp: same_rest_def)

subsection \<open>Video memory\<close>

definition page_ok :: "machine \<Rightarrow> bool" where
  "page_ok m \<longleftrightarrow> videoPage (dev m) = 1 \<or> videoPage (dev m) = 2"

text \<open>The byte of a cell, by the layout of the Apple II: lines are interleaved in groups of eight, and in high resolution
  by the rows of a character cell too.\<close>

definition gr_byte :: "machine \<Rightarrow> nat \<Rightarrow> nat \<Rightarrow> u8" where
  "gr_byte m col line = ram (mem m) (unat (videoPage (dev m)) * 0x400 + (line mod 8 * 0x80 + line div 8 * 0x28) + col)"

definition hgr_byte :: "machine \<Rightarrow> nat \<Rightarrow> nat \<Rightarrow> u8" where
  "hgr_byte m col line = ram (mem m) (unat (videoPage (dev m)) * 0x2000 +
     (line mod 8 * 0x400 + line div 8 mod 8 * 0x80 + line div 64 * 0x28) + col)"

lemma offset_layout:
  "line < 24 \<Longrightarrow> unat (offsetGR ! line) = line mod 8 * 0x80 + line div 8 * 0x28"
  "line < 192 \<Longrightarrow> unat (offsetHGR ! line) = line mod 8 * 0x400 + line div 8 mod 8 * 0x80 + line div 64 * 0x28"
proof -
  have g: "map unat offsetGR = map (\<lambda>l. l mod 8 * 0x80 + l div 8 * 0x28) [0..<24]"
    by (simp add: offsetGR_def upt_rec)
  have h: "map unat offsetHGR = map (\<lambda>l. l mod 8 * 0x400 + l div 8 mod 8 * 0x80 + l div 64 * 0x28) [0..<192]"
    by (simp add: offsetHGR_def upt_rec)
  show "line < 24 \<Longrightarrow> unat (offsetGR ! line) = line mod 8 * 0x80 + line div 8 * 0x28"
    using arg_cong [OF g, of "\<lambda>xs. xs ! line"] arg_cong [OF g, of length] by simp
  show "line < 192 \<Longrightarrow> unat (offsetHGR ! line) = line mod 8 * 0x400 + line div 8 mod 8 * 0x80 + line div 64 * 0x28"
    using arg_cong [OF h, of "\<lambda>xs. xs ! line"] arg_cong [OF h, of length] by simp
qed

lemma offset_bounds:
  "line < 24 \<Longrightarrow> unat (offsetGR ! line) < 0x400" "line < 192 \<Longrightarrow> unat (offsetHGR ! line) < 0x2000"
proof -
  have "list_all (\<lambda>v. unat v < 0x400) offsetGR \<and> length offsetGR = 24" by (simp add: offsetGR_def)
  then show "line < 24 \<Longrightarrow> unat (offsetGR ! line) < 0x400" by (simp add: list_all_length)
  have "list_all (\<lambda>v. unat v < 0x2000) offsetHGR \<and> length offsetHGR = 192" by (simp add: offsetHGR_def)
  then show "line < 192 \<Longrightarrow> unat (offsetHGR ! line) < 0x2000" by (simp add: list_all_length)
qed

lemma unat_sum3:
  "unat a + unat b + n < 65536 \<Longrightarrow> unat (a + b + of_nat n) = unat a + unat b + n" for a b :: u16
  by (simp add: unat_word_ariths unat_of_nat take_bit_eq_mod mod_simps)

lemma unat_page:
  "p = 1 \<or> p = 2 \<Longrightarrow> unat (ucast (p :: u8) * 0x400 :: u16) = unat p * 0x400"
  "p = 1 \<or> p = 2 \<Longrightarrow> unat (ucast (p :: u8) * 0x2000 :: u16) = unat p * 0x2000"
  "p = 1 \<or> p = 2 \<Longrightarrow> unat p \<le> 2"
  by auto

lemma gr_read:
  assumes "page_ok m" "videoAddress (dev m) = ucast (videoPage (dev m)) * 0x0400" "line < 24" "col < 40"
  shows "mem_ReadByte (videoAddress (dev m) + offsetGR ! line + of_nat col) m = Some (gr_byte m col line, m)"
proof -
  note p = unat_page[OF assms(1)[unfolded page_ok_def]]
  have "unat (videoAddress (dev m) + offsetGR ! line + of_nat col) =
      unat (videoPage (dev m)) * 0x400 + unat (offsetGR ! line) + col"
    using offset_bounds(1)[OF assms(3)] assms(2,4) p by (subst unat_sum3) simp_all
  then show ?thesis
    using offset_bounds(1)[OF assms(3)] assms(4) p by (simp add: gr_byte_def RAMSIZE_def offset_layout(1)[OF assms(3)])
qed

lemma hgr_read:
  assumes "page_ok m" "videoAddress (dev m) = ucast (videoPage (dev m)) * 0x2000" "line < 192" "col < 41"
  shows "mem_ReadByte (videoAddress (dev m) + offsetHGR ! line + of_nat col) m = Some (hgr_byte m col line, m)"
proof -
  note p = unat_page[OF assms(1)[unfolded page_ok_def]]
  have "unat (videoAddress (dev m) + offsetHGR ! line + of_nat col) =
      unat (videoPage (dev m)) * 0x2000 + unat (offsetHGR ! line) + col"
    using offset_bounds(2)[OF assms(3)] assms(2,4) p by (subst unat_sum3) simp_all
  then show ?thesis
    using offset_bounds(2)[OF assms(3)] assms(4) p by (simp add: hgr_byte_def RAMSIZE_def offset_layout(2)[OF assms(3)])
qed

subsection \<open>Text\<close>

text \<open>The character and the font a text byte stands for.\<close>

definition text_char :: "u8 \<Rightarrow> nat" where
  "text_char glyph = (let n = unat glyph mod 128 in if n < 32 then n + 64 else if n < 96 then n else n - 64)"

definition text_pixel :: "fonts \<Rightarrow> int \<Rightarrow> u8 \<Rightarrow> nat \<Rightarrow> nat \<Rightarrow> u8" where
  "text_pixel F frame glyph x y =
     (let table = (if 128 \<le> unat glyph \<or> 64 \<le> unat glyph \<and> frame < 15 then af_font F else af_invfont F)
      in if table (text_char glyph) (y * 7 + x) = 1 then 15 else 0)"

lemma glyph_code_char: "unat (glyph_code g) = text_char g"
proof -
  have "list_all (\<lambda>n. unat (glyph_code (word_of_nat n)) = text_char (word_of_nat n)) [0..<256]" by code_simp
  then have "\<forall>n < 256. unat (glyph_code (word_of_nat n)) = text_char (word_of_nat n)" by (simp only: list_all_iff set_upt) simp
  then have "unat (glyph_code (word_of_nat (unat g))) = text_char (word_of_nat (unat g))" using unat_u8_lt by blast
  then show ?thesis by simp
qed

lemma glyph_attr_font:
  "glyph_attr g = FONT_NORMAL \<or> glyph_attr g = FONT_FLASH \<and> b \<longleftrightarrow> 128 \<le> unat g \<or> 64 \<le> unat g \<and> b"
  by (auto simp: glyph_attr_def word_less_nat_alt)

lemma text_char_lt: "text_char g < 128"
proof -
  have "unat g mod 128 < 128" by simp
  then show ?thesis unfolding text_char_def Let_def by (auto simp del: mod_less_divisor)
qed

lemma render_font:
  assumes "x0 + 7 \<le> 280" "y0 + 8 \<le> 192" "n < 128"
  shows "af_RenderFont F n (int x0) (int y0) r buf =
    Some (paint x0 7 y0 8 (\<lambda>x y. if (if r then af_invfont F n else af_font F n) (y * 7 + x) = 1 then 15 else 0) buf)"
proof -
  let ?t = "if r then af_invfont F n else af_font F n"
  let ?set = "\<lambda>y x. set_pixel (int x0 + int x) (int y0 + int y) (if ?t (y * 7 + x) = 1 then 15 else 0)"
  have 1: "arr_get 56 ?t (y * 7 + x) = Some (?t (y * 7 + x))" if "y < 8" "x < 7" for x y
    by (rule arr_get_in) (use that in simp)
  have "af_RenderFont F n (int x0) (int y0) r buf = for_range 0 8 (\<lambda>y. for_range 0 7 (?set y)) buf"
    unfolding af_RenderFont_def video_defs using assms(3)
    by (intro for_range_cong) (simp add: 1[simplified])
  also have "\<dots> = Some (paint x0 7 y0 8 (\<lambda>x y. if ?t (y * 7 + x) = 1 then 15 else 0) buf)"
    by (rule paint_block[OF assms(1,2)])
  finally show ?thesis .
qed

text \<open>A cell drawn by \<open>g\<close> into the buffer, everything else as before.\<close>

definition with_buffer :: "machine \<Rightarrow> bytes \<Rightarrow> machine" where
  "with_buffer m buf = m\<lparr>dev := (dev m)\<lparr>colorbuffer := buf\<rparr>\<rparr>"

lemma with_buffer_simps [simp]:
  "with_buffer (with_buffer m b) c = with_buffer m c" "with_buffer m (colorbuffer (dev m)) = m"
  "colorbuffer (dev (with_buffer m b)) = b" "gr_byte (with_buffer m b) = gr_byte m"
  "page_ok (with_buffer m b) = page_ok m" "videoAddress (dev (with_buffer m b)) = videoAddress (dev m)"
  "videoPage (dev (with_buffer m b)) = videoPage (dev m)" "same_rest m (with_buffer m b)"
  by (simp_all add: with_buffer_def gr_byte_def fun_eq_iff page_ok_def same_rest_def)

lemma text_cell_tile:
  assumes "page_ok m" "videoAddress (dev m) = ucast (videoPage (dev m)) * 0x0400" "line < 24" "col < 40"
  shows "text_cell F frame col line m = Some (with_buffer m
    (tile (\<lambda>c l. c = col \<and> l = line) (\<lambda>c l. text_pixel F frame (gr_byte m c l)) (colorbuffer (dev m))))"
proof -
  let ?g = "gr_byte m col line"
  let ?inv = "\<not> (128 \<le> unat ?g \<or> 64 \<le> unat ?g \<and> frame < 15)"
  have "af_RenderFont F (unat (glyph_code ?g)) (int (col * 7)) (int (line * 8))
      (\<not> (glyph_attr ?g = FONT_NORMAL \<or> glyph_attr ?g = FONT_FLASH \<and> frame < 15)) buf =
      Some (tile (\<lambda>c l. c = col \<and> l = line) (\<lambda>c l. text_pixel F frame (gr_byte m c l)) buf)" for buf
  proof -
    have g: "(\<lambda>x y. if (if ?inv then af_invfont F (text_char ?g) else af_font F (text_char ?g)) (y * 7 + x) = 1
        then 15 else 0) = text_pixel F frame ?g"
      by (auto simp: fun_eq_iff text_pixel_def Let_def)
    show ?thesis
      unfolding paint_cell[symmetric] g[symmetric] glyph_code_char glyph_attr_font
      by (rule render_font) (use assms(3,4) text_char_lt[of ?g] in auto)
  qed
  then show ?thesis
    by (simp add: text_cell_def gr_read[OF assms] Let_def video_defs on_dev_def upd_buffer_def with_buffer_def
        option.map_comp comp_def)
qed

text \<open>A double loop of such cells.\<close>

lemma tile_loops:
  assumes "\<And>c l buf. c < 40 \<Longrightarrow> L0 \<le> l \<Longrightarrow> l < L1 \<Longrightarrow>
      body c l (with_buffer m buf) = Some (with_buffer m (tile (\<lambda>c' l'. c' = c \<and> l' = l) g buf))"
    and "L0 \<le> L1"
  shows "for_range 0 40 (\<lambda>c. for_range L0 L1 (body c)) m =
    Some (with_buffer m (tile (\<lambda>c l. c < 40 \<and> L0 \<le> l \<and> l < L1) g (colorbuffer (dev m))))"
proof -
  have col: "for_range L0 L1 (body c) (with_buffer m buf) =
      Some (with_buffer m (tile (\<lambda>c' l'. c' = c \<and> L0 \<le> l' \<and> l' < L1) g buf))" if "c < 40" for c buf
  proof (rule for_range_closed)
    show "with_buffer m (tile (\<lambda>c' l'. c' = c \<and> L0 \<le> l' \<and> l' < L0) g buf) = with_buffer m buf"
      by (subst tile_same) auto
    fix l assume l: "L0 \<le> l" "l < L1"
    show "body c l (with_buffer m (tile (\<lambda>c' l'. c' = c \<and> L0 \<le> l' \<and> l' < l) g buf)) =
        Some (with_buffer m (tile (\<lambda>c' l'. c' = c \<and> L0 \<le> l' \<and> l' < Suc l) g buf))"
      using l by (simp add: assms(1)[OF that] tile_tile) (rule arg_cong[where f = "with_buffer m"],
        auto simp: tile_def fun_eq_iff Let_def less_Suc_eq)
  qed (fact assms(2))
  show ?thesis
  proof (rule for_range_closed)
    show "with_buffer m (tile (\<lambda>c l. c < 0 \<and> L0 \<le> l \<and> l < L1) g (colorbuffer (dev m))) = m" by simp
    fix c :: nat assume "c < 40"
    then show "for_range L0 L1 (body c) (with_buffer m (tile (\<lambda>c' l. c' < c \<and> L0 \<le> l \<and> l < L1) g (colorbuffer (dev m)))) =
        Some (with_buffer m (tile (\<lambda>c' l. c' < Suc c \<and> L0 \<le> l \<and> l < L1) g (colorbuffer (dev m))))"
      by (simp add: col tile_tile) (rule arg_cong[where f = "with_buffer m"],
        auto simp: tile_def fun_eq_iff Let_def less_Suc_eq)
  qed simp
qed

lemma render_text_tile:
  assumes "page_ok m"
  shows "render_text F frame m = Some (with_buffer
    (upd_dev (\<lambda>d. d\<lparr>videoAddress := ucast (videoPage d) * 0x0400\<rparr>) m)
    (tile (\<lambda>c l. c < 40 \<and> (if textMode (dev m) then 0 else 20) \<le> l \<and> l < 24)
       (\<lambda>c l. text_pixel F frame (gr_byte m c l)) (colorbuffer (dev m))))"
proof -
  let ?m = "upd_dev (\<lambda>d. d\<lparr>videoAddress := ucast (videoPage d) * 0x0400\<rparr>) m"
  have g: "gr_byte ?m = gr_byte m" by (simp add: gr_byte_def fun_eq_iff)
  have p: "page_ok ?m" using assms by (simp add: page_ok_def)
  have "for_range 0 40 (\<lambda>c. for_range (if textMode (dev m) then 0 else 20) 24 (text_cell F frame c)) ?m =
      Some (with_buffer ?m (tile (\<lambda>c l. c < 40 \<and> (if textMode (dev m) then 0 else 20) \<le> l \<and> l < 24)
        (\<lambda>c l. text_pixel F frame (gr_byte m c l)) (colorbuffer (dev ?m))))"
    by (rule tile_loops) (simp_all add: text_cell_tile p g)
  then show ?thesis by (simp add: render_text_def video_defs)
qed

subsection \<open>Low resolution\<close>

definition lores_color :: "u8 \<Rightarrow> nat \<Rightarrow> nat \<Rightarrow> u8" where
  "lores_color glyph x y = (if y < 4 then glyph AND 0x0F else drop_bit 4 (glyph AND 0xF0))"

text \<open>The cache is trusted: a cell whose cached byte is \<open>v\<close> shows \<open>v\<close>, or everything is redrawn.\<close>

definition lores_ready :: "dev_state \<Rightarrow> bool" where
  "lores_ready d \<longleftrightarrow> rwidth (pixelGR d) = 7 \<and> rheight (pixelGR d) = 4 \<and>
     (flashCycle d = 0 \<or> (\<forall>i v. i < 53760 \<longrightarrow> LoResCache d (i div 280 div 8) (i mod 280 div 7) = int (unat v) \<longrightarrow>
        colorbuffer d i = lores_color v (i mod 280 mod 7) (i div 280 mod 8)))"

lemma paint_halves:
  "paint x0 w (y0 + 4) 4 (\<lambda>_ _. b) (paint x0 w y0 4 (\<lambda>_ _. a) buf) =
   paint x0 w y0 8 (\<lambda>x y. if y < 4 then a else b) buf"
  by (auto simp: paint_def fun_eq_iff)

lemma lores_blocks:
  "paint (col * 7) 7 (line * 8 + 4) 4 (\<lambda>_ _. drop_bit 4 (v AND 0xF0))
     (paint (col * 7) 7 (line * 8) 4 (\<lambda>_ _. v AND 0x0F) buf) =
   tile (\<lambda>c l. c = col \<and> l = line) (\<lambda>_ _. lores_color v) buf"
  using paint_cell[of col line "\<lambda>_ _. lores_color v" buf]
  by (simp only: paint_halves lores_color_def[abs_def])

text \<open>\<open>lores_upto m P m'\<close>: starting from \<open>m\<close>, the cells in \<open>P\<close> have been brought up to date.\<close>

definition lores_upto :: "machine \<Rightarrow> (nat \<Rightarrow> nat \<Rightarrow> bool) \<Rightarrow> machine \<Rightarrow> bool" where
  "lores_upto m P m' \<longleftrightarrow> same_rest m m' \<and> videoAddress (dev m') = ucast (videoPage (dev m)) * 0x0400 \<and>
     rwidth (pixelGR (dev m')) = 7 \<and> rheight (pixelGR (dev m')) = 4 \<and>
     colorbuffer (dev m') = tile P (\<lambda>c l. lores_color (gr_byte m c l)) (colorbuffer (dev m)) \<and>
     LoResCache (dev m') = (\<lambda>l c. if P c l then int (unat (gr_byte m c l)) else LoResCache (dev m) l c)"

lemma lores_cell_upto:
  assumes "page_ok m" "lores_ready (dev m)" "col < 40" "line < 24" "\<not> P col line"
    and up: "lores_upto m P m'" and rx: "rx (pixelGR (dev m')) = int (col * 7)"
  shows "ends (\<lambda>m''. lores_upto m (\<lambda>c l. P c l \<or> c = col \<and> l = line) m'' \<and> rx (pixelGR (dev m'')) = int (col * 7))
    (lores_cell col line m')"
proof -
  let ?g = "gr_byte m col line"
  define n where "n = upd_dev (\<lambda>d. d\<lparr>pixelGR := (pixelGR d)\<lparr>ry := int line * 8\<rparr>\<rparr>) m'"
  have r: "same_rest m n" using up by (simp add: lores_upto_def same_rest_def n_def)
  note rD = same_restD[OF r]
  have g: "gr_byte n = gr_byte m" by (simp add: gr_byte_def fun_eq_iff rD)
  have read: "mem_ReadByte (videoAddress (dev n) + offsetGR ! line + of_nat col) n = Some (?g, n)"
    using gr_read[of n line col] assms(1,3,4) up by (simp add: g page_ok_def rD) (simp add: n_def lores_upto_def)
  have buf: "colorbuffer (dev n) = tile P (\<lambda>c l. lores_color (gr_byte m c l)) (colorbuffer (dev m))"
    and cache: "LoResCache (dev n) = (\<lambda>l c. if P c l then int (unat (gr_byte m c l)) else LoResCache (dev m) l c)"
    using up by (simp_all add: lores_upto_def n_def)
  have va: "videoAddress (dev n) = ucast (videoPage (dev m)) * 0x0400" using up by (simp add: lores_upto_def n_def)
  have new: "tile (\<lambda>c l. c = col \<and> l = line) (\<lambda>_ _. lores_color ?g) (colorbuffer (dev n)) =
      tile (\<lambda>c l. P c l \<or> c = col \<and> l = line) (\<lambda>c l. lores_color (gr_byte m c l)) (colorbuffer (dev m))"
    by (auto simp: buf tile_def Let_def fun_eq_iff)
  show ?thesis
  proof (cases "LoResCache (dev n) line col \<noteq> int (unat ?g) \<or> flashCycle (dev n) = 0")
    case True
    define n1 where "n1 = upd_dev (\<lambda>d. d\<lparr>LoResCache := (LoResCache d)(line := (LoResCache d line)(col := int (unat ?g)))\<rparr>) n"
    have px: "rx (pixelGR (dev n)) = int (col * 7)" "ry (pixelGR (dev n)) = int (line * 8)"
      "rwidth (pixelGR (dev n)) = int 7" "rheight (pixelGR (dev n)) = int 4"
      using up rx by (simp_all add: n_def lores_upto_def)
    have d1: "ad_DrawRectIndex (pixelGR (dev n)) v d =
        Some (d\<lparr>colorbuffer := paint (col * 7) 7 (line * 8) 4 (\<lambda>_ _. v) (colorbuffer d)\<rparr>)" for v d
      by (rule draw_rect) (use px assms(3,4) in auto)
    have d2: "ad_DrawRectIndex (pixelGR (dev n)\<lparr>ry := ry (pixelGR (dev n)) + 4\<rparr>) v d =
        Some (d\<lparr>colorbuffer := paint (col * 7) 7 (line * 8 + 4) 4 (\<lambda>_ _. v) (colorbuffer d)\<rparr>)" for v d
      by (rule draw_rect) (use px assms(3,4) in auto)
    have "lores_cell col line m' = Some (n1\<lparr>dev := (dev n1)\<lparr>pixelGR := (pixelGR (dev n))\<lparr>ry := ry (pixelGR (dev n)) + 4\<rparr>,
        colorbuffer := tile (\<lambda>c l. c = col \<and> l = line) (\<lambda>_ _. lores_color ?g) (colorbuffer (dev n))\<rparr>\<rparr>)"
      unfolding lores_cell_def Let_def n_def[symmetric] read
      using True by (simp add: on_dev_def d1 d2 n1_def flip: lores_blocks)
    then show ?thesis
      using r va px by (auto simp: n1_def lores_upto_def same_rest_def new cache fun_eq_iff)
  next
    case False
    then have "lores_cell col line m' = Some n"
      unfolding lores_cell_def Let_def n_def[symmetric] read by simp
    moreover have "tile (\<lambda>c l. c = col \<and> l = line) (\<lambda>_ _. lores_color ?g) (colorbuffer (dev n)) = colorbuffer (dev n)"
    proof (rule tile_same)
      fix i :: nat assume i: "i mod 280 div 7 = col \<and> i div 280 div 8 = line"
      from False assms(5) have "LoResCache (dev m) line col = int (unat ?g)" "flashCycle (dev m) \<noteq> 0"
        by (simp_all add: cache rD)
      with assms(2) i have "colorbuffer (dev m) i = lores_color ?g (i mod 280 mod 7) (i div 280 mod 8)"
        using assms(4) unfolding lores_ready_def by (auto dest!: spec[of _ i])
      then show "colorbuffer (dev n) i = lores_color ?g (i mod 280 mod 7) (i div 280 mod 8)"
        using i assms(5) by (simp add: buf tile_def Let_def)
    qed
    ultimately show ?thesis
      using r up rx False new cache by (auto simp: lores_upto_def n_def fun_eq_iff)
  qed
qed

lemma render_lores_upto:
  assumes "page_ok m" "lores_ready (dev m)"
  shows "ends (lores_upto m (\<lambda>c l. c < 40 \<and> l < (if mixedMode (dev m) then 20 else 24))) (render_lores m)"
proof -
  let ?L = "if mixedMode (dev m) then 20 else 24 :: nat"
  let ?m = "upd_dev (\<lambda>d. d\<lparr>videoAddress := ucast (videoPage d) * 0x0400\<rparr>) m"
  have "ends (lores_upto m (\<lambda>c l. c < 40 \<and> l < ?L)) (for_range 0 40 (\<lambda>col m. do {
       let m = upd_dev (\<lambda>d. d\<lparr>pixelGR := (pixelGR d)\<lparr>rx := int col * 7\<rparr>\<rparr>) m;
       for_range 0 (if mixedMode (dev m) then 20 else 24) (lores_cell col) m }) ?m)"
  proof (rule for_range_ends[where I = "\<lambda>n. lores_upto m (\<lambda>c l. c < n \<and> l < ?L)"])
    show "lores_upto m (\<lambda>c l. c < 0 \<and> l < ?L) ?m"
      using assms(2) by (simp add: lores_upto_def same_rest_def lores_ready_def)
    fix col :: nat and s assume col: "col < 40" and s: "lores_upto m (\<lambda>c l. c < col \<and> l < ?L) s"
    let ?s = "upd_dev (\<lambda>d. d\<lparr>pixelGR := (pixelGR d)\<lparr>rx := int col * 7\<rparr>\<rparr>) s"
    let ?P = "\<lambda>n c l. c < col \<and> l < ?L \<or> c = col \<and> l < n"
    have mix: "mixedMode (dev ?s) = mixedMode (dev m)" using s by (simp add: lores_upto_def same_restD)
    have "ends (\<lambda>t. lores_upto m (?P ?L) t \<and> rx (pixelGR (dev t)) = int (col * 7)) (for_range 0 ?L (lores_cell col) ?s)"
    proof (rule for_range_ends[where I = "\<lambda>n t. lores_upto m (?P n) t \<and> rx (pixelGR (dev t)) = int (col * 7)"])
      show "lores_upto m (?P 0) ?s \<and> rx (pixelGR (dev ?s)) = int (col * 7)"
        using s by (simp add: lores_upto_def same_rest_def)
      fix l t assume "l < ?L" and t: "lores_upto m (?P l) t \<and> rx (pixelGR (dev t)) = int (col * 7)"
      then have l: "l < 24" by (simp split: if_splits)
      have "(\<lambda>c' l'. ?P l c' l' \<or> c' = col \<and> l' = l) = ?P (Suc l)"
        by (auto simp: fun_eq_iff less_Suc_eq)
      with lores_cell_upto[OF assms col l, of "?P l" t] t
      show "ends (\<lambda>t. lores_upto m (?P (Suc l)) t \<and> rx (pixelGR (dev t)) = int (col * 7)) (lores_cell col l t)"
        by (auto elim!: ends_mono)
    qed simp
    moreover have "?P ?L = (\<lambda>c l. c < Suc col \<and> l < ?L)" by (auto simp: fun_eq_iff less_Suc_eq)
    ultimately show "ends (lores_upto m (\<lambda>c l. c < Suc col \<and> l < ?L)) (do {
       let m = ?s; for_range 0 (if mixedMode (dev m) then 20 else 24) (lores_cell col) m })"
      unfolding Let_def mix by (auto elim!: ends_mono)
  qed simp
  then show ?thesis by (simp add: render_lores_def)
qed

text \<open>The frame counter, and what a frame leaves in place.\<close>

lemma next_flash_simps [simp]:
  "colorbuffer (next_flash d) = colorbuffer d" "pixelGR (next_flash d) = pixelGR d"
  "LoResCache (next_flash d) = LoResCache d" "HiResCache (next_flash d) = HiResCache d"
  "previousBit (next_flash d) = previousBit d" "videoPage (next_flash d) = videoPage d"
  by (simp_all add: next_flash_def Let_def)

lemma pixel_index:
  "x < 280 \<Longrightarrow> (y * 280 + x) mod 280 = x" "x < 280 \<Longrightarrow> (y * 280 + x) div 280 = y" for x y :: nat
  using pixel_coords[of x "y * 280 + x" y] by blast+

lemmas mode_nums = TEXT_MODE_def LORES_MODE_def LORES_MIX_MODE_def HIRES_MODE_def HIRES_MIX_MODE_def

lemma mode_cases:
  "ad_GetScreenMode d = LORES_MODE \<longleftrightarrow> \<not> mixedMode d \<and> \<not> textMode d \<and> \<not> hires_Mode d"
  "ad_GetScreenMode d = HIRES_MODE \<longleftrightarrow> \<not> mixedMode d \<and> \<not> textMode d \<and> hires_Mode d"
  "ad_GetScreenMode d = TEXT_MODE \<longleftrightarrow> \<not> mixedMode d \<and> textMode d"
  "ad_GetScreenMode d = LORES_MIX_MODE \<longleftrightarrow> mixedMode d \<and> \<not> hires_Mode d"
  "ad_GetScreenMode d = HIRES_MIX_MODE \<longleftrightarrow> mixedMode d \<and> hires_Mode d"
  by (auto simp: ad_GetScreenMode_def mode_nums)

lemma ad_Render_cases:
  "ad_GetScreenMode (dev m) = LORES_MODE \<Longrightarrow>
     ad_Render F frame m = map_option (upd_dev next_flash) (render_lores m)"
  "ad_GetScreenMode (dev m) = HIRES_MODE \<Longrightarrow>
     ad_Render F frame m = map_option (upd_dev next_flash) (render_hires m)"
  "ad_GetScreenMode (dev m) = TEXT_MODE \<Longrightarrow>
     ad_Render F frame m = map_option (upd_dev next_flash) (render_text F frame m)"
  by (simp_all add: ad_Render_def mode_cases[THEN iffD1] mode_nums bind_Some_map)

lemma same_rest_next_flash:
  "same_rest m m' \<Longrightarrow> cpu (upd_dev next_flash m') = cpu m \<and> mem (upd_dev next_flash m') = mem m"
  by (simp add: same_rest_def)

lemma tile_at:
  "x < 280 \<Longrightarrow> tile P g buf (y * 280 + x) =
     (if P (x div 7) (y div 8) then g (x div 7) (y div 8) (x mod 7) (y mod 8) else buf (y * 280 + x))"
  unfolding tile_def Let_def pixel_index by (rule refl)

text \<open>A machine just reset, with the given display switches and every byte of main memory \<^verbatim>\<open>0x2F\<close>.\<close>

definition screen_demo :: "bool \<Rightarrow> bool \<Rightarrow> machine" where
  "screen_demo t h = machine_image\<lparr>mem := mem_image\<lparr>ram := \<lambda>_. 0x2F\<rparr>,
     dev := (ad_Reset dev_image)\<lparr>textMode := t, hires_Mode := h\<rparr>\<rparr>"

lemma screen_demo_ok [simp]: "page_ok (screen_demo t h)"
  by (simp add: page_ok_def screen_demo_def ad_Reset_def)

text \<open>C13. In text mode a frame draws the text page: every pixel of the screen is white or black as the font
  table for the character in its cell says, inverse for codes below \<^verbatim>\<open>0x40\<close>, flashing with the frame
  number for codes up to \<^verbatim>\<open>0x7F\<close>, normal above.  No array is left, and CPU and memory are unchanged.\<close>

theorem text_frame:
  assumes "page_ok m" and "ad_GetScreenMode (dev m) = TEXT_MODE"
  shows "\<exists>m'. ad_Render F frame m = Some m' \<and> cpu m' = cpu m \<and> mem m' = mem m \<and>
    (\<forall>x < 280. \<forall>y < 192. colorbuffer (dev m') (y * 280 + x) =
       text_pixel F frame (gr_byte m (x div 7) (y div 8)) (x mod 7) (y mod 8))"
proof -
  let ?n = "upd_dev (\<lambda>d. d\<lparr>videoAddress := ucast (videoPage d) * 0x0400\<rparr>) m"
  let ?b = "tile (\<lambda>c l. c < 40 \<and> 0 \<le> l \<and> l < 24) (\<lambda>c l. text_pixel F frame (gr_byte m c l)) (colorbuffer (dev m))"
  have "textMode (dev m)" using assms(2) by (simp add: mode_cases)
  then have r: "ad_Render F frame m = Some (upd_dev next_flash (with_buffer ?n ?b))"
    using render_text_tile[OF assms(1), of F frame] by (simp add: ad_Render_cases(3)[OF assms(2)])
  have "same_rest m (with_buffer ?n ?b)" by (simp add: same_rest_def with_buffer_def)
  note same_rest_next_flash[OF this]
  moreover have "colorbuffer (dev (upd_dev next_flash (with_buffer ?n ?b))) = ?b" by simp
  moreover have "x div 7 < 40" "y div 8 < 24" if "x < 280" "y < 192" for x y :: nat
    using that by (simp_all add: less_mult_imp_div_less)
  ultimately show ?thesis
    by (intro exI[of _ "upd_dev next_flash (with_buffer ?n ?b)"]) (simp add: r tile_at)
qed

theorem text_frame_witness:
  "\<exists>m'. ad_Render \<lparr>af_font = (\<lambda>_ _. 0), af_invfont = (\<lambda>n p. if p = 9 then 1 else 0)\<rparr> 0 (screen_demo True False) = Some m' \<and>
     colorbuffer (dev m') (1 * 280 + 2) = 15 \<and> colorbuffer (dev m') (1 * 280 + 3) = 0"
proof -
  let ?F = "\<lparr>af_font = (\<lambda>_ _. 0), af_invfont = (\<lambda>n p. if p = 9 then 1 else 0)\<rparr>"
  have mode: "ad_GetScreenMode (dev (screen_demo True False)) = TEXT_MODE"
    by (simp add: ad_GetScreenMode_def screen_demo_def ad_Reset_def)
  obtain m' where m': "ad_Render ?F 0 (screen_demo True False) = Some m'"
    and px: "\<forall>x < 280. \<forall>y < 192. colorbuffer (dev m') (y * 280 + x) =
       text_pixel ?F 0 (gr_byte (screen_demo True False) (x div 7) (y div 8)) (x mod 7) (y mod 8)"
    using text_frame[OF screen_demo_ok mode, of ?F 0] by blast
  have "gr_byte (screen_demo True False) 0 0 = 0x2F" by (simp add: gr_byte_def screen_demo_def)
  then show ?thesis
    using m' px[rule_format, of 2 1] px[rule_format, of 3 1]
    by (simp add: text_pixel_def Let_def)
qed

text \<open>C12. In low-resolution mode a frame draws the picture the memory describes, although only cells whose
  byte differs from the cached one are redrawn: every pixel shows the low nibble of its byte in the
  upper half of the cell and the high nibble in the lower half.  This holds whenever the cache can be
  trusted or all is redrawn, and the frame leaves the cache trustworthy for the next one, whatever
  happens to the memory in between.\<close>

theorem lores_frame:
  assumes "page_ok m" and "ad_GetScreenMode (dev m) = LORES_MODE" and "lores_ready (dev m)"
  shows "\<exists>m'. ad_Render F frame m = Some m' \<and> cpu m' = cpu m \<and> mem m' = mem m \<and> lores_ready (dev m') \<and>
    (\<forall>x < 280. \<forall>y < 192. colorbuffer (dev m') (y * 280 + x) =
       lores_color (gr_byte m (x div 7) (y div 8)) (x mod 7) (y mod 8))"
proof -
  have "\<not> mixedMode (dev m)" using assms(2) by (simp add: mode_cases)
  with render_lores_upto[OF assms(1,3)] obtain n where n: "render_lores m = Some n"
    and up: "lores_upto m (\<lambda>c l. c < 40 \<and> l < 24) n" by (auto simp: ends_iff)
  let ?m' = "upd_dev next_flash n"
  have r: "ad_Render F frame m = Some ?m'" by (simp add: ad_Render_cases(1)[OF assms(2)] n)
  have cell: "i mod 280 div 7 < 40" "i < 53760 \<Longrightarrow> i div 280 div 8 < 24" for i :: nat
    by (simp_all add: less_mult_imp_div_less)
  have buf: "colorbuffer (dev ?m') i = lores_color (gr_byte m (i mod 280 div 7) (i div 280 div 8))
      (i mod 280 mod 7) (i div 280 mod 8)" if "i < 53760" for i
    using up cell(1)[of i] cell(2)[OF that] unfolding lores_upto_def by (simp add: tile_def Let_def)
  have cache: "LoResCache (dev ?m') (i div 280 div 8) (i mod 280 div 7) =
      int (unat (gr_byte m (i mod 280 div 7) (i div 280 div 8)))" if "i < 53760" for i
    using up cell(1)[of i] cell(2)[OF that] unfolding lores_upto_def by simp
  have "lores_ready (dev ?m')"
    unfolding lores_ready_def
  proof (intro conjI disjI2 allI impI)
    fix i and v :: u8 assume i: "i < 53760" "LoResCache (dev ?m') (i div 280 div 8) (i mod 280 div 7) = int (unat v)"
    then have "unat v = unat (gr_byte m (i mod 280 div 7) (i div 280 div 8))"
      unfolding cache[OF i(1)] by linarith
    then have "v = gr_byte m (i mod 280 div 7) (i div 280 div 8)" by (simp only: word_unat_eq_iff)
    with buf[OF i(1)] show "colorbuffer (dev ?m') i = lores_color v (i mod 280 mod 7) (i div 280 mod 8)" by simp
  qed (use up in \<open>simp_all add: lores_upto_def\<close>)
  moreover have "colorbuffer (dev ?m') (y * 280 + x) = lores_color (gr_byte m (x div 7) (y div 8)) (x mod 7) (y mod 8)"
    if "x < 280" "y < 192" for x y
    using buf[of "y * 280 + x"] that by (simp only: pixel_index)
  moreover have "same_rest m n" using up by (simp add: lores_upto_def)
  ultimately show ?thesis using r same_rest_next_flash by blast
qed

lemma lores_ready_reset: "lores_ready ((ad_Reset d)\<lparr>textMode := t, hires_Mode := h\<rparr>)"
  by (simp add: lores_ready_def ad_Reset_def)

theorem lores_frame_witness:
  "\<exists>m'. ad_Render \<lparr>af_font = (\<lambda>_ _. 0), af_invfont = (\<lambda>_ _. 0)\<rparr> 0 (screen_demo False False) = Some m' \<and> lores_ready (dev m') \<and>
     colorbuffer (dev m') (9 * 280 + 8) = 0x0F \<and> colorbuffer (dev m') (12 * 280 + 8) = 2"
proof -
  let ?F = "\<lparr>af_font = (\<lambda>_ _. 0), af_invfont = (\<lambda>_ _. 0)\<rparr>"
  have mode: "ad_GetScreenMode (dev (screen_demo False False)) = LORES_MODE"
    by (simp add: ad_GetScreenMode_def screen_demo_def ad_Reset_def)
  have "lores_ready (dev (screen_demo False False))" by (simp add: screen_demo_def lores_ready_reset)
  from lores_frame[OF screen_demo_ok mode this, of ?F 0]
  obtain m' where m': "ad_Render ?F 0 (screen_demo False False) = Some m'" "lores_ready (dev m')"
    and px: "\<forall>x < 280. \<forall>y < 192. colorbuffer (dev m') (y * 280 + x) =
       lores_color (gr_byte (screen_demo False False) (x div 7) (y div 8)) (x mod 7) (y mod 8)" by blast
  have "gr_byte (screen_demo False False) 1 1 = 0x2F" by (simp add: gr_byte_def screen_demo_def)
  then show ?thesis
    using m' px[rule_format, of 8 9] px[rule_format, of 8 12] by (simp add: lores_color_def)
qed

end
