(* ===== verification/Apple_Hires.thy ===== *)
theory Apple_Hires
  imports Apple_Screen
begin

text \<open>
  The high-resolution picture.  Two bytes of memory give fourteen dots; the colour of a dot depends on
  the dot to its left, so the renderer remembers for every group the last dot of the group before
  (\<^verbatim>\<open>previousBit\<close>) and throws the cached group away when that changes.
\<close>

subsection \<open>The fourteen dots of a group\<close>

definition dot_bit :: "nat \<Rightarrow> nat" where
  "dot_bit n = (if n < 7 then n else n + 1)"

definition dot_color :: "u16 \<Rightarrow> u8 \<Rightarrow> nat \<Rightarrow> u8" where
  "dot_color w p n = (if even n then 0 else 8) + (if n < 7 then bits w 7 else bits w 15) * 4 +
     push_bit 1 (bits w (dot_bit n)) + (if n = 0 then p else bits w (dot_bit (n - 1)))"

lemma paint_step:
  assumes "x0 + n < 280" "line < 192"
  shows "set_pixel (int x0 + int n) (int line) (D n) (paint x0 n line 1 (\<lambda>x _. D x) buf) =
    Some (paint x0 (Suc n) line 1 (\<lambda>x _. D x) buf)"
  using set_pixel_in[of "x0 + n" line "D n"] assms
  by (auto simp: paint_def fun_eq_iff pixel_coords less_Suc_eq)

lemma hires_dots_from:
  assumes "x0 + 14 \<le> 280" "line < 192" "n \<le> 14"
  shows "hires_dots w (if n \<le> 7 then n else n + 1) (if n = 0 then p else bits w (dot_bit (n - 1)))
      ((if n \<le> 7 then bits w 7 else bits w 15) * 4) (if even n then 0 else 8) (int x0 + int n) (int line)
      (d\<lparr>colorbuffer := paint x0 n line 1 (\<lambda>x _. dot_color w p x) buf\<rparr>) =
    Some (bits w 14, d\<lparr>colorbuffer := paint x0 14 line 1 (\<lambda>x _. dot_color w p x) buf\<rparr>)"
  using assms(3)
proof (induction n rule: inc_induct)
  case base
  show ?case by (subst hires_dots.simps) (simp add: dot_bit_def)
next
  case (step n)
  let ?b = "if n \<le> 7 then n else n + 1" and ?q = "if n = 0 then p else bits w (dot_bit (n - 1))"
  let ?cs = "(if n \<le> 7 then bits w 7 else bits w 15) * 4" and ?e = "if even n then 0 else 8 :: u8"
  let ?buf = "\<lambda>n. paint x0 n line 1 (\<lambda>x _. dot_color w p x) buf"
  have b: "?b < 15" using step.hyps by simp
  have cs: "(if ?b = 7 then bits w 15 * 4 else ?cs) = (if n < 7 then bits w 7 else bits w 15) * 4" by auto
  have nb: "(if ?b = 7 then ?b + 1 else ?b) = dot_bit n" by (auto simp: dot_bit_def)
  have col: "?e + (if n < 7 then bits w 7 else bits w 15) * 4 + push_bit 1 (bits w (dot_bit n)) + ?q = dot_color w p n"
    by (simp add: dot_color_def)
  have px: "ad_DrawPixelIndex (int x0 + int n) (int line) (dot_color w p n) (d\<lparr>colorbuffer := ?buf n\<rparr>) =
      Some (d\<lparr>colorbuffer := ?buf (Suc n)\<rparr>)"
    using paint_step[of x0 n line "dot_color w p" buf] step.hyps assms(1,2)
    by (simp add: ad_DrawPixelIndex_def upd_buffer_def)
  have nx: "dot_bit n + 1 = (if Suc n \<le> 7 then Suc n else Suc n + 1)"
    "(if ?e \<noteq> 0 then 0 else 8) = (if even (Suc n) then 0 else 8 :: u8)"
    "(if n < 7 then bits w 7 else bits w 15) = (if Suc n \<le> 7 then bits w 7 else bits w 15)"
    "bits w (dot_bit n) = (if Suc n = 0 then p else bits w (dot_bit (Suc n - 1)))"
    "int x0 + int n + 1 = int x0 + int (Suc n)"
    by (auto simp: dot_bit_def)
  have "hires_dots w ?b ?q ?cs ?e (int x0 + int n) (int line) (d\<lparr>colorbuffer := ?buf n\<rparr>) =
      hires_dots w (dot_bit n + 1) (bits w (dot_bit n)) ((if n < 7 then bits w 7 else bits w 15) * 4)
        (if ?e \<noteq> 0 then 0 else 8) (int x0 + int n + 1) (int line) (d\<lparr>colorbuffer := ?buf (Suc n)\<rparr>)"
    unfolding hires_dots.simps[of w ?b] Let_def cs nb col px using b by (simp only: if_True bind.bind_lunit)
  also have "\<dots> = Some (bits w 14, d\<lparr>colorbuffer := ?buf 14\<rparr>)"
    unfolding nx by (rule step.IH)
  finally show ?case .
qed

lemma hires_dots_paint:
  assumes "x0 + 14 \<le> 280" "line < 192"
  shows "hires_dots w 0 p (bits w 7 * 4) 0 (int x0) (int line) d =
    Some (bits w 14, d\<lparr>colorbuffer := paint x0 14 line 1 (\<lambda>x _. dot_color w p x) (colorbuffer d)\<rparr>)"
  using hires_dots_from[OF assms, where n = 0 and w = w and p = p and d = d and buf = "colorbuffer d"] by simp

subsection \<open>One line\<close>

definition hword :: "machine \<Rightarrow> nat \<Rightarrow> nat \<Rightarrow> u16" where
  "hword m line k = push_bit 8 (ucast (hgr_byte m (2 * k + 1) line)) + ucast (hgr_byte m (2 * k) line)"

fun left_dot :: "machine \<Rightarrow> nat \<Rightarrow> nat \<Rightarrow> u8" where
  "left_dot m line 0 = 0"
| "left_dot m line (Suc k) = bits (hword m line k) 14"

definition line_pixel :: "machine \<Rightarrow> nat \<Rightarrow> nat \<Rightarrow> u8" where
  "line_pixel m line x = dot_color (hword m line (x div 14)) (left_dot m line (x div 14)) (x mod 14)"

definition ready_line :: "nat \<Rightarrow> dev_state \<Rightarrow> bool" where
  "ready_line line d \<longleftrightarrow> previousBit d line 0 = 0 \<and>
     (flashCycle d = 0 \<or> (\<forall>k < 20. \<forall>w. HiResCache d line (2 * k) = int (unat w) \<longrightarrow>
        (\<forall>n < 14. colorbuffer d (line * 280 + (14 * k + n)) = dot_color w (previousBit d line (2 * k)) n) \<and>
        (k < 19 \<longrightarrow> previousBit d line (2 * k + 2) = bits w 14)))"

definition other_lines :: "nat \<Rightarrow> dev_state \<Rightarrow> dev_state \<Rightarrow> bool" where
  "other_lines line d e \<longleftrightarrow> (\<forall>l. l \<noteq> line \<longrightarrow> HiResCache e l = HiResCache d l \<and> previousBit e l = previousBit d l \<and>
     (\<forall>x < 280. colorbuffer e (l * 280 + x) = colorbuffer d (l * 280 + x)))"

text \<open>\<open>line_upto m line k d e\<close>: from \<open>d\<close> to \<open>e\<close> the first \<open>k\<close> groups of the line have been brought up to date, and
  the next group is as before, or thrown away because of its left neighbour.\<close>

definition line_upto :: "machine \<Rightarrow> nat \<Rightarrow> nat \<Rightarrow> dev_state \<Rightarrow> dev_state \<Rightarrow> bool" where
  "line_upto m line k d e \<longleftrightarrow>
     (\<forall>x < 14 * k. colorbuffer e (line * 280 + x) = line_pixel m line x) \<and>
     (\<forall>x < 280. 14 * k \<le> x \<longrightarrow> colorbuffer e (line * 280 + x) = colorbuffer d (line * 280 + x)) \<and>
     (\<forall>j < k. HiResCache e line (2 * j) = int (unat (hword m line j)) \<and> previousBit e line (2 * j) = left_dot m line j) \<and>
     (k < 20 \<longrightarrow> previousBit e line (2 * k) = left_dot m line k \<and>
        (HiResCache e line (2 * k) = -1 \<or>
         HiResCache e line (2 * k) = HiResCache d line (2 * k) \<and> previousBit d line (2 * k) = left_dot m line k)) \<and>
     (\<forall>j < 20. k < j \<longrightarrow> HiResCache e line (2 * j) = HiResCache d line (2 * j) \<and>
        previousBit e line (2 * j) = previousBit d line (2 * j)) \<and>
     other_lines line d e"

lemma paint_at:
  "x < 280 \<Longrightarrow> paint x0 w y0 h g buf (y * 280 + x) =
     (if x0 \<le> x \<and> x < x0 + w \<and> y0 \<le> y \<and> y < y0 + h then g (x - x0) (y - y0) else buf (y * 280 + x))"
  unfolding paint_def pixel_index by (rule refl)

text \<open>What redrawing group \<open>k\<close> does to the device.\<close>

definition redraw :: "machine \<Rightarrow> nat \<Rightarrow> nat \<Rightarrow> dev_state \<Rightarrow> dev_state" where
  "redraw m line k e = set_previous line (2 * k) (bits (hword m line k) 14)
     (e\<lparr>colorbuffer := paint (14 * k) 14 line 1 (\<lambda>x _. dot_color (hword m line k) (previousBit e line (2 * k)) x) (colorbuffer e),
        HiResCache := (HiResCache e)(line := (HiResCache e line)(2 * k := int (unat (hword m line k))))\<rparr>)"

lemma hires_group_cases:
  assumes "page_ok m" "videoAddress (dev m) = ucast (videoPage (dev m)) * 0x2000" "line < 192" "k < 20"
  shows "hires_group line (2 * k) m = Some (
    if HiResCache (dev m) line (2 * k) \<noteq> int (unat (hword m line k)) \<or> flashCycle (dev m) = 0
    then m\<lparr>dev := redraw m line k (dev m)\<rparr> else m)"
proof -
  have hi: "mem_ReadByte (videoAddress (dev m) + offsetHGR ! line + of_nat (2 * k) + 1) m =
      Some (hgr_byte m (2 * k + 1) line, m)"
    using hgr_read[OF assms(1-3), of "2 * k + 1"] assms(4) by (simp add: add_ac)
  have lo: "mem_ReadByte (videoAddress (dev m) + offsetHGR ! line + of_nat (2 * k)) m = Some (hgr_byte m (2 * k) line, m)"
    using hgr_read[OF assms(1-3), of "2 * k"] assms(4) by simp
  have dots: "hires_dots w 0 p (bits w 7 * 4) 0 (int (2 * k) * 7) (int line) d =
      Some (bits w 14, d\<lparr>colorbuffer := paint (14 * k) 14 line 1 (\<lambda>x _. dot_color w p x) (colorbuffer d)\<rparr>)" for w p d
    using hires_dots_paint[of "14 * k" line w p d] assms(3,4) by (simp add: mult.commute)
  show ?thesis
    unfolding hires_group_def hi bind.bind_lunit case_prod_conv lo Let_def hword_def[symmetric] dots
    by (simp add: on_dev_def redraw_def)
qed

lemma redraw_fields:
  assumes "x < 280" "k < 20"
  shows "colorbuffer (redraw m line k e) (l * 280 + x) =
      (if l = line \<and> 14 * k \<le> x \<and> x < 14 * k + 14
       then dot_color (hword m line k) (previousBit e line (2 * k)) (x - 14 * k) else colorbuffer e (l * 280 + x))"
    and "previousBit (redraw m line k e) l c =
      (if l = line \<and> c = 2 * k + 2 \<and> k < 19 then bits (hword m line k) 14 else previousBit e l c)"
    and "c \<noteq> 2 * k + 2 \<or> l \<noteq> line \<Longrightarrow> HiResCache (redraw m line k e) l c =
      (if l = line \<and> c = 2 * k then int (unat (hword m line k)) else HiResCache e l c)"
    and "k < 19 \<Longrightarrow> HiResCache (redraw m line k e) line (2 * k + 2) =
      (if previousBit e line (2 * k + 2) \<noteq> bits (hword m line k) 14 then -1 else HiResCache e line (2 * k + 2))"
  using assms by (auto simp: redraw_def set_previous_def paint_at le_less_Suc_eq)

lemma no_video_redraw: "no_video (redraw m line k e) = no_video e"
  by (simp add: redraw_def set_previous_def)

lemma line_pixel_group: "14 * k \<le> x \<Longrightarrow> x < 14 * k + 14 \<Longrightarrow>
    line_pixel m line x = dot_color (hword m line k) (left_dot m line k) (x - 14 * k)"
proof -
  assume "14 * k \<le> x" "x < 14 * k + 14"
  then have "x div 14 = k" by (intro div_nat_eqI) simp_all
  then show ?thesis by (simp add: line_pixel_def minus_mult_div_eq_mod[symmetric])
qed

lemma line_step_redraw:
  assumes "k < 20" and up: "line_upto m line k d e"
  shows "line_upto m line (Suc k) d (redraw m line k e)"
proof -
  let ?r = "redraw m line k e"
  have p: "previousBit e line (2 * k) = left_dot m line k" using up assms(1) by (simp add: line_upto_def)
  have "colorbuffer ?r (line * 280 + x) = line_pixel m line x" if "x < 14 * Suc k" for x
    using that assms(1) up line_pixel_group[of k x m line]
    by (cases "x < 14 * k") (auto simp: redraw_fields line_upto_def p)
  moreover have "colorbuffer ?r (line * 280 + x) = colorbuffer d (line * 280 + x)" if "x < 280" "14 * Suc k \<le> x" for x
    using that assms(1) up by (simp add: redraw_fields line_upto_def)
  moreover have "HiResCache ?r line (2 * j) = int (unat (hword m line j)) \<and> previousBit ?r line (2 * j) = left_dot m line j"
    if "j < Suc k" for j
    using that assms(1) up p by (auto simp: redraw_fields[where x = 0] line_upto_def less_Suc_eq)
  moreover have "previousBit ?r line (2 * Suc k) = left_dot m line (Suc k) \<and>
        (HiResCache ?r line (2 * Suc k) = -1 \<or>
         HiResCache ?r line (2 * Suc k) = HiResCache d line (2 * Suc k) \<and> previousBit d line (2 * Suc k) = left_dot m line (Suc k))"
    if "Suc k < 20"
  proof -
    have "HiResCache e line (2 * Suc k) = HiResCache d line (2 * Suc k) \<and> previousBit e line (2 * Suc k) = previousBit d line (2 * Suc k)"
      using up that unfolding line_upto_def by blast
    then show ?thesis using that redraw_fields(2,4)[of 0 k m line e] by auto
  qed
  moreover have "HiResCache ?r line (2 * j) = HiResCache d line (2 * j) \<and> previousBit ?r line (2 * j) = previousBit d line (2 * j)"
    if "j < 20" "Suc k < j" for j
    using that assms(1) up by (auto simp: redraw_fields[where x = 0] line_upto_def)
  moreover have "other_lines line d ?r"
    using assms(1) up by (auto simp: redraw_fields redraw_fields[where x = 0] line_upto_def other_lines_def fun_eq_iff)
  ultimately show ?thesis unfolding line_upto_def by blast
qed

lemma line_step_keep:
  assumes "k < 20" "ready_line line d" "flashCycle d \<noteq> 0" and up: "line_upto m line k d e"
    and same: "HiResCache e line (2 * k) = int (unat (hword m line k))"
  shows "line_upto m line (Suc k) d e"
proof -
  have not_minus: "int (unat (hword m line k)) \<noteq> -1" by linarith
  have c: "HiResCache d line (2 * k) = int (unat (hword m line k))" "previousBit d line (2 * k) = left_dot m line k"
    and p: "previousBit e line (2 * k) = left_dot m line k"
    using up same assms(1) not_minus unfolding line_upto_def by metis+
  with assms(1-3) have shown: "\<forall>n < 14. colorbuffer d (line * 280 + (14 * k + n)) = dot_color (hword m line k) (left_dot m line k) n"
    and next': "k < 19 \<longrightarrow> previousBit d line (2 * k + 2) = left_dot m line (Suc k)"
    by (auto simp: ready_line_def)
  have "colorbuffer e (line * 280 + x) = line_pixel m line x" if x: "x < 14 * Suc k" for x
  proof (cases "x < 14 * k")
    case True
    then show ?thesis using up by (simp add: line_upto_def)
  next
    case False
    then have "colorbuffer e (line * 280 + x) = colorbuffer d (line * 280 + (14 * k + (x - 14 * k)))"
      using up x assms(1) by (simp add: line_upto_def)
    also have "\<dots> = line_pixel m line x"
      using False x shown[rule_format, of "x - 14 * k"] line_pixel_group[of k x m line] by simp
    finally show ?thesis .
  qed
  moreover have "HiResCache e line (2 * j) = int (unat (hword m line j)) \<and> previousBit e line (2 * j) = left_dot m line j"
    if "j < Suc k" for j
    using that up p same by (auto simp: line_upto_def less_Suc_eq)
  moreover have "previousBit e line (2 * Suc k) = left_dot m line (Suc k) \<and>
      HiResCache e line (2 * Suc k) = HiResCache d line (2 * Suc k) \<and> previousBit d line (2 * Suc k) = left_dot m line (Suc k)"
    if "Suc k < 20"
  proof -
    have "HiResCache e line (2 * Suc k) = HiResCache d line (2 * Suc k) \<and> previousBit e line (2 * Suc k) = previousBit d line (2 * Suc k)"
      using up that unfolding line_upto_def by blast
    with next' that show ?thesis by simp
  qed
  ultimately show ?thesis using up unfolding line_upto_def by (auto simp del: left_dot.simps)
qed

definition same_line :: "nat \<Rightarrow> dev_state \<Rightarrow> dev_state \<Rightarrow> bool" where
  "same_line l d e \<longleftrightarrow> HiResCache e l = HiResCache d l \<and> previousBit e l = previousBit d l \<and>
     (\<forall>x < 280. colorbuffer e (l * 280 + x) = colorbuffer d (l * 280 + x))"

definition line_done :: "machine \<Rightarrow> nat \<Rightarrow> dev_state \<Rightarrow> bool" where
  "line_done m line e \<longleftrightarrow> (\<forall>x < 280. colorbuffer e (line * 280 + x) = line_pixel m line x) \<and>
     (\<forall>k < 20. HiResCache e line (2 * k) = int (unat (hword m line k)) \<and> previousBit e line (2 * k) = left_dot m line k)"

lemma line_upto_0: "ready_line line d \<Longrightarrow> line_upto m line 0 d d"
  by (simp add: line_upto_def ready_line_def other_lines_def)

lemma line_upto_done: "line_upto m line 20 d e \<Longrightarrow> line_done m line e \<and> (\<forall>l. l \<noteq> line \<longrightarrow> same_line l d e)"
  by (simp add: line_upto_def line_done_def other_lines_def same_line_def)

lemma line_done_same: "same_line l d e \<Longrightarrow> line_done m l d \<Longrightarrow> line_done m l e"
  by (simp add: line_done_def same_line_def)

lemma ready_line_same: "same_line l d e \<Longrightarrow> flashCycle e = flashCycle d \<Longrightarrow> ready_line l d \<Longrightarrow> ready_line l e"
  by (auto simp: ready_line_def same_line_def)

lemma same_line_trans: "same_line l d e \<Longrightarrow> same_line l e f \<Longrightarrow> same_line l d f"
  by (simp add: same_line_def)

lemma same_rest_hword: "same_rest m t \<Longrightarrow> hword t = hword m \<and> page_ok t = page_ok m"
  by (simp add: fun_eq_iff hword_def hgr_byte_def page_ok_def same_restD)

definition in_hires :: "machine \<Rightarrow> machine \<Rightarrow> bool" where
  "in_hires m t \<longleftrightarrow> same_rest m t \<and> videoAddress (dev t) = ucast (videoPage (dev m)) * 0x2000"

lemma hires_line:
  assumes "page_ok m" "line < 192" "in_hires m s" "ready_line line (dev s)"
  shows "ends (\<lambda>t. in_hires m t \<and> line_done m line (dev t) \<and> (\<forall>l. l \<noteq> line \<longrightarrow> same_line l (dev s) (dev t)))
    (for_range 0 20 (\<lambda>k. hires_group line (2 * k)) s)"
proof -
  have "ends (\<lambda>t. in_hires m t \<and> line_upto m line 20 (dev s) (dev t)) (for_range 0 20 (\<lambda>k. hires_group line (2 * k)) s)"
  proof (rule for_range_ends[where I = "\<lambda>k t. in_hires m t \<and> line_upto m line k (dev s) (dev t)"])
    fix k t assume k: "k < 20" and t: "in_hires m t \<and> line_upto m line k (dev s) (dev t)"
    then have r: "same_rest m t" and va: "videoAddress (dev t) = ucast (videoPage (dev t)) * 0x2000"
      by (auto simp: in_hires_def same_restD)
    have h: "hword t = hword m" "page_ok t" using same_rest_hword[OF r] assms(1) by auto
    have fl: "flashCycle (dev t) = flashCycle (dev s)"
      using r assms(3) by (auto simp: in_hires_def same_restD)
    have red: "redraw t line k = redraw m line k" by (simp add: redraw_def[abs_def] h)
    let ?e = "redraw m line k (dev t)"
    have "in_hires m (t\<lparr>dev := ?e\<rparr>)"
      using t by (simp add: in_hires_def same_rest_def no_video_redraw) (simp add: redraw_def set_previous_def)
    moreover note line_step_redraw[OF k, of m line "dev s" "dev t"]
    moreover note line_step_keep[OF k assms(4), of m "dev t"]
    ultimately show "ends (\<lambda>t. in_hires m t \<and> line_upto m line (Suc k) (dev s) (dev t)) (hires_group line (2 * k) t)"
      unfolding hires_group_cases[OF h(2) va assms(2) k] h(1) red using t fl by auto
  qed (use assms(3,4) line_upto_0 in auto)
  then show ?thesis by (rule ends_mono) (use line_upto_done in blast)
qed

definition hires_ready :: "dev_state \<Rightarrow> bool" where
  "hires_ready d \<longleftrightarrow> (\<forall>line < 192. ready_line line d)"

lemma hires_lines:
  assumes "page_ok m" "hires_ready (dev m)" "N \<le> 192"
  shows "ends (\<lambda>t. in_hires m t \<and> (\<forall>line < N. line_done m line (dev t)))
    (for_range 0 N (\<lambda>line. for_range 0 20 (\<lambda>k. hires_group line (2 * k)))
       (upd_dev (\<lambda>d. d\<lparr>videoAddress := ucast (videoPage d) * 0x2000\<rparr>) m))"
proof -
  let ?I = "\<lambda>n t. in_hires m t \<and> (\<forall>line < n. line_done m line (dev t)) \<and> (\<forall>line \<ge> n. same_line line (dev m) (dev t))"
  let ?m = "upd_dev (\<lambda>d. d\<lparr>videoAddress := ucast (videoPage d) * 0x2000\<rparr>) m"
  have "ends (?I N) (for_range 0 N (\<lambda>line. for_range 0 20 (\<lambda>k. hires_group line (2 * k))) ?m)"
  proof (rule for_range_ends[where I = ?I])
    show "?I 0 ?m" by (simp add: in_hires_def same_rest_def same_line_def)
    fix n s assume n: "n < N" and s: "?I n s"
    then have "same_line n (dev m) (dev s)" "flashCycle (dev s) = flashCycle (dev m)"
      by (auto simp: in_hires_def same_restD)
    then have "ready_line n (dev s)"
      using ready_line_same assms(2,3) n by (auto simp: hires_ready_def)
    moreover have "n < 192" using n assms(3) by simp
    ultimately have l: "ends (\<lambda>t. in_hires m t \<and> line_done m n (dev t) \<and> (\<forall>l. l \<noteq> n \<longrightarrow> same_line l (dev s) (dev t)))
        (for_range 0 20 (\<lambda>k. hires_group n (2 * k)) s)"
      using hires_line[OF assms(1)] s by blast
    show "ends (?I (Suc n)) (for_range 0 20 (\<lambda>k. hires_group n (2 * k)) s)"
      using l
    proof (rule ends_mono)
      fix t assume t: "in_hires m t \<and> line_done m n (dev t) \<and> (\<forall>l. l \<noteq> n \<longrightarrow> same_line l (dev s) (dev t))"
      have "same_line line (dev m) (dev t)" if "Suc n \<le> line" for line
        using t s that same_line_trans[of line "dev m" "dev s" "dev t"] by simp
      moreover have "line_done m line (dev t)" if "line < Suc n" for line
        using t s that line_done_same[of line "dev s" "dev t" m] by (auto simp: less_Suc_eq)
      ultimately show "?I (Suc n) t" using t by blast
    qed
  qed simp
  then show ?thesis by (rule ends_mono) blast
qed

subsection \<open>The picture\<close>

text \<open>The dots of the page and their colours: 8 for odd columns, 4 for the colour set of the byte, 2 for a
  lit dot, 1 for a lit dot on its left.\<close>

definition lit :: "machine \<Rightarrow> nat \<Rightarrow> nat \<Rightarrow> bool" where
  "lit m x y = bit (hgr_byte m (x div 7) y) (x mod 7)"

definition hires_color :: "machine \<Rightarrow> nat \<Rightarrow> nat \<Rightarrow> u8" where
  "hires_color m x y = (if odd x then 8 else 0) + (if bit (hgr_byte m (x div 7) y) 7 then 4 else 0) +
     (if lit m x y then 2 else 0) + (if 0 < x \<and> lit m (x - 1) y then 1 else 0)"

lemma bits_of_bool: "bits w b = of_bool (bit w b)"
proof -
  have "drop_bit b w AND 1 = of_bool (bit w b)"
    by (rule bit_eqI) (auto simp: bit_simps)
  then show ?thesis by (simp add: bits_def)
qed

lemma bit_hword:
  "b < 8 \<Longrightarrow> bit (hword m line k) b = bit (hgr_byte m (2 * k) line) b"
  "b < 8 \<Longrightarrow> bit (hword m line k) (b + 8) = bit (hgr_byte m (2 * k + 1) line) b"
proof -
  let ?hi = "hgr_byte m (2 * k + 1) line" and ?lo = "hgr_byte m (2 * k) line"
  have "push_bit 8 (ucast ?hi :: u16) AND ucast ?lo = 0"
    by (rule bit_eqI) (auto simp: bit_simps dest: bit_imp_le_length)
  then have h: "hword m line k = push_bit 8 (ucast ?hi) OR ucast ?lo"
    by (simp add: hword_def disjunctive_add_eq_or)
  show "b < 8 \<Longrightarrow> bit (hword m line k) b = bit ?lo b" "b < 8 \<Longrightarrow> bit (hword m line k) (b + 8) = bit ?hi b"
    by (auto simp: h bit_simps dest: bit_imp_le_length)
qed

lemma group_lit:
  assumes "n < 14"
  shows "bits (hword m line k) (dot_bit n) = of_bool (lit m (14 * k + n) line)"
proof (cases "n < 7")
  case True
  then have "(14 * k + n) div 7 = 2 * k" "(14 * k + n) mod 7 = n"
    by (auto intro!: div_nat_eqI simp: mod_nat_eqI)
  then show ?thesis using True by (simp add: bits_of_bool dot_bit_def lit_def bit_hword)
next
  case False
  with assms have d: "(14 * k + n) div 7 = 2 * k + 1" by (intro div_nat_eqI) simp_all
  then have "(14 * k + n) mod 7 = n - 7" using False by (simp add: minus_div_mult_eq_mod[symmetric])
  with d show ?thesis
    using False assms bit_hword(2)[of "n - 7" m line k] by (simp add: bits_of_bool dot_bit_def lit_def)
qed

lemma line_pixel_color:
  assumes "x < 280"
  shows "line_pixel m line x = hires_color m x line"
proof -
  define k n where "k = x div 14" and "n = x mod 14"
  have x: "x = 14 * k + n" "n < 14" by (simp_all add: k_def n_def)
  have set: "(if n < 7 then bits (hword m line k) 7 else bits (hword m line k) 15) * 4 =
      (if bit (hgr_byte m (x div 7) line) 7 then 4 else 0)"
  proof (cases "n < 7")
    case True
    then have "x div 7 = 2 * k" unfolding x(1) by (intro div_nat_eqI) simp_all
    with True show ?thesis by (simp add: bits_of_bool bit_hword)
  next
    case False
    then have "x div 7 = 2 * k + 1" using x(2) unfolding x(1) by (intro div_nat_eqI) simp_all
    with False show ?thesis using bit_hword(2)[of 7 m line k] by (simp add: bits_of_bool)
  qed
  have left: "(if n = 0 then left_dot m line k else bits (hword m line k) (dot_bit (n - 1))) =
      (if 0 < x \<and> lit m (x - 1) line then 1 else 0)"
  proof (cases "n = 0")
    case True
    show ?thesis
    proof (cases k)
      case (Suc j)
      then show ?thesis using True x(1) group_lit[of 13 m line j] by (simp add: dot_bit_def add.commute)
    qed (use True x(1) in simp)
  next
    case False
    then show ?thesis using x group_lit[of "n - 1" m line k] by simp
  qed
  have "odd n = odd x" using x(1) by simp
  moreover have "push_bit 1 (bits (hword m line k) (dot_bit n)) = (if lit m x line then 2 else 0)"
    using group_lit[OF x(2), of m line k] by (simp flip: x(1))
  ultimately show ?thesis
    unfolding line_pixel_def k_def[symmetric] n_def[symmetric] dot_color_def hires_color_def set left by simp
qed

lemma line_done_ready: "line_done m line e \<Longrightarrow> ready_line line e"
  unfolding ready_line_def
proof (intro conjI disjI2 allI impI)
  assume d: "line_done m line e"
  then show "previousBit e line 0 = 0" by (auto simp: line_done_def dest!: spec[of _ 0])
  fix k :: nat and w :: u16 assume k: "k < 20" and w: "HiResCache e line (2 * k) = int (unat w)"
  have "int (unat w) = int (unat (hword m line k))" using d k w by (simp add: line_done_def)
  then have w: "w = hword m line k" by (simp only: of_nat_eq_iff word_unat_eq_iff)
  have p: "previousBit e line (2 * k) = left_dot m line k" using d k by (simp add: line_done_def)
  show "colorbuffer e (line * 280 + (14 * k + n)) = dot_color w (previousBit e line (2 * k)) n" if "n < 14" for n
    using d k that line_pixel_group[of k "14 * k + n" m line] by (simp add: line_done_def w p)
  show "previousBit e line (2 * k + 2) = bits w 14" if "k < 19"
    using d that by (auto simp: line_done_def w dest!: spec[of _ "Suc k"])
qed

text \<open>C5. In high-resolution mode a frame draws the picture the memory describes, although only groups of dots
  that changed are redrawn and a group's first colour depends on the group before it: the colour index
  of every dot is 8 in odd columns, plus 4 for the colour bit of its byte, plus 2 if it is lit, plus 1
  if its left neighbour on the line is.  It holds whenever the caches can be trusted or all is redrawn,
  and the frame leaves them trustworthy for the next one.\<close>

theorem hires_frame:
  assumes "page_ok m" and "ad_GetScreenMode (dev m) = HIRES_MODE" and "hires_ready (dev m)"
  shows "\<exists>m'. ad_Render F frame m = Some m' \<and> cpu m' = cpu m \<and> mem m' = mem m \<and> hires_ready (dev m') \<and>
    (\<forall>x < 280. \<forall>y < 192. colorbuffer (dev m') (y * 280 + x) = hires_color m x y)"
proof -
  have "\<not> mixedMode (dev m)" using assms(2) by (simp add: mode_cases)
  then obtain n where n: "render_hires m = Some n" "in_hires m n" "\<forall>line < 192. line_done m line (dev n)"
    using hires_lines[OF assms(1,3), of 192] by (auto simp: render_hires_def ends_iff)
  let ?m' = "upd_dev next_flash n"
  have ld: "line_done m line (dev ?m')" if "line < 192" for line
    using n(3) that by (simp add: line_done_def)
  then have "hires_ready (dev ?m')" unfolding hires_ready_def using line_done_ready by blast
  moreover have "colorbuffer (dev ?m') (y * 280 + x) = hires_color m x y" if "x < 280" "y < 192" for x y
    using ld[OF that(2)] that(1) line_pixel_color[OF that(1), of m y] unfolding line_done_def by metis
  moreover have "same_rest m n" using n(2) by (simp add: in_hires_def)
  moreover have "ad_Render F frame m = Some ?m'" by (simp add: ad_Render_cases(2)[OF assms(2)] n(1))
  ultimately show ?thesis using same_rest_next_flash by blast
qed

lemma hires_ready_reset: "hires_ready ((ad_Reset d)\<lparr>textMode := t, hires_Mode := h\<rparr>)"
  by (simp add: hires_ready_def ready_line_def ad_Reset_def)

theorem hires_frame_witness:
  "\<exists>m'. ad_Render \<lparr>af_font = (\<lambda>_ _. 0), af_invfont = (\<lambda>_ _. 0)\<rparr> 0 (screen_demo False True) = Some m' \<and>
     hires_ready (dev m') \<and> colorbuffer (dev m') (5 * 280 + 1) = 8 + 2 + 1 \<and> colorbuffer (dev m') (5 * 280 + 4) = 1"
proof -
  let ?F = "\<lparr>af_font = (\<lambda>_ _. 0), af_invfont = (\<lambda>_ _. 0)\<rparr>"
  have mode: "ad_GetScreenMode (dev (screen_demo False True)) = HIRES_MODE"
    by (simp add: ad_GetScreenMode_def screen_demo_def ad_Reset_def)
  have "hires_ready (dev (screen_demo False True))" by (simp add: screen_demo_def hires_ready_reset)
  from hires_frame[OF screen_demo_ok mode this, of ?F 0]
  obtain m' where m': "ad_Render ?F 0 (screen_demo False True) = Some m'" "hires_ready (dev m')"
    and px: "\<forall>x < 280. \<forall>y < 192. colorbuffer (dev m') (y * 280 + x) = hires_color (screen_demo False True) x y" by blast
  have b: "hgr_byte (screen_demo False True) 0 5 = 0x2F" by (simp add: hgr_byte_def screen_demo_def)
  have "bit (0x2F :: u8) 0" "bit (0x2F :: u8) 1" "bit (0x2F :: u8) 3" "\<not> bit (0x2F :: u8) 4" "\<not> bit (0x2F :: u8) 7"
    by code_simp+
  with b have "hires_color (screen_demo False True) 1 5 = 11" "hires_color (screen_demo False True) 4 5 = 1"
    by (simp_all add: hires_color_def lit_def)
  then show ?thesis
    using m' px[rule_format, of 1 5] px[rule_format, of 4 5] by simp
qed

end
