(* ===== verification/Block_List.thy ===== *)
theory Block_List
  imports Prelude
begin

text \<open>
  Headers that tile an arena.  Both allocators of the kernel keep a linked list of block headers
  inside the memory they manage: each header is followed by its payload and the next header starts
  where the payload ends.  \<open>seg nxt len ps z e\<close> says this of the headers \<open>ps\<close>: following \<open>nxt\<close> visits
  them in order and ends in \<open>z\<close>, and header and payload of each fill the space up to the next
  header, of the last one up to address \<open>e\<close>.  A header takes 16 bytes in both allocators.

  The locale \<open>allocator\<close> is the contract of an allocator towards its clients, with the consequence
  that blocks handed out one after the other never overlap.
\<close>

fun seg :: "(u32 \<Rightarrow> u32) \<Rightarrow> (u32 \<Rightarrow> u32) \<Rightarrow> u32 list \<Rightarrow> u32 \<Rightarrow> nat \<Rightarrow> bool" where
  "seg nxt len [] z e \<longleftrightarrow> True"
| "seg nxt len (p # ps) z e \<longleftrightarrow> p \<noteq> 0 \<and> nxt p = (if ps = [] then z else hd ps) \<and>
     unat p + 16 + unat (len p) = (if ps = [] then e else unat (hd ps)) \<and> seg nxt len ps z e"

text \<open>The payload of a block as an interval of addresses.\<close>

definition payload :: "(u32 \<Rightarrow> u32) \<Rightarrow> u32 \<Rightarrow> nat set" where
  "payload len p = {unat p + 16 ..< unat p + 16 + unat (len p)}"

lemma seg_append:
  "qs \<noteq> [] \<Longrightarrow> seg nxt len (ps @ qs) z e \<longleftrightarrow>
     seg nxt len ps (hd qs) (unat (hd qs)) \<and> seg nxt len qs z e"
  by (induction ps) auto

lemma seg_cong:
  "(\<And>p. p \<in> set ps \<Longrightarrow> nxt p = nxt' p \<and> len p = len' p) \<Longrightarrow>
   seg nxt len ps z e = seg nxt' len' ps z e"
  by (induction ps) auto

lemma seg_nonzero: "seg nxt len ps z e \<Longrightarrow> p \<in> set ps \<Longrightarrow> p \<noteq> 0"
  by (induction ps) auto

lemma seg_bounds_all:
  "seg nxt len ps z e \<Longrightarrow>
   \<forall>p \<in> set ps. unat (hd ps) \<le> unat p \<and> unat p + 16 + unat (len p) \<le> e"
proof (induction ps)
  case (Cons q ps)
  show ?case
  proof (cases "ps = []")
    case False
    then have "unat q + 16 + unat (len q) = unat (hd ps)" and "hd ps \<in> set ps"
      and "\<forall>p \<in> set ps. unat (hd ps) \<le> unat p \<and> unat p + 16 + unat (len p) \<le> e"
      using Cons by auto
    then show ?thesis by force
  qed (use Cons.prems in auto)
qed simp

lemmas seg_bounds = seg_bounds_all [THEN bspec]

lemma seg_before:
  assumes "seg nxt len (ps @ p # qs) z e" and "q \<in> set qs"
  shows "unat p + 16 + unat (len p) \<le> unat q"
proof -
  from assms(2) have "qs \<noteq> []" by auto
  moreover have "seg nxt len (p # qs) z e" using assms(1) by (simp add: seg_append)
  ultimately show ?thesis
    using seg_bounds [of nxt len qs z e q] assms(2) by auto
qed

lemma seg_distinct: "seg nxt len ps z e \<Longrightarrow> distinct ps"
proof (induction ps)
  case (Cons p ps)
  then have "p \<notin> set ps"
    using seg_before [of nxt len "[]" p ps z e p] by auto
  with Cons show ?case by simp
qed simp

lemma seg_disjoint:
  assumes "seg nxt len ps z e" and "p \<in> set ps" and "q \<in> set ps" and "p \<noteq> q"
  shows "payload len p \<inter> payload len q = {}"
proof -
  from assms(2) obtain as bs where ps: "ps = as @ p # bs" by (auto dest: split_list)
  with assms(3,4) consider "q \<in> set bs" | cs ds where "as = cs @ q # ds"
    by (auto dest: split_list)
  then show ?thesis
  proof cases
    case 1
    with seg_before [OF assms(1) [unfolded ps]] show ?thesis by (force simp: payload_def)
  next
    case 2
    with seg_before [of nxt len cs q "ds @ p # bs" z e p] assms(1) ps show ?thesis
      by (force simp: payload_def)
  qed
qed

text \<open>The links determine the list.\<close>

lemma seg_unique:
  "seg nx ln ps 0 e \<Longrightarrow> seg nx ln qs 0 e \<Longrightarrow> ps \<noteq> [] \<Longrightarrow> qs \<noteq> [] \<Longrightarrow> hd ps = hd qs \<Longrightarrow> ps = qs"
proof (induction ps arbitrary: qs)
  case (Cons p ps)
  from Cons.prems(4,5) obtain qs' where qs: "qs = p # qs'" by (cases qs) auto
  have nz: "hd xs \<noteq> 0" if "seg nx ln xs 0 e" "xs \<noteq> []" for xs
    using that by (cases xs) auto
  have n: "nx p = (if ps = [] then 0 else hd ps)" "nx p = (if qs' = [] then 0 else hd qs')"
    and sg: "seg nx ln ps 0 e" "seg nx ln qs' 0 e"
    using Cons.prems(1,2) unfolding qs by simp_all
  show ?case
  proof (cases "ps = []")
    case True
    then have "qs' = []" using n nz [OF sg(2)] by (auto split: if_splits)
    with True qs show ?thesis by simp
  next
    case False
    then have "qs' \<noteq> []" "hd ps = hd qs'" using n nz [OF sg(1)] by (auto split: if_splits)
    with Cons.IH [OF sg] False qs show ?thesis by simp
  qed
qed simp

text \<open>What a search down the list finds.\<close>

lemma find_split:
  "find P ps = Some p \<Longrightarrow> \<exists>as bs. ps = as @ p # bs \<and> P p \<and> (\<forall>a \<in> set as. \<not> P a)"
proof (induction ps)
  case (Cons q ps)
  show ?case
  proof (cases "P q")
    case True
    then show ?thesis using Cons.prems by (intro exI [of _ "[]"] exI [of _ ps]) simp
  next
    case False
    then obtain as bs where "ps = as @ p # bs" "P p" "\<forall>a \<in> set as. \<not> P a"
      using Cons by auto
    then show ?thesis using False by (intro exI [of _ "q # as"] exI [of _ bs]) simp
  qed
qed simp

subsection \<open>Cutting and joining blocks\<close>

lemma seg_snoc: "seg nxt len (ps @ [p]) z e \<longleftrightarrow> seg nxt len ps p (unat p) \<and> seg nxt len [p] z e"
  by (simp add: seg_append)

text \<open>Cut the payload of \<open>p\<close> after \<open>n\<close> bytes and put a header \<open>q\<close> there.\<close>

lemma seg_cut:
  assumes "seg nxt len (ps @ p # qs) z e" and "e \<le> 2 ^ 32 - 1"
    and "unat n + 16 \<le> unat (len p)"
  defines "q \<equiv> p + 16 + n"
  shows "seg (nxt(p := q, q := nxt p)) (len(q := len p - n - 16, p := n)) (ps @ p # q # qs) z e"
    and "unat q = unat p + 16 + unat n" and "q \<notin> set (ps @ p # qs)"
proof -
  have p: "seg nxt len (p # qs) z e" and b: "unat p + 16 + unat (len p) \<le> e"
    using assms(1) seg_bounds [OF assms(1), of p] by (auto simp: seg_append)
  show q: "unat q = unat p + 16 + unat n"
    using b assms(2,3) by (simp add: q_def unat_word_ariths)
  have "unat (16 + n) = unat n + 16"
    using b assms(2,3) by (simp add: unat_word_ariths)
  then have l: "unat (len p - n - 16) = unat (len p) - unat n - 16"
    using assms(3) unat_sub [of "16 + n" "len p"] by (simp add: word_le_nat_alt algebra_simps)
  show q_new: "q \<notin> set (ps @ p # qs)"
  proof
    assume "q \<in> set (ps @ p # qs)"
    then consider "q \<in> set ps" | "q = p" | "q \<in> set qs" by auto
    then show False
    proof cases
      case 1
      then have "unat q \<le> unat p"
        using seg_bounds [of nxt len ps p "unat p" q] assms(1) by (auto simp: seg_append)
      with q show ?thesis by simp
    next
      case 3
      with seg_before [OF assms(1)] q assms(3) show ?thesis by force
    qed (use q in simp)
  qed
  have d: "p \<notin> set ps" "p \<notin> set qs" using seg_distinct [OF assms(1)] by auto
  have "seg nxt len ps p (unat p)" using assms(1) by (simp add: seg_append)
  then have 1: "seg (nxt(p := q, q := nxt p)) (len(q := len p - n - 16, p := n)) ps p (unat p)"
    using q_new d by (subst seg_cong [of ps _ nxt _ len]) auto
  have "seg nxt len qs z e" using p by simp
  then have 2: "seg (nxt(p := q, q := nxt p)) (len(q := len p - n - 16, p := n)) qs z e"
    using q_new d by (subst seg_cong [of qs _ nxt _ len]) auto
  have "q \<noteq> p" "q \<noteq> 0" "p \<noteq> 0" using q_new q p by auto
  then show "seg (nxt(p := q, q := nxt p)) (len(q := len p - n - 16, p := n)) (ps @ p # q # qs) z e"
    using 1 2 p q l assms(3) by (auto simp: seg_append)
qed

text \<open>Join \<open>p\<close> with the block \<open>q\<close> that follows it.\<close>

lemma seg_join:
  assumes "seg nxt len (ps @ p # q # qs) z e" and "e \<le> 2 ^ 32 - 1"
  shows "seg (nxt(p := nxt q)) (len(p := len p + 16 + len q)) (ps @ p # qs) z e"
    and "unat (len p + 16 + len q) = unat (len p) + 16 + unat (len q)"
proof -
  have p: "seg nxt len (p # q # qs) z e" and b: "unat q + 16 + unat (len q) \<le> e"
    using assms(1) seg_bounds [OF assms(1), of q] by (auto simp: seg_append)
  show l: "unat (len p + 16 + len q) = unat (len p) + 16 + unat (len q)"
    using p b assms(2) by (simp add: unat_word_ariths)
  have d: "p \<notin> set ps" "p \<notin> set qs" using seg_distinct [OF assms(1)] by auto
  have 1: "seg (nxt(p := nxt q)) (len(p := len p + 16 + len q)) ps p (unat p)"
    using assms(1) d by (subst seg_cong [of ps _ nxt _ len]) (auto simp: seg_append)
  have 2: "seg (nxt(p := nxt q)) (len(p := len p + 16 + len q)) qs z e"
    using p d by (subst seg_cong [of qs _ nxt _ len]) auto
  show "seg (nxt(p := nxt q)) (len(p := len p + 16 + len q)) (ps @ p # qs) z e"
    using 1 2 p l by (auto simp: seg_append)
qed

subsection \<open>Back links\<close>

fun prev_chain :: "(u32 \<Rightarrow> u32) \<Rightarrow> u32 \<Rightarrow> u32 list \<Rightarrow> bool" where
  "prev_chain prv a [] \<longleftrightarrow> True"
| "prev_chain prv a (p # ps) \<longleftrightarrow> prv p = a \<and> prev_chain prv p ps"

lemma prev_chain_append:
  "prev_chain prv a (ps @ qs) \<longleftrightarrow> prev_chain prv a ps \<and> prev_chain prv (last (a # ps)) qs"
  by (induction ps arbitrary: a) auto

lemma prev_chain_cong:
  "(\<And>p. p \<in> set ps \<Longrightarrow> prv p = prv' p) \<Longrightarrow> prev_chain prv a ps = prev_chain prv' a ps"
  by (induction ps arbitrary: a) auto

text \<open>Joining keeps the back links when the block after the joined pair is told.\<close>

lemma chain_join:
  assumes "seg nxt len (as @ p # q # bs) z e" and "prev_chain prv a (as @ p # q # bs)"
    and keep: "\<And>x. x \<notin> set (take 1 bs) \<Longrightarrow> prv' x = prv x" and told: "bs \<noteq> [] \<Longrightarrow> prv' (hd bs) = p"
  shows "prev_chain prv' a (as @ p # bs)"
proof -
  have d: "distinct (as @ p # q # bs)" using seg_distinct [OF assms(1)] .
  have "prev_chain prv' a (as @ [p]) = prev_chain prv a (as @ [p])"
    using d by (intro prev_chain_cong keep) (cases bs, auto)
  moreover have "prev_chain prv' p bs = prev_chain prv q bs"
  proof (cases bs)
    case (Cons b bs')
    then have "prev_chain prv' b bs' = prev_chain prv b bs'" using d by (intro prev_chain_cong keep) auto
    moreover have "prv' b = p" "prv b = q" using Cons told assms(2) by (auto simp: prev_chain_append)
    ultimately show ?thesis using Cons by simp
  qed simp
  ultimately show ?thesis using assms(2) by (simp add: prev_chain_append)
qed

subsection \<open>Release\<close>

text \<open>The abstract release: the block becomes free and joins free neighbours on both sides.\<close>

fun absorb :: "u32 \<times> u32 \<times> bool \<Rightarrow> (u32 \<times> u32 \<times> bool) list \<Rightarrow> (u32 \<times> u32 \<times> bool) list" where
  "absorb (p, l, u) ((q, m, v) # bs) = (if v then (p, l, u) # (q, m, v) # bs else (p, l + 16 + m, u) # bs)"
| "absorb b [] = [b]"

fun release :: "u32 \<Rightarrow> (u32 \<times> u32 \<times> bool) list \<Rightarrow> (u32 \<times> u32 \<times> bool) list" where
  "release p [] = []"
| "release p ((q, l, u) # bs) =
     (if q = p then absorb (q, l, False) bs
      else if bs \<noteq> [] \<and> fst (hd bs) = p \<and> \<not> u then absorb (q, l, u) (release p bs)
      else (q, l, u) # release p bs)"

lemma release_after:
  "p \<notin> fst ` set xs \<Longrightarrow> q \<noteq> p \<Longrightarrow>
   release p (xs @ (q, m, v) # (p, l, u) # bs) =
     xs @ (if v then (q, m, v) # absorb (p, l, False) bs else absorb (q, m, v) (absorb (p, l, False) bs))"
proof (induction xs)
  case (Cons x xs)
  then show ?case by (cases x; cases xs) auto
qed simp

definition used_set :: "(u32 \<times> u32 \<times> bool) list \<Rightarrow> (u32 \<times> u32 \<times> bool) set" where
  "used_set bs = {b \<in> set bs. snd (snd b)}"

lemma used_absorb: "\<not> u \<Longrightarrow> used_set (absorb (p, l, u) bs) = used_set bs"
  by (cases bs) (auto simp: used_set_def split: if_splits)

lemma used_release:
  "distinct (map fst bs) \<Longrightarrow> used_set (release p bs) = {b \<in> used_set bs. fst b \<noteq> p}"
proof (induction bs)
  case (Cons b bs)
  obtain q l u where b: "b = (q, l, u)" by (cases b)
  have "used_set ((q, l, u) # bs) = (if u then {(q, l, u)} else {}) \<union> used_set bs" for bs
    by (auto simp: used_set_def)
  then show ?case
    using Cons by (auto simp: b used_absorb) (auto simp: used_set_def image_iff)
qed (simp add: used_set_def)

subsection \<open>The allocator contract\<close>

fun allocs :: "(u32 \<Rightarrow> 's \<Rightarrow> (u32 \<times> 's) option) \<Rightarrow> u32 list \<Rightarrow> 's \<Rightarrow> (u32 list \<times> 's) option" where
  "allocs alloc [] s = Some ([], s)"
| "allocs alloc (n # ns) s = do {
     (r, s) \<leftarrow> alloc n s; (rs, s) \<leftarrow> allocs alloc ns s; Some (r # rs, s) }"

definition region :: "u32 \<Rightarrow> u32 \<Rightarrow> nat set" where
  "region r n = (if r = 0 then {} else {unat r ..< unat r + unat n})"

locale allocator =
  fixes alloc :: "u32 \<Rightarrow> 's \<Rightarrow> (u32 \<times> 's) option" and ok :: "u32 \<Rightarrow> bool"
    and inv :: "'s \<Rightarrow> bool" and live :: "'s \<Rightarrow> nat set"
  assumes alloc_inv: "inv s \<Longrightarrow> alloc n s = Some (r, s') \<Longrightarrow> inv s'"
    and alloc_live: "inv s \<Longrightarrow> alloc n s = Some (r, s') \<Longrightarrow> live s \<subseteq> live s'"
    and alloc_fresh: "inv s \<Longrightarrow> ok n \<Longrightarrow> alloc n s = Some (r, s') \<Longrightarrow>
      region r n \<inter> live s = {} \<and> region r n \<subseteq> live s'"
begin

lemma allocs_fresh:
  assumes "inv s" and "\<forall>n \<in> set ns. ok n" and "allocs alloc ns s = Some (rs, s')"
  shows "inv s' \<and> live s \<subseteq> live s' \<and> length rs = length ns \<and>
    (\<forall>i < length ns. region (rs ! i) (ns ! i) \<inter> live s = {} \<and> region (rs ! i) (ns ! i) \<subseteq> live s') \<and>
    (\<forall>j < length ns. \<forall>i < j. region (rs ! i) (ns ! i) \<inter> region (rs ! j) (ns ! j) = {})"
  using assms
proof (induction ns arbitrary: s rs)
  case (Cons n ns)
  then obtain r s1 rs1 where r: "alloc n s = Some (r, s1)" "allocs alloc ns s1 = Some (rs1, s')"
    "rs = r # rs1" by (auto simp: bind_eq_Some_conv)
  have s1: "inv s1" "live s \<subseteq> live s1" "region r n \<inter> live s = {}" "region r n \<subseteq> live s1"
    using alloc_inv alloc_live alloc_fresh Cons.prems r by auto
  note IH = Cons.IH [OF s1(1) _ r(2)]
  have fresh: "region (rs1 ! i) (ns ! i) \<inter> live s1 = {} \<and> region (rs1 ! i) (ns ! i) \<subseteq> live s'"
    if "i < length ns" for i
    using IH Cons.prems(2) that by simp
  have "region ((r # rs1) ! i) ((n # ns) ! i) \<inter> live s = {} \<and>
      region ((r # rs1) ! i) ((n # ns) ! i) \<subseteq> live s'" if "i < Suc (length ns)" for i
  proof (cases i)
    case 0
    then show ?thesis using s1 IH Cons.prems(2) by auto
  next
    case (Suc j)
    then show ?thesis using fresh [of j] s1(2) that by (simp add: disjoint_iff) blast
  qed
  moreover have "region ((r # rs1) ! i) ((n # ns) ! i) \<inter> region ((r # rs1) ! j) ((n # ns) ! j) = {}"
    if "j < Suc (length ns)" "i < j" for i j
  proof -
    from that obtain k where k: "j = Suc k" "k < length ns" by (cases j) auto
    show ?thesis
    proof (cases i)
      case 0
      then show ?thesis using fresh [OF k(2)] s1(4) k(1) by (simp add: disjoint_iff) blast
    next
      case (Suc l)
      then show ?thesis using IH Cons.prems(2) k that(2) by simp
    qed
  qed
  moreover have "inv s'" "live s1 \<subseteq> live s'" "length rs1 = length ns"
    using IH Cons.prems(2) by auto
  ultimately show ?case using s1(2) unfolding r(3) by simp
qed simp

end

end
