(* ===== verification/Kmem.thy ===== *)
theory Kmem
  imports Block_List Mem_Ops
begin

text \<open>
  \<^verbatim>\<open>Src/memory.c\<close>: the first-fit allocator behind \<^verbatim>\<open>malloc\<close> and \<^verbatim>\<open>free\<close>.

  The block headers are kept in a store from header addresses to records, the payload bytes in a
  byte store; on the 32-bit target a header takes 16 bytes.  In memory both lie in one arena.  The
  split is exact as long as headers do not overlap each other or a payload in use, which is what
  the tiling invariant says, and as long as clients stay inside their blocks.  A null pointer is
  address 0.  Sizes and addresses are 32-bit words and wrap.
\<close>

record m_header =
  hprev :: u32
  hnext :: u32
  hlength :: u32
  hused :: bool

record kmem =
  head :: u32
  hdr :: "u32 \<Rightarrow> m_header"
  kbytes :: bytes

definition header_len :: u32 where "header_len = 16"
definition MAX_MEM_SIZE :: u32 where "MAX_MEM_SIZE = 1024 * 1024 * 10"
definition g_memory :: u32 where "g_memory = 0x00100000"

text \<open>The allocator's memory before \<^verbatim>\<open>k_init_mem\<close>.\<close>

definition kmem_image :: kmem where
  "kmem_image = \<lparr>head = 0, hdr = (\<lambda>_. \<lparr>hprev = 0, hnext = 0, hlength = 0, hused = False\<rparr>),
     kbytes = (\<lambda>_. 0)\<rparr>"

subsection \<open>Operations\<close>

definition upd_hdr :: "u32 \<Rightarrow> (m_header \<Rightarrow> m_header) \<Rightarrow> kmem \<Rightarrow> kmem" where
  "upd_hdr p f s = s\<lparr>hdr := (hdr s)(p := f (hdr s p))\<rparr>"

definition k_init_mem :: "kmem \<Rightarrow> kmem" where
  "k_init_mem s =
     (if head s \<noteq> 0 \<or> MAX_MEM_SIZE < header_len then s
      else upd_hdr g_memory
        (\<lambda>_. \<lparr>hprev = 0, hnext = 0, hlength = MAX_MEM_SIZE - header_len, hused = False\<rparr>)
        (s\<lparr>head := g_memory\<rparr>))"

text \<open>Rounding up to four bytes; a size within three of \<^verbatim>\<open>SIZE_MAX\<close> wraps to zero.\<close>

definition round4 :: "u32 \<Rightarrow> u32" where
  "round4 sz = (if sz AND 3 \<noteq> 0 then (sz AND NOT 3) + 4 else sz)"

definition fits :: "u32 \<Rightarrow> kmem \<Rightarrow> u32 \<Rightarrow> bool" where
  "fits sz s p \<longleftrightarrow> \<not> hused (hdr s p) \<and> sz \<le> hlength (hdr s p)"

text \<open>The branch of the loop that takes block \<open>p\<close>.\<close>

definition split_block :: "u32 \<Rightarrow> u32 \<Rightarrow> kmem \<Rightarrow> kmem" where
  "split_block sz p s =
     (let split = p + header_len + sz;
          s = upd_hdr split (\<lambda>h. h\<lparr>hprev := p\<rparr>) s;
          s = upd_hdr split (\<lambda>h. h\<lparr>hnext := hnext (hdr s p)\<rparr>) s;
          s = upd_hdr p (\<lambda>h. h\<lparr>hnext := split\<rparr>) s;
          s = upd_hdr split (\<lambda>h. h\<lparr>hused := False\<rparr>) s;
          s = upd_hdr split (\<lambda>h. h\<lparr>hlength := hlength (hdr s p) - sz - header_len\<rparr>) s
      in upd_hdr p (\<lambda>h. h\<lparr>hlength := sz\<rparr>) s)"

definition take_block :: "u32 \<Rightarrow> u32 \<Rightarrow> kmem \<Rightarrow> kmem" where
  "take_block sz p s =
     (let s = (if sz + header_len \<le> hlength (hdr s p) then split_block sz p s else s)
      in upd_hdr p (\<lambda>h. h\<lparr>hused := True\<rparr>) s)"

partial_function (option) malloc_loop :: "u32 \<Rightarrow> u32 \<Rightarrow> kmem \<Rightarrow> (u32 \<times> kmem) option" where
  "malloc_loop sz p s =
     (if p = 0 then Some (0, s)
      else if fits sz s p then Some (p + header_len, take_block sz p s)
      else malloc_loop sz (hnext (hdr s p)) s)"

definition malloc :: "u32 \<Rightarrow> kmem \<Rightarrow> (u32 \<times> kmem) option" where
  "malloc sz s = (if sz = 0 then Some (0, s) else malloc_loop (round4 sz) (head s) s)"

text \<open>The two merges of \<^verbatim>\<open>free\<close>, with the following and with the preceding block.\<close>

definition merge_next :: "u32 \<Rightarrow> kmem \<Rightarrow> kmem" where
  "merge_next entry s =
     (if hnext (hdr s entry) \<noteq> 0 \<and> \<not> hused (hdr s (hnext (hdr s entry))) then
        let s = upd_hdr entry
              (\<lambda>h. h\<lparr>hlength := hlength h + (header_len + hlength (hdr s (hnext h)))\<rparr>) s;
            s = upd_hdr entry (\<lambda>h. h\<lparr>hnext := hnext (hdr s (hnext h))\<rparr>) s
        in if hnext (hdr s entry) \<noteq> 0
           then upd_hdr (hnext (hdr s entry)) (\<lambda>h. h\<lparr>hprev := entry\<rparr>) s else s
      else s)"

definition merge_prev :: "u32 \<Rightarrow> kmem \<Rightarrow> kmem" where
  "merge_prev entry s =
     (let e = hdr s entry; pv = hprev e in
      if pv \<noteq> 0 \<and> \<not> hused (hdr s pv) then
        let s = upd_hdr pv (\<lambda>h. h\<lparr>hlength := hlength h + (header_len + hlength e)\<rparr>) s;
            s = upd_hdr pv (\<lambda>h. h\<lparr>hnext := hnext (hdr s entry)\<rparr>) s
        in if hnext (hdr s entry) \<noteq> 0
           then upd_hdr (hnext (hdr s entry)) (\<lambda>h. h\<lparr>hprev := hprev (hdr s entry)\<rparr>) s else s
      else s)"

definition free :: "u32 \<Rightarrow> kmem \<Rightarrow> kmem" where
  "free p s =
     (if p = 0 then s
      else let entry = p - header_len;
               s = upd_hdr entry (\<lambda>h. h\<lparr>hused := False\<rparr>) s
           in merge_prev entry (merge_next entry s))"

definition calloc :: "u32 \<Rightarrow> u32 \<Rightarrow> kmem \<Rightarrow> (u32 \<times> kmem) option" where
  "calloc num sz s = do {
     (buf, s) \<leftarrow> malloc (num * sz) s;
     Some (buf, if buf \<noteq> 0
       then s\<lparr>kbytes := memset (kbytes s) (unat buf) 0 (unat (num * sz))\<rparr> else s) }"



subsection \<open>Invariant\<close>

definition heap_end :: nat where "heap_end = unat g_memory + unat MAX_MEM_SIZE"

abbreviation nxt :: "kmem \<Rightarrow> u32 \<Rightarrow> u32" where "nxt s p \<equiv> hnext (hdr s p)"
abbreviation len :: "kmem \<Rightarrow> u32 \<Rightarrow> u32" where "len s p \<equiv> hlength (hdr s p)"

text \<open>\<open>heap_list s ps\<close>: the headers reachable from \<^verbatim>\<open>head\<close> are \<open>ps\<close>, they tile the arena and are
  word aligned.  \<open>back_links\<close> adds that the \<^verbatim>\<open>prev\<close> pointers agree.\<close>

definition heap_list :: "kmem \<Rightarrow> u32 list \<Rightarrow> bool" where
  "heap_list s ps \<longleftrightarrow> ps \<noteq> [] \<and> head s = hd ps \<and> seg (nxt s) (len s) ps 0 heap_end \<and>
     (\<forall>p \<in> set ps. 4 dvd unat p)"

definition back_links :: "kmem \<Rightarrow> u32 list \<Rightarrow> bool" where
  "back_links s ps \<longleftrightarrow> prev_chain (\<lambda>p. hprev (hdr s p)) 0 ps"

definition heap_inv :: "kmem \<Rightarrow> bool" where
  "heap_inv s \<longleftrightarrow> (\<exists>ps. heap_list s ps)"

definition live :: "kmem \<Rightarrow> nat set" where
  "live s = {a. \<exists>ps p. heap_list s ps \<and> p \<in> set ps \<and> hused (hdr s p) \<and> a \<in> payload (len s) p}"

text \<open>The abstract view: address, length and use of each block, and first fit on it.\<close>

definition blocks :: "kmem \<Rightarrow> u32 list \<Rightarrow> (u32 \<times> u32 \<times> bool) list" where
  "blocks s ps = map (\<lambda>p. (p, len s p, hused (hdr s p))) ps"

fun first_fit :: "u32 \<Rightarrow> (u32 \<times> u32 \<times> bool) list \<Rightarrow> u32 \<times> (u32 \<times> u32 \<times> bool) list" where
  "first_fit n [] = (0, [])"
| "first_fit n ((p, l, u) # bs) =
     (if \<not> u \<and> n \<le> l
      then (p + 16, if unat n + 16 \<le> unat l
              then (p, n, True) # (p + 16 + n, l - n - 16, False) # bs else (p, l, True) # bs)
      else let (r, bs) = first_fit n bs in (r, (p, l, u) # bs))"

lemma heap_end_le: "heap_end \<le> 2 ^ 32 - 1"
  by (simp add: heap_end_def g_memory_def MAX_MEM_SIZE_def)

lemma heap_list_unique: "heap_list s ps \<Longrightarrow> heap_list s qs \<Longrightarrow> ps = qs"
  by (auto simp: heap_list_def intro: seg_unique)

lemma live_eq: "heap_list s ps \<Longrightarrow> live s = (\<Union>p \<in> {p \<in> set ps. hused (hdr s p)}. payload (len s) p)"
  unfolding live_def using heap_list_unique by blast

subsection \<open>Initialisation\<close>

lemma init_heap_list:
  "head s = 0 \<Longrightarrow> heap_list (k_init_mem s) [g_memory] \<and> back_links (k_init_mem s) [g_memory]"
  by (simp add: heap_list_def back_links_def k_init_mem_def upd_hdr_def heap_end_def g_memory_def
      MAX_MEM_SIZE_def header_len_def)

subsection \<open>First fit\<close>

lemma malloc_loop_find:
  "seg (nxt s) (len s) ps 0 e \<Longrightarrow>
   malloc_loop n (if ps = [] then 0 else hd ps) s =
     Some (case find (fits n s) ps of None \<Rightarrow> (0, s) | Some p \<Rightarrow> (p + 16, take_block n p s))"
proof (induction ps)
  case Nil
  show ?case by (subst malloc_loop.simps) simp
next
  case (Cons p ps)
  then show ?case
    by (subst malloc_loop.simps) (auto simp: header_len_def)
qed

lemma no_wrap: "unat l \<le> heap_end \<Longrightarrow> n \<le> l \<Longrightarrow> (n + 16 \<le> l) = (unat n + 16 \<le> unat l)" for n l :: u32
  by (simp add: word_le_nat_alt unat_word_ariths heap_end_def g_memory_def MAX_MEM_SIZE_def)

lemma split_block_hdr:
  "p + 16 + n \<noteq> p \<Longrightarrow> hdr (split_block n p s) = (hdr s)
     (p + 16 + n := \<lparr>hprev = p, hnext = nxt s p, hlength = len s p - n - 16, hused = False\<rparr>,
      p := hdr s p\<lparr>hnext := p + 16 + n, hlength := n\<rparr>)"
  by (simp add: split_block_def upd_hdr_def Let_def header_len_def fun_eq_iff)

lemma take_block_frame [simp]:
  "head (take_block n p s) = head s" "kbytes (take_block n p s) = kbytes s"
  by (simp_all add: take_block_def split_block_def upd_hdr_def Let_def)

lemma take_block_cut:
  assumes "heap_list s (as @ p # bs)" and "unat n + 16 \<le> unat (len s p)" and "4 dvd unat n"
  defines "q \<equiv> p + 16 + n" and "s' \<equiv> take_block n p s"
  shows "heap_list s' (as @ p # q # bs)"
    and "hdr s' = (hdr s)
      (q := \<lparr>hprev = p, hnext = nxt s p, hlength = len s p - n - 16, hused = False\<rparr>,
       p := hdr s p\<lparr>hnext := q, hlength := n, hused := True\<rparr>)"
    and "q \<notin> set (as @ p # bs)"
proof -
  have sg: "seg (nxt s) (len s) (as @ p # bs) 0 heap_end" and al: "4 dvd unat p"
    using assms(1) by (auto simp: heap_list_def)
  note cut = seg_cut [OF sg heap_end_le assms(2), folded q_def]
  have "unat (len s p) \<le> heap_end" using seg_bounds [OF sg, of p] by simp
  then have c: "n + header_len \<le> len s p"
    using no_wrap [of "len s p" n] assms(2) by (simp add: header_len_def word_le_nat_alt)
  show new: "q \<notin> set (as @ p # bs)" using cut(3) .
  then have "q \<noteq> p" by auto
  then show h: "hdr s' = (hdr s)
      (q := \<lparr>hprev = p, hnext = nxt s p, hlength = len s p - n - 16, hused = False\<rparr>,
       p := hdr s p\<lparr>hnext := q, hlength := n, hused := True\<rparr>)"
    using c split_block_hdr [of p n s]
    by (simp add: s'_def q_def take_block_def Let_def upd_hdr_def)
  have "nxt s' = (nxt s)(p := q, q := nxt s p)" "len s' = (len s)(q := len s p - n - 16, p := n)"
    using \<open>q \<noteq> p\<close> by (auto simp: h fun_eq_iff)
  then have "seg (nxt s') (len s') (as @ p # q # bs) 0 heap_end"
    using cut(1) by simp
  moreover have "4 dvd unat q" using cut(2) al assms(3) by simp
  ultimately show "heap_list s' (as @ p # q # bs)"
    using assms(1) by (auto simp: heap_list_def s'_def hd_append)
qed

lemma take_block_whole:
  assumes "heap_list s (as @ p # bs)" and "n \<le> len s p" and "\<not> unat n + 16 \<le> unat (len s p)"
  defines "s' \<equiv> take_block n p s"
  shows "heap_list s' (as @ p # bs)" and "hdr s' = (hdr s)(p := hdr s p\<lparr>hused := True\<rparr>)"
proof -
  have sg: "seg (nxt s) (len s) (as @ p # bs) 0 heap_end"
    using assms(1) by (auto simp: heap_list_def)
  have "unat (len s p) \<le> heap_end" using seg_bounds [OF sg, of p] by simp
  then show h: "hdr s' = (hdr s)(p := hdr s p\<lparr>hused := True\<rparr>)"
    using no_wrap [of "len s p" n] assms(2,3)
    by (simp add: s'_def take_block_def upd_hdr_def header_len_def)
  have "nxt s' = nxt s" "len s' = len s" by (auto simp: h fun_eq_iff)
  then show "heap_list s' (as @ p # bs)"
    using assms(1) by (simp add: heap_list_def s'_def)
qed

lemma malloc_result:
  assumes "heap_list s ps" and "n \<noteq> 0"
  obtains (full) "malloc n s = Some (0, s)" "\<forall>p \<in> set ps. \<not> fits (round4 n) s p"
  | (taken) as p bs where "ps = as @ p # bs" "fits (round4 n) s p" "\<forall>a \<in> set as. \<not> fits (round4 n) s a"
      "malloc n s = Some (p + 16, take_block (round4 n) p s)"
proof -
  have m: "malloc n s =
      Some (case find (fits (round4 n) s) ps of None \<Rightarrow> (0, s) | Some p \<Rightarrow> (p + 16, take_block (round4 n) p s))"
    using malloc_loop_find [of s ps heap_end "round4 n"] assms by (simp add: malloc_def heap_list_def)
  show ?thesis
  proof (cases "find (fits (round4 n) s) ps")
    case None
    then have "malloc n s = Some (0, s)" using m by simp
    with None show ?thesis using full by (simp add: find_None_iff)
  next
    case (Some p)
    then obtain as bs where "ps = as @ p # bs" "fits (round4 n) s p" "\<forall>a \<in> set as. \<not> fits (round4 n) s a"
      using find_split [OF Some] by (elim exE conjE)
    moreover have "malloc n s = Some (p + 16, take_block (round4 n) p s)"
      unfolding m Some by simp
    ultimately show ?thesis by (rule taken)
  qed
qed

lemma and_3: "(sz AND 3 = 0) = (4 dvd unat sz)" "unat (sz AND NOT 3) = unat sz - unat sz mod 4" for sz :: u32
proof -
  have 3: "(3 :: u32) = mask 2" by (simp add: mask_eq_exp_minus_1)
  have "unat (sz AND 3) = unat sz mod 4"
    unfolding 3 take_bit_eq_mask [symmetric] unsigned_take_bit_eq by (simp add: take_bit_eq_mod)
  then show "(sz AND 3 = 0) = (4 dvd unat sz)"
    by (metis dvd_eq_mod_eq_0 unsigned_eq_0_iff)
  show "unat (sz AND NOT 3) = unat sz - unat sz mod 4"
    unfolding 3 using unat_and_not_mask [of sz 2] by simp
qed

lemma round4_unat:
  "unat (round4 sz) = (if 4 dvd unat sz then unat sz else (unat sz - unat sz mod 4 + 4) mod 2 ^ 32)"
proof -
  have "unat ((sz AND NOT 3) + 4) = (unat (sz AND NOT 3) + 4) mod 2 ^ 32"
    by (simp add: unat_word_ariths)
  then show ?thesis unfolding round4_def and_3 by (simp only: and_3(1) if_distrib [of unat]) auto
qed

lemma round4_value: "round4 sz = of_nat ((unat sz + 3) div 4 * 4)"
proof -
  have "(n + 3) div 4 * 4 = (if 4 dvd n then n else n - n mod 4 + 4)" for n :: nat
  proof -
    have n: "n = 4 * (n div 4) + n mod 4" by simp
    have "n mod 4 < 4" by simp
    then consider "n mod 4 = 0" | "n mod 4 = 1" | "n mod 4 = 2" | "n mod 4 = 3" by linarith
    then show ?thesis by cases (use n in \<open>simp_all add: dvd_eq_mod_eq_0 minus_mod_eq_mult_div div_add1_eq\<close>)
  qed
  then have "unat (round4 sz) = unat (of_nat ((unat sz + 3) div 4 * 4) :: u32)"
    unfolding round4_unat by (simp add: unat_of_nat take_bit_eq_mod)
  then show ?thesis by (simp only: word_unat_eq_iff)
qed

lemma round4_dvd: "4 dvd unat (round4 sz)"
proof -
  have "4 dvd unat sz - unat sz mod 4 + 4" by (simp add: minus_mod_eq_mult_div)
  then show ?thesis unfolding round4_unat by (simp add: dvd_mod)
qed

lemma round4_ge:
  assumes "unat sz \<le> 0xFFFFFFFC"
  shows "unat sz \<le> unat (round4 sz) \<and> unat (round4 sz) < unat sz + 4"
proof (cases "4 dvd unat sz")
  case False
  then have r: "0 < unat sz mod 4" "unat sz mod 4 < 4" "unat sz mod 4 \<le> unat sz"
    by (auto simp: dvd_eq_mod_eq_0)
  then have "unat sz - unat sz mod 4 + 4 < 4294967296"
    using assms by linarith
  then have "(unat sz - unat sz mod 4 + 4) mod 2 ^ 32 = unat sz - unat sz mod 4 + 4"
    by simp
  then show ?thesis unfolding round4_unat using False r by simp
qed (simp add: round4_unat)

lemma live_grow:
  assumes "heap_list s ps" and "heap_list s' ps'"
    and "{x \<in> set ps'. hused (hdr s' x)} = insert p {x \<in> set ps. hused (hdr s x)}"
    and "\<And>x. x \<in> set ps \<Longrightarrow> hused (hdr s x) \<Longrightarrow> len s' x = len s x"
  shows "live s' = live s \<union> payload (len s') p"
proof -
  have "payload (len s') x = payload (len s) x" if "x \<in> {x \<in> set ps. hused (hdr s x)}" for x
    using that assms(4) [of x] by (simp add: payload_def)
  then show ?thesis
    unfolding live_eq [OF assms(1)] live_eq [OF assms(2)] assms(3) by auto
qed

lemma malloc_step:
  assumes "heap_list s (as @ p # bs)" and "fits n s p" and "4 dvd unat n"
  defines "s' \<equiv> take_block n p s"
  obtains ps' where "heap_list s' ps'" "blocks s' ps' = blocks s as @ snd (first_fit n (blocks s (p # bs)))"
    "live s' = live s \<union> payload (len s') p" "n \<le> len s' p" "payload (len s') p \<inter> live s = {}"
proof -
  have n: "n \<le> len s p" "\<not> hused (hdr s p)" using assms(2) by (auto simp: fits_def)
  have sg: "seg (nxt s) (len s) (as @ p # bs) 0 heap_end" using assms(1) by (simp add: heap_list_def)
  have d: "p \<notin> set as" "p \<notin> set bs" using seg_distinct [OF sg] by auto
  have fresh: "payload (len s) p \<inter> live s = {}"
    using seg_disjoint [OF sg, of p] n(2) by (force simp: live_eq [OF assms(1)])
  show ?thesis
  proof (cases "unat n + 16 \<le> unat (len s p)")
    case True
    let ?q = "p + 16 + n"
    note cut = take_block_cut [OF assms(1) True assms(3), folded s'_def]
    have q: "?q \<noteq> p" "?q \<notin> set as" "?q \<notin> set bs" "p \<noteq> ?q" using cut(3) by auto
    have h: "hdr s' x = hdr s x" if "x \<in> set as \<union> set bs" for x
      using that d q by (auto simp: cut(2))
    have "blocks s' (as @ p # ?q # bs) = blocks s as @ snd (first_fit n (blocks s (p # bs)))"
      using True n q h by (auto simp: blocks_def cut(2))
    moreover have "live s' = live s \<union> payload (len s') p"
    proof (rule live_grow [OF assms(1) cut(1)])
      have "hused (hdr s' p)" "\<not> hused (hdr s' ?q)" using q by (simp_all add: cut(2))
      then show "{x \<in> set (as @ p # ?q # bs). hused (hdr s' x)} =
          insert p {x \<in> set (as @ p # bs). hused (hdr s x)}"
        using h n(2) by auto
      show "len s' x = len s x" if "x \<in> set (as @ p # bs)" "hused (hdr s x)" for x
        using that h [of x] n(2) by auto
    qed
    moreover have l: "len s' p = n" by (simp add: cut(2))
    moreover have "payload (len s') p \<subseteq> payload (len s) p"
      using True by (auto simp: payload_def l)
    ultimately show ?thesis using that [OF cut(1)] fresh by auto
  next
    case False
    note whole = take_block_whole [OF assms(1) n(1) False, folded s'_def]
    have "blocks s' (as @ p # bs) = blocks s as @ snd (first_fit n (blocks s (p # bs)))"
      using False n d by (auto simp: blocks_def whole(2))
    moreover have "live s' = live s \<union> payload (len s') p"
      by (rule live_grow [OF assms(1) whole(1)]) (auto simp: whole(2))
    moreover have "payload (len s') p = payload (len s) p" "len s' p = len s p"
      by (auto simp: payload_def whole(2))
    ultimately show ?thesis using that [OF whole(1)] fresh n by auto
  qed
qed

lemma first_fit_skip:
  "\<forall>a \<in> set as. \<not> fits n s a \<Longrightarrow>
   first_fit n (blocks s as @ bs) = (fst (first_fit n bs), blocks s as @ snd (first_fit n bs))"
  by (induction as) (auto simp: blocks_def fits_def Let_def case_prod_beta)

lemma first_fit_none:
  "\<forall>a \<in> set as. \<not> fits n s a \<Longrightarrow> first_fit n (blocks s as) = (0, blocks s as)"
  using first_fit_skip [of as n s "[]"] by simp

lemma blocks_append: "blocks s (as @ bs) = blocks s as @ blocks s bs"
  by (simp add: blocks_def)

lemma first_fit_here: "fits n s p \<Longrightarrow> fst (first_fit n (blocks s (p # bs))) = p + 16"
  by (simp add: blocks_def fits_def)

lemma malloc_first_fit:
  assumes "heap_list s ps" and "n \<noteq> 0"
  shows "\<exists>r s' ps'. malloc n s = Some (r, s') \<and> heap_list s' ps' \<and>
    (r, blocks s' ps') = first_fit (round4 n) (blocks s ps)"
  using assms
proof (cases rule: malloc_result)
  case full
  with assms(1) first_fit_none show ?thesis by metis
next
  case (taken as p bs)
  obtain ps' where "heap_list (take_block (round4 n) p s) ps'"
    "blocks (take_block (round4 n) p s) ps' = blocks s as @ snd (first_fit (round4 n) (blocks s (p # bs)))"
    using malloc_step [OF assms(1) [unfolded taken(1)] taken(2) round4_dvd] by metis
  then show ?thesis
    using taken(4) first_fit_skip [OF taken(3), of "blocks s (p # bs)"] first_fit_here [OF taken(2)]
    unfolding taken(1) blocks_append by auto
qed

lemma malloc_fresh:
  assumes "heap_list s ps" and "malloc n s = Some (r, s')"
  shows "heap_inv s' \<and> live s \<subseteq> live s' \<and>
    (unat n \<le> 0xFFFFFFFC \<longrightarrow> region r n \<inter> live s = {} \<and> region r n \<subseteq> live s')"
proof (cases "n = 0")
  case True
  with assms show ?thesis by (auto simp: malloc_def heap_inv_def region_def)
next
  case False
  with assms(1) show ?thesis
  proof (cases rule: malloc_result)
    case full
    with assms show ?thesis by (auto simp: heap_inv_def region_def)
  next
    case (taken as p bs)
    have r: "r = p + 16" "s' = take_block (round4 n) p s" using assms(2) taken(4) by auto
    obtain ps' where s': "heap_list s' ps'" "live s' = live s \<union> payload (len s') p"
      "round4 n \<le> len s' p" "payload (len s') p \<inter> live s = {}"
      using malloc_step [OF assms(1) [unfolded taken(1)] taken(2) round4_dvd] unfolding r(2) by metis
    have "p \<in> set ps" "seg (nxt s) (len s) ps 0 heap_end"
      using taken(1) assms(1) by (auto simp: heap_list_def)
    then have "unat p + 16 + unat (len s p) \<le> heap_end" using seg_bounds by blast
    then have p: "unat (p + 16) = unat p + 16"
      using heap_end_le by (simp add: unat_word_ariths)
    have "region r n \<subseteq> payload (len s') p" if "unat n \<le> 0xFFFFFFFC"
      using round4_ge [OF that] s'(3) p by (auto simp: region_def payload_def r(1) word_le_nat_alt)
    with s' show ?thesis by (auto simp: heap_inv_def)
  qed
qed

interpretation kma: allocator malloc "\<lambda>n. unat n \<le> 0xFFFFFFFC" heap_inv live
  by unfold_locales (auto simp: heap_inv_def dest: malloc_fresh)

subsection \<open>Release\<close>

lemma merge_next_hdr:
  assumes "nxt s p = q" "q \<noteq> 0" "\<not> hused (hdr s q)" "q \<noteq> p" "nxt s q \<noteq> p"
  shows "hdr (merge_next p s) = (let h = (hdr s)(p := hdr s p\<lparr>hlength := len s p + 16 + len s q, hnext := nxt s q\<rparr>)
    in if nxt s q = 0 then h else h(nxt s q := h (nxt s q)\<lparr>hprev := p\<rparr>))"
    and "head (merge_next p s) = head s"
  using assms by (simp_all add: merge_next_def upd_hdr_def Let_def header_len_def add.assoc)

lemma merge_next_join:
  assumes "heap_list s (as @ p # q # bs)" and "back_links s (as @ p # q # bs)" and "\<not> hused (hdr s q)"
  defines "s' \<equiv> merge_next p s"
  shows "heap_list s' (as @ p # bs) \<and> back_links s' (as @ p # bs)"
    and "len s' p = len s p + 16 + len s q" and "hused (hdr s' x) = hused (hdr s x)"
    and "x \<noteq> p \<Longrightarrow> len s' x = len s x"
proof -
  have sg: "seg (nxt s) (len s) (as @ p # q # bs) 0 heap_end" using assms(1) by (simp add: heap_list_def)
  have d: "distinct (as @ p # q # bs)" using seg_distinct [OF sg] .
  have n: "nxt s p = q" "q \<noteq> 0" "nxt s q = (if bs = [] then 0 else hd bs)"
    using sg by (auto simp: seg_append)
  have pq: "q \<noteq> p" "nxt s q \<noteq> p"
    using d n seg_nonzero [OF sg, of p] by (auto split: if_splits)
  note h = merge_next_hdr [OF n(1,2) assms(3) pq, folded s'_def]
  have r: "nxt s q \<noteq> 0 \<longleftrightarrow> bs \<noteq> []"
    using n(3) seg_nonzero [OF sg, of "hd bs"] by auto
  have "nxt s' = (nxt s)(p := nxt s q)" "len s' = (len s)(p := len s p + 16 + len s q)"
    by (auto simp: h(1) fun_eq_iff Let_def)
  then have "seg (nxt s') (len s') (as @ p # bs) 0 heap_end"
    using seg_join(1) [OF sg heap_end_le] by simp
  then show "heap_list s' (as @ p # bs) \<and> back_links s' (as @ p # bs)"
  proof (intro conjI)
    assume "seg (nxt s') (len s') (as @ p # bs) 0 heap_end"
    then show "heap_list s' (as @ p # bs)"
      using assms(1) h(2) by (auto simp: heap_list_def hd_append)
    have "hprev (hdr s' x) = hprev (hdr s x)" if "x \<notin> set (take 1 bs)" for x
      using that n(3) r by (cases bs) (auto simp: h(1) Let_def)
    moreover have "bs \<noteq> [] \<Longrightarrow> hprev (hdr s' (hd bs)) = p" using n(3) r by (simp add: h(1) Let_def)
    ultimately show "back_links s' (as @ p # bs)"
      using assms(2) unfolding back_links_def by (intro chain_join [OF sg, of "\<lambda>p. hprev (hdr s p)"])
  qed
  show "len s' p = len s p + 16 + len s q" "hused (hdr s' x) = hused (hdr s x)"
    "x \<noteq> p \<Longrightarrow> len s' x = len s x"
    using pq by (auto simp: h(1) Let_def)
qed

lemma merge_next_blocks:
  assumes "heap_list s (as @ p # bs)" and "back_links s (as @ p # bs)"
  shows "\<exists>bs'. heap_list (merge_next p s) (as @ p # bs') \<and> back_links (merge_next p s) (as @ p # bs') \<and>
    blocks (merge_next p s) as = blocks s as \<and>
    blocks (merge_next p s) (p # bs') = absorb (p, len s p, hused (hdr s p)) (blocks s bs)"
proof (cases "bs \<noteq> [] \<and> \<not> hused (hdr s (hd bs))")
  case True
  then obtain q bs' where bs: "bs = q # bs'" "\<not> hused (hdr s q)" by (cases bs) auto
  have "distinct (as @ p # q # bs')"
    using assms(1) seg_distinct unfolding bs heap_list_def by blast
  then have "x \<noteq> p" if "x \<in> set as \<union> set bs'" for x
    using that by auto
  then have "len (merge_next p s) x = len s x" if "x \<in> set as \<union> set bs'" for x
    using merge_next_join(4) [OF assms [unfolded bs(1)] bs(2)] that by blast
  then show ?thesis
    using merge_next_join(1-3) [OF assms [unfolded bs(1)] bs(2)] bs
    by (intro exI [of _ bs']) (auto simp: blocks_def)
next
  case False
  have "nxt s p = (if bs = [] then 0 else hd bs)"
    using assms(1) by (auto simp: heap_list_def seg_append)
  with False have "merge_next p s = s" by (auto simp: merge_next_def)
  with assms False show ?thesis
    by (cases bs) (auto simp: blocks_def intro!: exI [of _ bs])
qed

lemma merge_prev_is_next:
  assumes "hprev (hdr s p) = q" "nxt s q = p" "q \<noteq> 0" "p \<noteq> 0" "\<not> hused (hdr s q)" "\<not> hused (hdr s p)"
    "q \<noteq> p" "nxt s p \<noteq> q"
  shows "merge_prev p s = merge_next q s"
  using assms by (simp add: merge_prev_def merge_next_def upd_hdr_def Let_def)

lemma blocks_Cons: "blocks s (p # ps) = (p, len s p, hused (hdr s p)) # blocks s ps"
  by (simp add: blocks_def)

lemma fst_blocks [simp]: "fst ` set (blocks s ps) = set ps"
  by (simp add: blocks_def image_image)

lemma mark_free:
  assumes "heap_list s (as @ p # bs)" and "back_links s (as @ p # bs)"
  defines "s' \<equiv> upd_hdr p (\<lambda>h. h\<lparr>hused := False\<rparr>) s"
  shows "heap_list s' (as @ p # bs)" "back_links s' (as @ p # bs)" "blocks s' as = blocks s as"
    "blocks s' bs = blocks s bs" "len s' p = len s p" "\<not> hused (hdr s' p)"
proof -
  let ?ps = "as @ p # bs"
  show "heap_list s' ?ps" "back_links s' ?ps"
    using assms(1,2) seg_cong [of ?ps "nxt s'" "nxt s" "len s'" "len s"]
      prev_chain_cong [of ?ps "\<lambda>p. hprev (hdr s' p)" "\<lambda>p. hprev (hdr s p)"]
    by (simp_all add: heap_list_def back_links_def s'_def upd_hdr_def)
  have "distinct ?ps" using assms(1) seg_distinct unfolding heap_list_def by blast
  then show "blocks s' as = blocks s as" "blocks s' bs = blocks s bs" "len s' p = len s p"
    "\<not> hused (hdr s' p)"
    by (auto simp: blocks_def s'_def upd_hdr_def)
qed

lemma merge_prev_first:
  assumes "back_links s (p # bs)"
  shows "merge_prev p s = s"
  using assms by (simp add: back_links_def merge_prev_def Let_def)

lemma merge_prev_blocks:
  assumes "heap_list s (as @ q # p # bs)" and "back_links s (as @ q # p # bs)" and "\<not> hused (hdr s p)"
  shows "\<exists>ps'. heap_list (merge_prev p s) ps' \<and> back_links (merge_prev p s) ps' \<and>
    blocks (merge_prev p s) ps' = blocks s as @ (if hused (hdr s q)
      then blocks s (q # p # bs) else absorb (q, len s q, hused (hdr s q)) (blocks s (p # bs)))"
proof -
  have sg: "seg (nxt s) (len s) (as @ q # p # bs) 0 heap_end" using assms(1) by (simp add: heap_list_def)
  have q: "hprev (hdr s p) = q" "nxt s q = p" "q \<noteq> 0" "p \<noteq> 0" "q \<noteq> p" "nxt s p \<noteq> q"
    using assms(2) sg seg_distinct [OF sg]
    by (cases bs; auto simp: back_links_def prev_chain_append seg_append)+
  show ?thesis
  proof (cases "hused (hdr s q)")
    case True
    then have "merge_prev p s = s" using q by (simp add: merge_prev_def Let_def)
    then show ?thesis
      using assms(1,2) True by (intro exI [of _ "as @ q # p # bs"]) (simp add: blocks_append)
  next
    case False
    then have "merge_prev p s = merge_next q s"
      using merge_prev_is_next [of s p q] q assms(3) by simp
    moreover obtain cs where "heap_list (merge_next q s) (as @ q # cs)"
      "back_links (merge_next q s) (as @ q # cs)" "blocks (merge_next q s) as = blocks s as"
      "blocks (merge_next q s) (q # cs) = absorb (q, len s q, hused (hdr s q)) (blocks s (p # bs))"
      using merge_next_blocks [OF assms(1,2)] by auto
    ultimately show ?thesis
      using False by (intro exI [of _ "as @ q # cs"]) (simp add: blocks_append)
  qed
qed

lemma free_unfold:
  assumes "heap_list s ps" and "p \<in> set ps"
  shows "free (p + 16) s = merge_prev p (merge_next p (upd_hdr p (\<lambda>h. h\<lparr>hused := False\<rparr>) s))"
    and "unat (p + 16) = unat p + 16"
proof -
  have "unat p + 16 \<le> heap_end"
    using seg_bounds [of "nxt s" "len s" ps 0 heap_end p] assms by (auto simp: heap_list_def)
  then show *: "unat (p + 16) = unat p + 16" using heap_end_le by (simp add: unat_word_ariths)
  then have "p + 16 \<noteq> 0" by auto
  then show "free (p + 16) s = merge_prev p (merge_next p (upd_hdr p (\<lambda>h. h\<lparr>hused := False\<rparr>) s))"
    by (simp add: free_def header_len_def)
qed

lemma free_blocks:
  assumes "heap_list s ps" and "back_links s ps" and "p \<in> set ps"
  shows "\<exists>ps'. heap_list (free (p + 16) s) ps' \<and> back_links (free (p + 16) s) ps' \<and>
    blocks (free (p + 16) s) ps' = release p (blocks s ps)"
proof -
  obtain as bs where ps: "ps = as @ p # bs" using assms(3) by (auto dest: split_list)
  have d: "distinct ps" using assms(1) seg_distinct unfolding heap_list_def by blast
  note s0 = mark_free [OF assms(1,2) [unfolded ps]]
  define s1 where "s1 = merge_next p (upd_hdr p (\<lambda>h. h\<lparr>hused := False\<rparr>) s)"
  obtain bs' where s1: "heap_list s1 (as @ p # bs')" "back_links s1 (as @ p # bs')"
    "blocks s1 as = blocks s as" "blocks s1 (p # bs') = absorb (p, len s p, False) (blocks s bs)"
    using merge_next_blocks [OF s0(1,2)] s0(3-6) unfolding s1_def by auto
  have free: "free (p + 16) s = merge_prev p s1"
    using free_unfold(1) [OF assms(1,3)] by (simp add: s1_def)
  show ?thesis
  proof (cases as rule: rev_cases)
    case Nil
    then show ?thesis
      using s1 merge_prev_first [of s1 p bs'] unfolding free ps
      by (intro exI [of _ "p # bs'"]) (simp add: blocks_def)
  next
    case (snoc as' q)
    have u1: "\<not> hused (hdr s1 p)"
      using s1(4) by (cases bs) (auto simp: blocks_def split: if_splits)
    have uq: "blocks s1 as' = blocks s as'" "hused (hdr s1 q) = hused (hdr s q)" "len s1 q = len s q"
      using s1(3) by (auto simp: snoc blocks_def)
    have "blocks s ps = blocks s as' @ (q, len s q, hused (hdr s q)) # (p, len s p, hused (hdr s p)) # blocks s bs"
      by (simp add: ps snoc blocks_def)
    then have "release p (blocks s ps) = blocks s as' @ (if hused (hdr s q)
        then (q, len s q, hused (hdr s q)) # blocks s1 (p # bs')
        else absorb (q, len s q, hused (hdr s q)) (blocks s1 (p # bs')))"
      unfolding s1(4) by (simp only:) (rule release_after, use d in \<open>auto simp: ps snoc\<close>)
    then have "release p (blocks s ps) = blocks s1 as' @ (if hused (hdr s1 q)
        then blocks s1 (q # p # bs') else absorb (q, len s1 q, hused (hdr s1 q)) (blocks s1 (p # bs')))"
      unfolding uq blocks_Cons [of s1 q] .
    then show ?thesis
      using merge_prev_blocks [of s1 as' q p bs'] s1(1,2) u1 unfolding free snoc by simp
  qed
qed

lemma live_blocks:
  "heap_list s ps \<Longrightarrow> live s = (\<Union>(p, l, u) \<in> used_set (blocks s ps). {unat p + 16 ..< unat p + 16 + unat l})"
  by (auto simp: live_eq used_set_def blocks_def payload_def)

lemma free_live:
  assumes "heap_list s ps" and "back_links s ps" and "p \<in> set ps"
  shows "live (free (p + 16) s) = live s - payload (len s) p"
proof -
  obtain ps' where ps': "heap_list (free (p + 16) s) ps'" "blocks (free (p + 16) s) ps' = release p (blocks s ps)"
    using free_blocks [OF assms] by blast
  have sg: "seg (nxt s) (len s) ps 0 heap_end" using assms(1) by (simp add: heap_list_def)
  have "distinct (map fst (blocks s ps))" using seg_distinct [OF sg] by (simp add: blocks_def comp_def)
  then have "used_set (release p (blocks s ps)) = {b \<in> used_set (blocks s ps). fst b \<noteq> p}"
    by (rule used_release)
  then have "live (free (p + 16) s) = (\<Union>q \<in> {q \<in> set ps. hused (hdr s q) \<and> q \<noteq> p}. payload (len s) q)"
    unfolding live_blocks [OF ps'(1)] ps'(2) by (auto simp: used_set_def blocks_def payload_def)
  then show ?thesis
    using seg_disjoint [OF sg assms(3)] unfolding live_eq [OF assms(1)] by (auto simp: disjoint_iff)
qed

subsection \<open>Contents\<close>


lemma upd_hdr_bytes [simp]: "kbytes (upd_hdr p f s) = kbytes s"
  by (simp add: upd_hdr_def)

lemma merge_bytes: "kbytes (merge_next p s) = kbytes s" "kbytes (merge_prev p s) = kbytes s"
  by (simp_all add: merge_next_def merge_prev_def Let_def)

lemma free_bytes [simp]: "kbytes (free p s) = kbytes s"
  by (simp add: free_def merge_bytes Let_def)


subsection \<open>Where headers are written\<close>








subsection \<open>A run that loses a block\<close>

lemma loop_take: "p \<noteq> 0 \<Longrightarrow> fits n s p \<Longrightarrow> malloc_loop n p s = Some (p + header_len, take_block n p s)"
  by (subst malloc_loop.simps) simp

lemma loop_skip: "p \<noteq> 0 \<Longrightarrow> \<not> fits n s p \<Longrightarrow> malloc_loop n p s = malloc_loop n (nxt s p) s"
  by (subst malloc_loop.simps) simp

definition overlap_script :: "kmem \<Rightarrow> (u32 \<times> u32) option" where
  "overlap_script s = do {
     (a, s) \<leftarrow> malloc 100 s;
     (b, s) \<leftarrow> malloc 100 s;
     let s = free a s;
     (c, s) \<leftarrow> malloc 40 s;
     (d, s) \<leftarrow> malloc 40 s;
     let s = free b (free c s);
     (e, s) \<leftarrow> malloc 100 s;
     Some (d, e) }"

lemmas run_defs = malloc_def round4_def loop_take loop_skip fits_def take_block_def split_block_def upd_hdr_def header_len_def
   free_def merge_next_def merge_prev_def k_init_mem_def kmem_image_def g_memory_def MAX_MEM_SIZE_def Let_def
abbreviation hd4 :: "u32 \<Rightarrow> u32 \<Rightarrow> u32 \<Rightarrow> bool \<Rightarrow> m_header" where
  "hd4 p n l u \<equiv> \<lparr>hprev = p, hnext = n, hlength = l, hused = u\<rparr>"

definition demo_heap :: "m_header \<Rightarrow> m_header \<Rightarrow> m_header \<Rightarrow> m_header \<Rightarrow> kmem" where
  "demo_heap a b c d = \<lparr>head = 0x100000, hdr = (\<lambda>x. if x = 0x100000 then a else if x = 0x100074 then b
     else if x = 0x1000E8 then c else if x = 0x100038 then d else hd4 0 0 0 False), kbytes = (\<lambda>_. 0)\<rparr>"

lemmas demo_run = run_defs demo_heap_def fun_eq_iff


lemma demo_init: "k_init_mem kmem_image = demo_heap (hd4 0 0 0x9FFFF0 False) (hd4 0 0 0 False) (hd4 0 0 0 False) (hd4 0 0 0 False)"
  by (simp add: demo_run)

lemma demo_1:
  "malloc 100 (demo_heap (hd4 0 0 0x9FFFF0 False) (hd4 0 0 0 False) (hd4 0 0 0 False) (hd4 0 0 0 False)) =
    Some (0x100010, demo_heap (hd4 0 0x100074 100 True) (hd4 0x100000 0 0x9FFF7C False) (hd4 0 0 0 False) (hd4 0 0 0 False))"
  by (simp add: demo_run)

lemma demo_2:
  "malloc 100 (demo_heap (hd4 0 0x100074 100 True) (hd4 0x100000 0 0x9FFF7C False) (hd4 0 0 0 False) (hd4 0 0 0 False)) =
    Some (0x100084, demo_heap (hd4 0 0x100074 100 True) (hd4 0x100000 0x1000E8 100 True) (hd4 0x100074 0 0x9FFF08 False) (hd4 0 0 0 False))"
  by (simp add: demo_run)

lemma demo_3:
  "free 0x100010 (demo_heap (hd4 0 0x100074 100 True) (hd4 0x100000 0x1000E8 100 True) (hd4 0x100074 0 0x9FFF08 False) (hd4 0 0 0 False)) =
    demo_heap (hd4 0 0x100074 100 False) (hd4 0x100000 0x1000E8 100 True) (hd4 0x100074 0 0x9FFF08 False) (hd4 0 0 0 False)"
  by (simp add: demo_run)

lemma demo_4:
  "malloc 40 (demo_heap (hd4 0 0x100074 100 False) (hd4 0x100000 0x1000E8 100 True) (hd4 0x100074 0 0x9FFF08 False) (hd4 0 0 0 False)) =
    Some (0x100010, demo_heap (hd4 0 0x100038 40 True) (hd4 0x100000 0x1000E8 100 True) (hd4 0x100074 0 0x9FFF08 False) (hd4 0x100000 0x100074 44 False))"
  by (simp add: demo_run)

lemma demo_5:
  "malloc 40 (demo_heap (hd4 0 0x100038 40 True) (hd4 0x100000 0x1000E8 100 True) (hd4 0x100074 0 0x9FFF08 False) (hd4 0x100000 0x100074 44 False)) =
    Some (0x100048, demo_heap (hd4 0 0x100038 40 True) (hd4 0x100000 0x1000E8 100 True) (hd4 0x100074 0 0x9FFF08 False) (hd4 0x100000 0x100074 44 True))"
  by (simp add: demo_run)

lemma demo_6:
  "free 0x100010 (demo_heap (hd4 0 0x100038 40 True) (hd4 0x100000 0x1000E8 100 True) (hd4 0x100074 0 0x9FFF08 False) (hd4 0x100000 0x100074 44 True)) =
    demo_heap (hd4 0 0x100038 40 False) (hd4 0x100000 0x1000E8 100 True) (hd4 0x100074 0 0x9FFF08 False) (hd4 0x100000 0x100074 44 True)"
  by (simp add: demo_run)

lemma demo_7:
  "free 0x100084 (demo_heap (hd4 0 0x100038 40 False) (hd4 0x100000 0x1000E8 100 True) (hd4 0x100074 0 0x9FFF08 False) (hd4 0x100000 0x100074 44 True)) =
    demo_heap (hd4 0 0 10485684 False) (hd4 0x100000 0 10485628 False) (hd4 0x100074 0 0x9FFF08 False) (hd4 0x100000 0x100074 44 True)"
  by (simp add: demo_run)

lemma demo_8: "\<exists>s. malloc 100 (demo_heap (hd4 0 0 10485684 False) (hd4 0x100000 0 10485628 False) (hd4 0x100074 0 0x9FFF08 False) (hd4 0x100000 0x100074 44 True)) = Some (0x100010, s)"
  by (simp add: demo_run)

lemmas demo_steps = demo_init demo_1 demo_2 demo_3 demo_4 demo_5 demo_6 demo_7

subsection \<open>Properties\<close>

text \<open>
  C3. \<^verbatim>\<open>malloc\<close> is first fit: on a heap whose headers tile the arena it returns, leaves the headers
  tiling the arena, and its result and the new block list are those of first fit on the list of
  blocks, for the size rounded up to four bytes.
\<close>

theorem malloc_refines_first_fit:
  assumes "heap_list s ps" and "n \<noteq> 0"
  shows "\<exists>r s' ps'. malloc n s = Some (r, s') \<and> heap_list s' ps' \<and>
    (r, blocks s' ps') = first_fit (of_nat ((unat n + 3) div 4 * 4)) (blocks s ps)"
  using malloc_first_fit [OF assms] by (simp only: round4_value)

theorem malloc_refines_first_fit_witness:
  "\<exists>r s' ps'. malloc 10 (k_init_mem kmem_image) = Some (r, s') \<and> heap_list s' ps' \<and>
    (r, blocks s' ps') = first_fit 12 (blocks (k_init_mem kmem_image) [g_memory])"
proof -
  have "heap_list (k_init_mem kmem_image) [g_memory]"
    using init_heap_list [of kmem_image] by (auto simp: kmem_image_def)
  from malloc_refines_first_fit [OF this, of 10] show ?thesis by simp
qed

text \<open>
  C6. Blocks handed out by successive calls of \<^verbatim>\<open>malloc\<close> never overlap each other or a block that was
  in use before, for requests of at most \<open>0xFFFFFFFC\<close> bytes; a failed call gives the empty region.
\<close>

theorem malloc_blocks_disjoint:
  assumes "heap_inv s" and "\<forall>n \<in> set ns. unat n \<le> 0xFFFFFFFC" and "allocs malloc ns s = Some (rs, s')"
  shows "heap_inv s' \<and> (\<forall>i < length ns. region (rs ! i) (ns ! i) \<inter> live s = {} \<and>
      region (rs ! i) (ns ! i) \<subseteq> live s') \<and>
    (\<forall>j < length ns. \<forall>i < j. region (rs ! i) (ns ! i) \<inter> region (rs ! j) (ns ! j) = {})"
  using kma.allocs_fresh [OF assms] by blast

theorem malloc_blocks_disjoint_witness:
  "region 0x100010 100 \<inter> region 0x100084 100 = {}"
proof -
  have "allocs malloc [100, 100] (k_init_mem kmem_image) = Some ([0x100010, 0x100084], demo_heap (hd4 0 0x100074 100 True) (hd4 0x100000 0x1000E8 100 True) (hd4 0x100074 0 0x9FFF08 False) (hd4 0 0 0 False))"
    by (simp add: demo_steps)
  moreover have "heap_inv (k_init_mem kmem_image)"
    using init_heap_list [of kmem_image] by (auto simp: heap_inv_def kmem_image_def)
  ultimately show ?thesis
    using malloc_blocks_disjoint [of "k_init_mem kmem_image" "[100, 100]"] by (force simp: less_Suc_eq)
qed

text \<open>
  C7. \<^verbatim>\<open>free\<close> of a block keeps the heap well formed when the back links are right: the headers tile the
  arena, the back links are right again, the block list is that of the abstract release (free,
  and joined with free neighbours on both sides), and exactly the block's payload stops being live.
\<close>

theorem free_refines_release:
  assumes "heap_list s ps" and "back_links s ps" and "p \<in> set ps"
  shows "\<exists>ps'. heap_list (free (p + 16) s) ps' \<and> back_links (free (p + 16) s) ps' \<and>
    blocks (free (p + 16) s) ps' = release p (blocks s ps) \<and>
    live (free (p + 16) s) = live s - payload (len s) p"
  using free_blocks [OF assms] free_live [OF assms] by blast

theorem free_refines_release_witness:
  "\<exists>ps'. heap_list (free (g_memory + 16) (k_init_mem kmem_image)) ps' \<and>
     back_links (free (g_memory + 16) (k_init_mem kmem_image)) ps'"
  using free_refines_release [of "k_init_mem kmem_image" "[g_memory]" g_memory] init_heap_list [of kmem_image]
  by (auto simp: kmem_image_def)



text \<open>
  C32. The back links are not kept by \<^verbatim>\<open>malloc\<close>, and \<^verbatim>\<open>free\<close> then loses a block: after two blocks, a
  release, two smaller blocks and two more releases, the next \<^verbatim>\<open>malloc\<close> returns memory that overlaps
  a block still in use.
\<close>

theorem malloc_overlaps_live_block:
  "\<exists>d e. overlap_script (k_init_mem kmem_image) = Some (d, e) \<and> region d 40 \<inter> region e 100 \<noteq> {}"
proof -
  have "overlap_script (k_init_mem kmem_image) = Some (0x100048, 0x100010)"
    using demo_8 by (auto simp: overlap_script_def demo_steps Let_def)
  moreover have "0x100048 \<in> region 0x100048 40 \<inter> region 0x100010 100"
    by (simp add: region_def)
  ultimately show ?thesis by blast
qed

end
