(* ===== verification/Apple_Font.thy ===== *)
theory Apple_Font
  imports Apple_Video Kmem "HOL-Library.Signed_Division"
begin

text \<open>
  \<^verbatim>\<open>AppleFont.c\<close>: the two font bitmaps, the decoding of a one-bit BMP image held in memory, and the
  filling of the font tables.  The work arrays come from \<^verbatim>\<open>malloc\<close>; a null pointer, an index outside
  the image data or outside the decoded image is the value \<open>None\<close>.  The decoded image is kept as an
  array of its own, which starts with whatever \<^verbatim>\<open>malloc\<close> found in memory.
\<close>

definition normalfont :: "u8 list" where
  "normalfont =
    [
     0x42, 0x4D, 0xBE, 0x03, 0x00, 0x00, 0x00, 0x00, 0x00, 0x00, 0x3E, 0x00, 0x00, 0x00, 0x28, 0x00, 0x00,
     0x00, 0x80, 0x03, 0x00, 0x00, 0x08, 0x00, 0x00, 0x00, 0x01, 0x00, 0x01, 0x00, 0x00, 0x00, 0x00, 0x00,
     0x80, 0x03, 0x00, 0x00, 0x00, 0x00, 0x00, 0x00, 0x00, 0x00, 0x00, 0x00, 0x00, 0x00, 0x00, 0x00, 0x00,
     0x00, 0x00, 0x00, 0x00, 0x00, 0x00, 0x00, 0xFF, 0xFF, 0xFF, 0x00, 0x6C, 0xD9, 0x0F, 0xF0, 0x1F, 0xD0,
     0x07, 0x00, 0xA8, 0x40, 0x80, 0x04, 0x3F, 0x7B, 0xDE, 0x04, 0x08, 0x0F, 0xE0, 0x2A, 0xAA, 0x00, 0x00,
     0x08, 0x0F, 0xE0, 0x3F, 0xC0, 0x00, 0x00, 0x00, 0x00, 0x00, 0x00, 0x00, 0x00, 0x00, 0x00, 0x00, 0x00,
     0x00, 0x00, 0x00, 0x00, 0x00, 0x00, 0x00, 0x00, 0x00, 0x00, 0x00, 0x00, 0x00, 0x00, 0x00, 0x00, 0x00,
     0x00, 0x00, 0x00, 0x00, 0x00, 0x00, 0x00, 0x00, 0x00, 0x00, 0x00, 0x00, 0x00, 0x00, 0x00, 0x00, 0x00,
     0x00, 0x00, 0x00, 0x00, 0x00, 0x00, 0x00, 0x00, 0x00, 0x7F, 0x00, 0x00, 0x00, 0x00, 0x00, 0x00, 0x1C,
     0x00, 0x00, 0xC0, 0x00, 0x00, 0x00, 0x00, 0x40, 0x08, 0x00, 0x00, 0x00, 0x00, 0x00, 0x00, 0x70, 0x00,
     0x01, 0x00, 0x00, 0x00, 0x7E, 0xA5, 0xB2, 0xA2, 0x1B, 0xFF, 0x08, 0x10, 0x00, 0xE0, 0x80, 0x0C, 0x3F,
     0x04, 0x20, 0x24, 0x48, 0x08, 0x02, 0x15, 0x55, 0xFF, 0xFC, 0x08, 0x80, 0x05, 0x00, 0xC0, 0x00, 0x20,
     0x01, 0x41, 0x01, 0x8D, 0x00, 0x10, 0x20, 0x40, 0x02, 0x00, 0x04, 0x00, 0x38, 0x71, 0xF1, 0xC0, 0x87,
     0x0E, 0x10, 0x38, 0xE0, 0x01, 0x00, 0x80, 0x08, 0x08, 0x3C, 0x89, 0xE1, 0xC7, 0x8F, 0x90, 0x1E, 0x44,
     0x70, 0xE2, 0x27, 0xC8, 0x91, 0x1C, 0x40, 0x69, 0x11, 0xC1, 0x07, 0x04, 0x22, 0x44, 0x21, 0xF3, 0xE0,
     0x0F, 0x80, 0x00, 0x00, 0x79, 0xE1, 0xE3, 0xC7, 0x88, 0x02, 0x44, 0x71, 0x22, 0x23, 0x88, 0x91, 0x1C,
     0x40, 0x09, 0x03, 0xC1, 0x86, 0x84, 0x36, 0x44, 0x09, 0xF0, 0xE1, 0x0E, 0x00, 0x00, 0xFD, 0x09, 0xE1,
     0x42, 0x1B, 0xC3, 0x18, 0x20, 0x01, 0x50, 0x80, 0x1F, 0xFF, 0x0C, 0x30, 0x70, 0x40, 0x08, 0x01, 0x2A,
     0xAA, 0x80, 0x04, 0x09, 0xC0, 0x05, 0x00, 0xC0, 0x00, 0x00, 0x01, 0x47, 0x89, 0x92, 0x00, 0x20, 0x11,
     0x50, 0x81, 0x00, 0x00, 0x20, 0x44, 0x21, 0x02, 0x20, 0x88, 0x91, 0x10, 0x44, 0x10, 0x00, 0x81, 0x00,
     0x04, 0x00, 0x40, 0x89, 0x12, 0x24, 0x48, 0x10, 0x22, 0x44, 0x21, 0x12, 0x44, 0x08, 0x91, 0x22, 0x40,
     0x91, 0x22, 0x21, 0x08, 0x8A, 0x36, 0x44, 0x21, 0x03, 0x00, 0x41, 0x80, 0x00, 0x00, 0x89, 0x12, 0x04,
     0x48, 0x08, 0x1E, 0x44, 0x20, 0x22, 0x41, 0x0A, 0x91, 0x22, 0x78, 0x79, 0x00, 0x22, 0x49, 0x8A, 0x2A,
     0x28, 0x78, 0x81, 0x81, 0x03, 0x00, 0x2A, 0xFD, 0x09, 0xC0, 0x85, 0x15, 0xE7, 0xF0, 0x40, 0x02, 0x48,
     0x80, 0x0C, 0x7F, 0x1C, 0x38, 0xF9, 0xF8, 0x08, 0x00, 0x95, 0x55, 0x80, 0x04, 0x0B, 0xE0, 0x1D, 0xCC,
     0xC0, 0x00, 0x20, 0x03, 0xE1, 0x44, 0x15, 0x00, 0x40, 0x08, 0xE0, 0x81, 0x00, 0x00, 0x10, 0x64, 0x20,
     0x80, 0x27, 0xC0, 0x91, 0x10, 0x44, 0x08, 0x40, 0x82, 0x0F, 0x82, 0x08, 0x58, 0xF9, 0x12, 0x04, 0x48,
     0x10, 0x26, 0x44, 0x20, 0x12, 0x84, 0x08, 0x93, 0x22, 0x40, 0xA9, 0x40, 0x21, 0x08, 0x91, 0x2A, 0x28,
     0x20, 0x83, 0x00, 0x81, 0x91, 0x00, 0x00, 0x79, 0x12, 0x04, 0x4F, 0x88, 0x22, 0x44, 0x20, 0x23, 0x81,
     0x0A, 0x91, 0x22, 0x44, 0x89, 0x01, 0xC2, 0x08, 0x91, 0x2A, 0x10, 0x88, 0x41, 0x81, 0x03, 0x00, 0x14,
     0xFF, 0x05, 0x80, 0x88, 0x86, 0xE3, 0x00, 0xFE, 0x00, 0x44, 0x90, 0x04, 0x7F, 0x3F, 0xFD, 0xFD, 0xF7,
     0xF8, 0x1F, 0xEA, 0xAA, 0x80, 0x04, 0x0F, 0xF0, 0x00, 0x0C, 0xC0, 0x00, 0x20, 0x01, 0x43, 0x82, 0x08,
     0x00, 0x40, 0x08, 0x43, 0xE0, 0x0F, 0x80, 0x08, 0x54, 0x20, 0x60, 0xC4, 0x80, 0x9E, 0x08, 0x38, 0x78,
     0x00, 0x04, 0x00, 0x01, 0x08, 0x5C, 0x89, 0xE2, 0x04, 0x4F, 0x1E, 0x20, 0x7C, 0x20, 0x13, 0x04, 0x0A,
     0x95, 0x22, 0x78, 0x89, 0xE1, 0xC1, 0x08, 0x91, 0x2A, 0x10, 0x20, 0x43, 0x01, 0x01, 0x8A, 0x00, 0x00,
     0x09, 0x12, 0x04, 0x48, 0x9E, 0x22, 0x44, 0x20, 0x22, 0x41, 0x0A, 0x91, 0x22, 0x44, 0x89, 0x82, 0x02,
     0x08, 0x91, 0x22, 0x28, 0x88, 0x23, 0x01, 0x01, 0x80, 0x2A, 0x6C, 0xD9, 0x01, 0x40, 0x5F, 0x5F, 0xF0,
     0x40, 0x00, 0x42, 0xA0, 0x00, 0x7F, 0x1C, 0x38, 0x20, 0xE0, 0x08, 0x00, 0x95, 0x55, 0x83, 0xF8, 0x0B,
     0xE0, 0x1D, 0xC0, 0xC0, 0x00, 0x20, 0xA3, 0xE5, 0x01, 0x14, 0x08, 0x40, 0x08, 0xE0, 0x80, 0x00, 0x00,
     0x04, 0x4C, 0x20, 0x10, 0x42, 0x8F, 0x10, 0x04, 0x44, 0x88, 0x40, 0x82, 0x0F, 0x82, 0x04, 0x54, 0x89,
     0x12, 0x04, 0x48, 0x10, 0x20, 0x44, 0x20, 0x12, 0x84, 0x0A, 0x99, 0x22, 0x44, 0x89, 0x12, 0x01, 0x08,
     0x91, 0x22, 0x28, 0x50, 0x23, 0x02, 0x01, 0x84, 0x00, 0x00, 0x71, 0xE1, 0xE3, 0xC7, 0x08, 0x1C, 0x78,
     0x60, 0x62, 0x21, 0x0D, 0x9E, 0x1C, 0x78, 0x79, 0x71, 0xE7, 0x88, 0x91, 0x22, 0x44, 0x89, 0xF1, 0x81,
     0x03, 0x00, 0x14, 0x10, 0x20, 0x02, 0x20, 0x3F, 0x81, 0x8C, 0x20, 0x00, 0x41, 0xC0, 0x00, 0x7F, 0x0C,
     0x30, 0x24, 0x48, 0x08, 0x01, 0x2A, 0xAA, 0x7C, 0x00, 0x09, 0xC0, 0x05, 0x00, 0xC0, 0x00, 0x20, 0xA1,
     0x43, 0xCC, 0x94, 0x08, 0x20, 0x11, 0x50, 0x80, 0x00, 0x00, 0x02, 0x44, 0x61, 0x10, 0x21, 0x88, 0x08,
     0x02, 0x44, 0x88, 0x00, 0x01, 0x00, 0x04, 0x22, 0x44, 0x51, 0x12, 0x24, 0x48, 0x10, 0x20, 0x44, 0x20,
     0x12, 0x44, 0x0D, 0x91, 0x22, 0x44, 0x89, 0x12, 0x21, 0x08, 0x91, 0x22, 0x44, 0x88, 0x13, 0x04, 0x01,
     0x80, 0x00, 0x00, 0x01, 0x00, 0x00, 0x40, 0x09, 0x00, 0x40, 0x00, 0x02, 0x01, 0x00, 0x00, 0x00, 0x00,
     0x00, 0x00, 0x02, 0x00, 0x00, 0x00, 0x00, 0x00, 0x01, 0x81, 0x03, 0x16, 0x2A, 0x08, 0x10, 0x07, 0xF0,
     0x1F, 0xC3, 0x80, 0x10, 0x00, 0x40, 0x8F, 0xE0, 0x7F, 0x64, 0x26, 0x04, 0x08, 0x08, 0x02, 0x15, 0x55,
     0x00, 0x00, 0x08, 0x8F, 0xE5, 0x3F, 0xC0, 0x00, 0x20, 0xA1, 0x41, 0x0C, 0x08, 0x08, 0x10, 0x20, 0x40,
     0x00, 0x00, 0x00, 0x00, 0x38, 0x20, 0xE3, 0xE0, 0x8F, 0x87, 0x3E, 0x38, 0x70, 0x00, 0x00, 0x80, 0x08,
     0x1C, 0x38, 0x21, 0xE1, 0xC7, 0x8F, 0x9F, 0x1E, 0x44, 0x70, 0x12, 0x24, 0x08, 0x91, 0x1C, 0x78, 0x71,
     0xE1, 0xC7, 0xC8, 0x91, 0x22, 0x44, 0x89, 0xF3, 0xE0, 0x0F, 0x80, 0x00, 0x00, 0x01, 0x00, 0x00, 0x40,
     0x06, 0x00, 0x40, 0x20, 0x22, 0x03, 0x00, 0x00, 0x00, 0x00, 0x00, 0x00, 0x02, 0x00, 0x00, 0x00, 0x00,
     0x00, 0x00, 0xE1, 0x0E, 0x0D, 0x00]"

definition inversefont :: "u8 list" where
  "inversefont =
    [
     0x42, 0x4D, 0xBE, 0x03, 0x00, 0x00, 0x00, 0x00, 0x00, 0x00, 0x3E, 0x00, 0x00, 0x00, 0x28, 0x00, 0x00,
     0x00, 0x80, 0x03, 0x00, 0x00, 0x08, 0x00, 0x00, 0x00, 0x01, 0x00, 0x01, 0x00, 0x00, 0x00, 0x00, 0x00,
     0x80, 0x03, 0x00, 0x00, 0x13, 0x0B, 0x00, 0x00, 0x13, 0x0B, 0x00, 0x00, 0x00, 0x00, 0x00, 0x00, 0x00,
     0x00, 0x00, 0x00, 0x00, 0x00, 0x00, 0x00, 0xFF, 0xFF, 0xFF, 0x00, 0x93, 0x26, 0xF0, 0x0F, 0xE0, 0x2F,
     0xF8, 0xFF, 0x57, 0xBF, 0x7F, 0xFB, 0xC0, 0x84, 0x21, 0xFB, 0xF7, 0xF0, 0x1F, 0xD5, 0x55, 0xFF, 0xFF,
     0xF7, 0xF0, 0x1F, 0xC0, 0x3F, 0xFF, 0xFF, 0xFF, 0xFF, 0xFF, 0xFF, 0xFF, 0xFF, 0xFF, 0xFF, 0xFF, 0xFF,
     0xFF, 0xFF, 0xFF, 0xFF, 0xFF, 0xFF, 0xFF, 0xFF, 0xFF, 0xFF, 0xFF, 0xFF, 0xFF, 0xFF, 0xFF, 0xFF, 0xFF,
     0xFF, 0xFF, 0xFF, 0xFF, 0xFF, 0xFF, 0xFF, 0xFF, 0xFF, 0xFF, 0xFF, 0xFF, 0xFF, 0xFF, 0xFF, 0xFF, 0xFF,
     0xFF, 0xFF, 0xFF, 0xFF, 0xFF, 0xFF, 0xFF, 0xFF, 0xFF, 0x80, 0xFF, 0xFF, 0xFF, 0xFF, 0xFF, 0xFF, 0xE3,
     0xFF, 0xFF, 0x3F, 0xFF, 0xFF, 0xFF, 0xFF, 0xBF, 0xF7, 0xFF, 0xFF, 0xFF, 0xFF, 0xFF, 0xFF, 0x8F, 0xFF,
     0xFE, 0xFF, 0xFF, 0xFF, 0x81, 0x5A, 0x4D, 0x5D, 0xE4, 0x00, 0xF7, 0xEF, 0xFF, 0x1F, 0x7F, 0xF3, 0xC0,
     0xFB, 0xDF, 0xDB, 0xB7, 0xF7, 0xFD, 0xEA, 0xAA, 0x00, 0x03, 0xF7, 0x7F, 0xFA, 0xFF, 0x3F, 0xFF, 0xDF,
     0xFE, 0xBE, 0xFE, 0x72, 0xFF, 0xEF, 0xDF, 0xBF, 0xFD, 0xFF, 0xFB, 0xFF, 0xC7, 0x8E, 0x0E, 0x3F, 0x78,
     0xF1, 0xEF, 0xC7, 0x1F, 0xFE, 0xFF, 0x7F, 0xF7, 0xF7, 0xC3, 0x76, 0x1E, 0x38, 0x70, 0x6F, 0xE1, 0xBB,
     0x8F, 0x1D, 0xD8, 0x37, 0x6E, 0xE3, 0xBF, 0x96, 0xEE, 0x3E, 0xF8, 0xFB, 0xDD, 0xBB, 0xDE, 0x0C, 0x1F,
     0xF0, 0x7F, 0xFF, 0xFF, 0x86, 0x1E, 0x1C, 0x38, 0x77, 0xFD, 0xBB, 0x8E, 0xDD, 0xDC, 0x77, 0x6E, 0xE3,
     0xBF, 0xF6, 0xFC, 0x3E, 0x79, 0x7B, 0xC9, 0xBB, 0xF6, 0x0F, 0x1E, 0xF1, 0xFF, 0xFF, 0x02, 0xF6, 0x1E,
     0xBD, 0xE4, 0x3C, 0xE7, 0xDF, 0xFE, 0xAF, 0x7F, 0xE0, 0x00, 0xF3, 0xCF, 0x8F, 0xBF, 0xF7, 0xFE, 0xD5,
     0x55, 0x7F, 0xFB, 0xF6, 0x3F, 0xFA, 0xFF, 0x3F, 0xFF, 0xFF, 0xFE, 0xB8, 0x76, 0x6D, 0xFF, 0xDF, 0xEE,
     0xAF, 0x7E, 0xFF, 0xFF, 0xDF, 0xBB, 0xDE, 0xFD, 0xDF, 0x77, 0x6E, 0xEF, 0xBB, 0xEF, 0xFF, 0x7E, 0xFF,
     0xFB, 0xFF, 0xBF, 0x76, 0xED, 0xDB, 0xB7, 0xEF, 0xDD, 0xBB, 0xDE, 0xED, 0xBB, 0xF7, 0x6E, 0xDD, 0xBF,
     0x6E, 0xDD, 0xDE, 0xF7, 0x75, 0xC9, 0xBB, 0xDE, 0xFC, 0xFF, 0xBE, 0x7F, 0xFF, 0xFF, 0x76, 0xED, 0xFB,
     0xB7, 0xF7, 0xE1, 0xBB, 0xDF, 0xDD, 0xBE, 0xF5, 0x6E, 0xDD, 0x87, 0x86, 0xFF, 0xDD, 0xB6, 0x75, 0xD5,
     0xD7, 0x87, 0x7E, 0x7E, 0xFC, 0xFF, 0xD5, 0x02, 0xF6, 0x3F, 0x7A, 0xEA, 0x18, 0x0F, 0xBF, 0xFD, 0xB7,
     0x7F, 0xF3, 0x80, 0xE3, 0xC7, 0x06, 0x07, 0xF7, 0xFF, 0x6A, 0xAA, 0x7F, 0xFB, 0xF4, 0x1F, 0xE2, 0x33,
     0x3F, 0xFF, 0xDF, 0xFC, 0x1E, 0xBB, 0xEA, 0xFF, 0xBF, 0xF7, 0x1F, 0x7E, 0xFF, 0xFF, 0xEF, 0x9B, 0xDF,
     0x7F, 0xD8, 0x3F, 0x6E, 0xEF, 0xBB, 0xF7, 0xBF, 0x7D, 0xF0, 0x7D, 0xF7, 0xA7, 0x06, 0xED, 0xFB, 0xB7,
     0xEF, 0xD9, 0xBB, 0xDF, 0xED, 0x7B, 0xF7, 0x6C, 0xDD, 0xBF, 0x56, 0xBF, 0xDE, 0xF7, 0x6E, 0xD5, 0xD7,
     0xDF, 0x7C, 0xFF, 0x7E, 0x6E, 0xFF, 0xFF, 0x86, 0xED, 0xFB, 0xB0, 0x77, 0xDD, 0xBB, 0xDF, 0xDC, 0x7E,
     0xF5, 0x6E, 0xDD, 0xBB, 0x76, 0xFE, 0x3D, 0xF7, 0x6E, 0xD5, 0xEF, 0x77, 0xBE, 0x7E, 0xFC, 0xFF, 0xEB,
     0x00, 0xFA, 0x7F, 0x77, 0x79, 0x1C, 0xFF, 0x01, 0xFF, 0xBB, 0x6F, 0xFB, 0x80, 0xC0, 0x02, 0x02, 0x08,
     0x07, 0xE0, 0x15, 0x55, 0x7F, 0xFB, 0xF0, 0x0F, 0xFF, 0xF3, 0x3F, 0xFF, 0xDF, 0xFE, 0xBC, 0x7D, 0xF7,
     0xFF, 0xBF, 0xF7, 0xBC, 0x1F, 0xF0, 0x7F, 0xF7, 0xAB, 0xDF, 0x9F, 0x3B, 0x7F, 0x61, 0xF7, 0xC7, 0x87,
     0xFF, 0xFB, 0xFF, 0xFE, 0xF7, 0xA3, 0x76, 0x1D, 0xFB, 0xB0, 0xE1, 0xDF, 0x83, 0xDF, 0xEC, 0xFB, 0xF5,
     0x6A, 0xDD, 0x87, 0x76, 0x1E, 0x3E, 0xF7, 0x6E, 0xD5, 0xEF, 0xDF, 0xBC, 0xFE, 0xFE, 0x75, 0xFF, 0xFF,
     0xF6, 0xED, 0xFB, 0xB7, 0x61, 0xDD, 0xBB, 0xDF, 0xDD, 0xBE, 0xF5, 0x6E, 0xDD, 0xBB, 0x76, 0x7D, 0xFD,
     0xF7, 0x6E, 0xDD, 0xD7, 0x77, 0xDC, 0xFE, 0xFE, 0x7F, 0xD5, 0x93, 0x26, 0xFE, 0xBF, 0xA0, 0xA0, 0x0F,
     0xBF, 0xFF, 0xBD, 0x5F, 0xFF, 0x80, 0xE3, 0xC7, 0xDF, 0x1F, 0xF7, 0xFF, 0x6A, 0xAA, 0x7C, 0x07, 0xF4,
     0x1F, 0xE2, 0x3F, 0x3F, 0xFF, 0xDF, 0x5C, 0x1A, 0xFE, 0xEB, 0xF7, 0xBF, 0xF7, 0x1F, 0x7F, 0xFF, 0xFF,
     0xFB, 0xB3, 0xDF, 0xEF, 0xBD, 0x70, 0xEF, 0xFB, 0xBB, 0x77, 0xBF, 0x7D, 0xF0, 0x7D, 0xFB, 0xAB, 0x76,
     0xED, 0xFB, 0xB7, 0xEF, 0xDF, 0xBB, 0xDF, 0xED, 0x7B, 0xF5, 0x66, 0xDD, 0xBB, 0x76, 0xED, 0xFE, 0xF7,
     0x6E, 0xDD, 0xD7, 0xAF, 0xDC, 0xFD, 0xFE, 0x7B, 0xFF, 0xFF, 0x8E, 0x1E, 0x1C, 0x38, 0xF7, 0xE3, 0x87,
     0x9F, 0x9D, 0xDE, 0xF2, 0x61, 0xE3, 0x87, 0x86, 0x8E, 0x18, 0x77, 0x6E, 0xDD, 0xBB, 0x76, 0x0E, 0x7E,
     0xFC, 0xFF, 0xEB, 0xEF, 0xDF, 0xFD, 0xDF, 0xC0, 0x7E, 0x73, 0xDF, 0xFF, 0xBE, 0x3F, 0xFF, 0x80, 0xF3,
     0xCF, 0xDB, 0xB7, 0xF7, 0xFE, 0xD5, 0x55, 0x83, 0xFF, 0xF6, 0x3F, 0xFA, 0xFF, 0x3F, 0xFF, 0xDF, 0x5E,
     0xBC, 0x33, 0x6B, 0xF7, 0xDF, 0xEE, 0xAF, 0x7F, 0xFF, 0xFF, 0xFD, 0xBB, 0x9E, 0xEF, 0xDE, 0x77, 0xF7,
     0xFD, 0xBB, 0x77, 0xFF, 0xFE, 0xFF, 0xFB, 0xDD, 0xBB, 0xAE, 0xED, 0xDB, 0xB7, 0xEF, 0xDF, 0xBB, 0xDF,
     0xED, 0xBB, 0xF2, 0x6E, 0xDD, 0xBB, 0x76, 0xED, 0xDE, 0xF7, 0x6E, 0xDD, 0xBB, 0x77, 0xEC, 0xFB, 0xFE,
     0x7F, 0xFF, 0xFF, 0xFE, 0xFF, 0xFF, 0xBF, 0xF6, 0xFF, 0xBF, 0xFF, 0xFD, 0xFE, 0xFF, 0xFF, 0xFF, 0xFF,
     0xFF, 0xFF, 0xFD, 0xFF, 0xFF, 0xFF, 0xFF, 0xFF, 0xFE, 0x7E, 0xFC, 0xE9, 0xD5, 0xF7, 0xEF, 0xF8, 0x0F,
     0xE0, 0x3C, 0x7F, 0xEF, 0xFF, 0xBF, 0x70, 0x1F, 0x80, 0x9B, 0xD9, 0xFB, 0xF7, 0xF7, 0xFD, 0xEA, 0xAA,
     0xFF, 0xFF, 0xF7, 0x70, 0x1A, 0xC0, 0x3F, 0xFF, 0xDF, 0x5E, 0xBE, 0xF3, 0xF7, 0xF7, 0xEF, 0xDF, 0xBF,
     0xFF, 0xFF, 0xFF, 0xFF, 0xC7, 0xDF, 0x1C, 0x1F, 0x70, 0x78, 0xC1, 0xC7, 0x8F, 0xFF, 0xFF, 0x7F, 0xF7,
     0xE3, 0xC7, 0xDE, 0x1E, 0x38, 0x70, 0x60, 0xE1, 0xBB, 0x8F, 0xED, 0xDB, 0xF7, 0x6E, 0xE3, 0x87, 0x8E,
     0x1E, 0x38, 0x37, 0x6E, 0xDD, 0xBB, 0x76, 0x0C, 0x1F, 0xF0, 0x7F, 0xFF, 0xFF, 0xFE, 0xFF, 0xFF, 0xBF,
     0xF9, 0xFF, 0xBF, 0xDF, 0xDD, 0xFC, 0xFF, 0xFF, 0xFF, 0xFF, 0xFF, 0xFF, 0xFD, 0xFF, 0xFF, 0xFF, 0xFF,
     0xFF, 0xFF, 0x1E, 0xF1, 0xF2, 0xFF]"

subsection \<open>Decoding\<close>

text \<open>A little-endian 32-bit \<^verbatim>\<open>int\<close> of the header.\<close>

definition head_int :: "u8 list \<Rightarrow> nat \<Rightarrow> int" where
  "head_int hdr54 p = sint (ucast (hdr54 ! p) + push_bit 8 (ucast (hdr54 ! (p + 1))) +
     push_bit 16 (ucast (hdr54 ! (p + 2))) + push_bit 24 (ucast (hdr54 ! (p + 3))) :: u32)"

text \<open>The three decoding loops: bits are stored most significant first, lines bottom up.\<close>

definition decode_byte :: "int \<Rightarrow> int \<Rightarrow> u8 \<Rightarrow> int \<Rightarrow> bytes \<Rightarrow> bytes option" where
  "decode_byte w h v pos = for_range 0 8 (\<lambda>k img.
     (let i = pos + (7 - int k) in
      if 0 \<le> i \<and> i < w * h then Some (img(nat i := drop_bit k v AND 1)) else None))"

definition decode_bits :: "int \<Rightarrow> int \<Rightarrow> int \<Rightarrow> u8 list \<Rightarrow> bytes \<Rightarrow> bytes option" where
  "decode_bits w h lineSize dat = for_range 0 (nat h) (\<lambda>j. for_range 0 (nat (w sdiv 8)) (\<lambda>i img.
     (let fpos = int j * lineSize + int i; pos = (h - 1 - int j) * w + int i * 8 in
      if 0 \<le> fpos \<and> fpos < int (length dat) then decode_byte w h (dat ! nat fpos) pos img else None)))"

definition af_read_bmp_memory :: "u8 list \<Rightarrow> kmem \<Rightarrow> (u32 \<times> bytes \<times> int \<times> int \<times> kmem) option" where
  "af_read_bmp_memory buffer s =
     (if length buffer < 54 then None
      else do {
        let hdr54 = take 54 buffer;
        let w = head_int hdr54 18;
        let h = head_int hdr54 22;
        let lineSize = w sdiv 8 + w sdiv 8 smod 4;
        let fileSize = lineSize * h;
        (img, s) \<leftarrow> malloc (of_int (w * h)) s;
        (dat, s) \<leftarrow> malloc (of_int fileSize) s;
        let pos = 54 + 8;
        if img = 0 \<or> dat = 0 \<or> fileSize < 0 \<or> length buffer < pos + nat fileSize then None
        else do {
          bits \<leftarrow> decode_bits w h lineSize (take (nat fileSize) (drop pos buffer)) (\<lambda>i. kbytes s (unat img + i));
          Some (img, bits, w, h, free dat s) } })"

text \<open>The loops of \<^verbatim>\<open>af_Create\<close> for one font; \<^verbatim>\<open>pos\<close> is \<open>y * FONT_X + x\<close>.\<close>

definition fill_font :: "bytes \<Rightarrow> int \<Rightarrow> int \<Rightarrow> (nat \<Rightarrow> nat \<Rightarrow> u8) \<Rightarrow> (nat \<Rightarrow> nat \<Rightarrow> u8) option" where
  "fill_font img w h = for_range 0 FONT_NUM (\<lambda>n. for_range 0 FONT_Y (\<lambda>y. for_range 0 FONT_X (\<lambda>x font.
     (let i = int y * w + int (x + n * FONT_X) in
      if 0 \<le> i \<and> i < w * h then Some (font(n := (font n)(y * FONT_X + x := img (nat i)))) else None))))"

definition load_font :: "u8 list \<Rightarrow> (nat \<Rightarrow> nat \<Rightarrow> u8) \<Rightarrow> kmem \<Rightarrow> ((nat \<Rightarrow> nat \<Rightarrow> u8) \<times> kmem) option" where
  "load_font buffer font s = do {
     (p, img, w, h, s) \<leftarrow> af_read_bmp_memory buffer s;
     font \<leftarrow> fill_font img w h font;
     Some (font, free p s) }"

definition af_Create :: "fonts \<Rightarrow> kmem \<Rightarrow> (fonts \<times> kmem) option" where
  "af_Create F s = do {
     (font, s) \<leftarrow> load_font normalfont (af_font F) s;
     (invfont, s) \<leftarrow> load_font inversefont (af_invfont F) s;
     Some (F\<lparr>af_font := font, af_invfont := invfont\<rparr>, s) }"

subsection \<open>Closed forms\<close>

lemma decode_byte_closed:
  assumes "0 \<le> w" "int pos + 8 \<le> w * h"
  shows "decode_byte w h v (int pos) img =
    Some (\<lambda>i. if pos \<le> i \<and> i < pos + 8 then drop_bit (7 - (i - pos)) v AND 1 else img i)"
proof -
  let ?F = "\<lambda>n i. if pos + 8 \<le> i + n \<and> i < pos + 8 then drop_bit (7 - (i - pos)) v AND 1 else img i"
  have "for_range 0 8 (\<lambda>k img. let i = int pos + (7 - int k)
      in if 0 \<le> i \<and> i < w * h then Some (img(nat i := drop_bit k v AND 1)) else None) img = Some (?F 8)"
  proof (rule for_range_closed[where F = ?F])
    fix k :: nat assume k: "k < 8"
    then have i: "int pos + (7 - int k) = int (pos + (7 - k))" by simp
    have "(?F k)(pos + (7 - k) := drop_bit k v AND 1) = ?F (Suc k)"
      using k by (auto simp: fun_eq_iff)
    then show "(let i = int pos + (7 - int k) in if 0 \<le> i \<and> i < w * h
        then Some ((?F k)(nat i := drop_bit k v AND 1)) else None) = Some (?F (Suc k))"
      using k assms unfolding i Let_def nat_int by simp
  qed (auto simp: fun_eq_iff)
  then show ?thesis unfolding decode_byte_def by simp
qed

definition bmp_pixel :: "u8 list \<Rightarrow> nat \<Rightarrow> nat \<Rightarrow> u8" where
  "bmp_pixel dat x y = drop_bit (7 - x mod 8) (dat ! ((7 - y) * 112 + x div 8)) AND 1"

lemma byte_coords:
  fixes p r i :: nat
  assumes "i < 112"
  shows "r * 896 + i * 8 \<le> p \<and> p < r * 896 + i * 8 + 8 \<longleftrightarrow> p div 896 = r \<and> p mod 896 div 8 = i"
    and "p div 896 = r \<Longrightarrow> p mod 896 div 8 = i \<Longrightarrow> p - (r * 896 + i * 8) = p mod 896 mod 8"
proof -
  define q x where "q = p div 896" and "x = p mod 896"
  have p: "p = q * 896 + x" "x < 896" by (simp_all add: q_def x_def)
  have c: "i * 8 \<le> x \<and> x < i * 8 + 8 \<longleftrightarrow> x div 8 = i" by (rule cell_coords) simp
  show "r * 896 + i * 8 \<le> p \<and> p < r * 896 + i * 8 + 8 \<longleftrightarrow> p div 896 = r \<and> p mod 896 div 8 = i"
  proof -
    have "q = r" if "r * 896 + i * 8 \<le> p" "p < r * 896 + i * 8 + 8"
      unfolding q_def by (rule div_nat_eqI) (use that assms in \<open>simp_all add: algebra_simps\<close>)
    then show ?thesis
      unfolding q_def[symmetric] x_def[symmetric] c[symmetric] using p by auto
  qed
  show "p div 896 = r \<Longrightarrow> p mod 896 div 8 = i \<Longrightarrow> p - (r * 896 + i * 8) = p mod 896 mod 8"
    unfolding q_def[symmetric] x_def[symmetric] using cell_offset[of x 8 i] p by simp
qed

lemma decode_row:
  assumes "length dat = 896" "j < 8"
  shows "for_range 0 112 (\<lambda>i img. let fpos = int j * 112 + int i; pos = (8 - 1 - int j) * 896 + int i * 8 in
      if 0 \<le> fpos \<and> fpos < int (length dat) then decode_byte 896 8 (dat ! nat fpos) pos img else None) img =
    Some (\<lambda>p. if p div 896 = 7 - j then bmp_pixel dat (p mod 896) (7 - j) else img p)"
proof -
  let ?F = "\<lambda>n p. if p div 896 = 7 - j \<and> p mod 896 div 8 < n then bmp_pixel dat (p mod 896) (7 - j) else img p"
  have "for_range 0 112 (\<lambda>i img. let fpos = int j * 112 + int i; pos = (8 - 1 - int j) * 896 + int i * 8 in
      if 0 \<le> fpos \<and> fpos < int (length dat) then decode_byte 896 8 (dat ! nat fpos) pos img else None) img = Some (?F 112)"
  proof (rule for_range_closed[where F = ?F])
    fix i :: nat assume i: "i < 112"
    have f: "int j * 112 + int i = int (j * 112 + i)" "(8 - 1 - int j) * 896 + int i * 8 = int ((7 - j) * 896 + i * 8)"
      using assms(2) by (simp_all add: of_nat_diff)
    have b: "j * 112 + i < length dat" using assms i by simp
    have "decode_byte 896 8 (dat ! (j * 112 + i)) (int ((7 - j) * 896 + i * 8)) (?F i) = Some (?F (Suc i))"
    proof (subst decode_byte_closed)
      show "int ((7 - j) * 896 + i * 8) + 8 \<le> 896 * 8" using i by (simp flip: of_nat_add of_nat_mult)
      have "j * 112 + k = (7 - (7 - j)) * 112 + k" for k using assms(2) by simp
      then show "Some (\<lambda>p. if (7 - j) * 896 + i * 8 \<le> p \<and> p < (7 - j) * 896 + i * 8 + 8
          then drop_bit (7 - (p - ((7 - j) * 896 + i * 8))) (dat ! (j * 112 + i)) AND 1 else ?F i p) = Some (?F (Suc i))"
        unfolding byte_coords(1)[OF i] option.inject
        by (auto simp: fun_eq_iff bmp_pixel_def byte_coords(2)[OF i] less_Suc_eq)
    qed simp
    then show "(let fpos = int j * 112 + int i; pos = (8 - 1 - int j) * 896 + int i * 8 in
        if 0 \<le> fpos \<and> fpos < int (length dat) then decode_byte 896 8 (dat ! nat fpos) pos (?F i) else None) = Some (?F (Suc i))"
      unfolding Let_def f nat_int using b by simp
  qed (auto simp: fun_eq_iff)
  moreover have "p mod 896 div 8 < 112" for p :: nat by (simp add: less_mult_imp_div_less)
  ultimately show ?thesis by simp
qed

lemma decode_bits_closed:
  assumes "length dat = 896"
  shows "decode_bits 896 8 112 dat img = Some (\<lambda>p. if p < 7168 then bmp_pixel dat (p mod 896) (p div 896) else img p)"
proof -
  let ?F = "\<lambda>n p. if p < 7168 \<and> 8 \<le> p div 896 + n then bmp_pixel dat (p mod 896) (p div 896) else img p"
  have lt: "p < 7168 \<longleftrightarrow> p div 896 < 8" for p :: nat by (simp add: div_less_iff_less_mult)
  have n: "nat 8 = 8" "nat (896 sdiv 8) = 112" by (simp_all add: signed_divide_int_def)
  have "decode_bits 896 8 112 dat img = Some (?F 8)"
    unfolding decode_bits_def n
  proof (rule for_range_closed[where F = ?F])
    have "\<not> (p div 896 < 8 \<and> 8 \<le> p div 896 + 0)" for p :: nat by linarith
    then show "?F 0 = img" by (simp only: lt if_False)
    fix j :: nat assume j: "j < 8"
    have "(\<lambda>p. if p div 896 = 7 - j then bmp_pixel dat (p mod 896) (7 - j) else ?F j p) = ?F (Suc j)"
      using j unfolding lt by (auto simp: fun_eq_iff)
    then show "for_range 0 112 (\<lambda>i img. let fpos = int j * 112 + int i; pos = (8 - 1 - int j) * 896 + int i * 8 in
        if 0 \<le> fpos \<and> fpos < int (length dat) then decode_byte 896 8 (dat ! nat fpos) pos img else None) (?F j) = Some (?F (Suc j))"
      by (subst decode_row[OF assms j]) (rule arg_cong[where f = Some])
  qed simp
  then show ?thesis by simp
qed

lemma fill_font_closed:
  "fill_font img 896 8 font = Some (\<lambda>n p. if n < 128 \<and> p < 56 then img (p div 7 * 896 + (p mod 7 + n * 7)) else font n p)"
proof -
  let ?v = "\<lambda>n p. img (p div 7 * 896 + (p mod 7 + n * 7))"
  let ?G = "\<lambda>n c. (\<lambda>n' p. if n' < n \<and> p < 56 \<or> n' = n \<and> p < c then ?v n' p else font n' p)"
  let ?px = "\<lambda>n y x g. let i = int y * 896 + int (x + n * 7) in if 0 \<le> i \<and> i < 896 * 8
      then Some (g(n := (g n)(y * 7 + x := img (nat i)))) else None"
  have px: "?px n y x (?G n (y * 7 + x)) = Some (?G n (y * 7 + Suc x))" if "n < 128" "y < 8" "x < 7" for n y x
  proof -
    have i: "int y * 896 + int (x + n * 7) = int (y * 896 + (x + n * 7))" by simp
    have v: "img (y * 896 + (x + n * 7)) = ?v n (y * 7 + x)" using that(3) by simp
    have b: "y * 896 + (x + n * 7) < 896 * 8" using that by simp
    have c: "y * 7 + x < 56" using that by simp
    have "(?G n (y * 7 + x))(n := (?G n (y * 7 + x) n)(y * 7 + x := ?v n (y * 7 + x))) = ?G n (y * 7 + Suc x)"
      by (auto simp: fun_eq_iff less_Suc_eq)
    then show ?thesis using b unfolding i Let_def nat_int v by simp
  qed
  have row: "for_range 0 7 (?px n y) (?G n (y * 7)) = Some (?G n (Suc y * 7))" if "n < 128" "y < 8" for n y
    by (subst for_range_closed[where F = "\<lambda>x. ?G n (y * 7 + x)"]) (use that px in \<open>simp_all add: add.commute\<close>)
  have glyph: "for_range 0 8 (\<lambda>y. for_range 0 7 (?px n y)) (?G n 0) = Some (?G (Suc n) 0)" if "n < 128" for n
  proof -
    have "for_range 0 8 (\<lambda>y. for_range 0 7 (?px n y)) (?G n 0) = Some (?G n (8 * 7))"
      by (rule for_range_closed[where F = "\<lambda>y. ?G n (y * 7)"]) (use that row in simp_all)
    moreover have "?G n (8 * 7) = ?G (Suc n) 0" by (auto simp: fun_eq_iff less_Suc_eq)
    ultimately show ?thesis by simp
  qed
  have "for_range 0 128 (\<lambda>n. for_range 0 8 (\<lambda>y. for_range 0 7 (?px n y))) font = Some (?G 128 0)"
    by (rule for_range_closed[where F = "\<lambda>n. ?G n 0"]) (use glyph in simp_all)
  then show ?thesis unfolding fill_font_def FONT_NUM_def FONT_Y_def FONT_X_def by simp
qed

lemma font_data:
  "length (drop 62 normalfont) = 896" "length (drop 62 inversefont) = 896"
  "drop 62 inversefont = map (\<lambda>b. NOT b) (drop 62 normalfont)"
  by code_simp+

lemma font_head:
  "head_int (take 54 normalfont) 18 = 896" "head_int (take 54 normalfont) 22 = 8"
  "head_int (take 54 inversefont) 18 = 896" "head_int (take 54 inversefont) 22 = 8"
  by code_simp+

lemma font_line: "(896::int) sdiv 8 + 896 sdiv 8 smod 4 = 112"
  by (simp add: signed_divide_int_def signed_modulo_int_def)

definition glyph_table :: "u8 list \<Rightarrow> (nat \<Rightarrow> nat \<Rightarrow> u8) \<Rightarrow> nat \<Rightarrow> nat \<Rightarrow> u8" where
  "glyph_table buffer font n p = (if n < 128 \<and> p < 56
     then bmp_pixel (drop 62 buffer) (p mod 7 + n * 7) (p div 7) else font n p)"

lemma load_font_result:
  assumes len: "length (drop 62 buffer) = 896"
    and w: "head_int (take 54 buffer) 18 = 896" and h: "head_int (take 54 buffer) 22 = 8"
    and a: "malloc 7168 s = Some (img, s1)" "malloc 896 s1 = Some (dat, s2)" "img \<noteq> 0" "dat \<noteq> 0"
  shows "load_font buffer font s = Some (glyph_table buffer font, free img (free dat s2))"
proof -
  have l: "length buffer = 958" using len by simp
  have px: "p mod 7 + n * 7 < 896" if "n < 128" for n p :: nat
  proof -
    have "p mod 7 \<le> 6" by (simp add: less_Suc_eq_le[symmetric])
    then show ?thesis using that by linarith
  qed
  have row: "p div 7 * 896 + (p mod 7 + n * 7) < 7168" if "n < 128" "p < 56" for n p :: nat
  proof -
    have "p div 7 \<le> 7" using that(2) by simp
    then show ?thesis using px[OF that(1), of p] by linarith
  qed
  have "take 896 (drop 62 buffer) = drop 62 buffer" using len by simp
  then have "af_read_bmp_memory buffer s = Some (img, (\<lambda>p. if p < 7168 then bmp_pixel (drop 62 buffer) (p mod 896) (p div 896)
      else kbytes s2 (unat img + p)), 896, 8, free dat s2)"
    using a decode_bits_closed[OF len] unfolding af_read_bmp_memory_def Let_def w h font_line l by simp
  then show ?thesis
    unfolding load_font_def by (simp add: fill_font_closed px row fun_eq_iff glyph_table_def)
qed

lemma bmp_pixel_complement:
  assumes "length dat = 896" "x < 896"
  shows "bmp_pixel (map (\<lambda>b. NOT b) dat) x y = 1 - bmp_pixel dat x y"
proof -
  have "x div 8 < 112" using assms(2) by (simp add: less_mult_imp_div_less)
  moreover have "(7 - y) * 112 \<le> 7 * 112" by simp
  ultimately have "(7 - y) * 112 + x div 8 < length dat" unfolding assms(1) by linarith
  moreover have "drop_bit k (NOT v) AND 1 = 1 - (drop_bit k v AND 1)" if "k < 8" for v :: u8 and k
    using that by (cases "bit v k") (auto simp: and_one_eq mod_2_eq_odd bit_simps even_drop_bit_iff_not_bit)
  ultimately show ?thesis unfolding bmp_pixel_def by simp
qed

lemma glyph_table_pixel:
  assumes "n < 128" "y < 8" "x < 7"
  shows "glyph_table buffer font n (y * 7 + x) = bmp_pixel (drop 62 buffer) (7 * n + x) y"
proof -
  have "y * 7 + x < 56" using assms by simp
  then show ?thesis using assms unfolding glyph_table_def by (simp add: ac_simps)
qed

lemma af_Create_result:
  assumes "malloc 7168 s = Some (img, s1)" "malloc 896 s1 = Some (dat, s2)" "img \<noteq> 0" "dat \<noteq> 0"
    and "malloc 7168 (free img (free dat s2)) = Some (img', s3)" "malloc 896 s3 = Some (dat', s4)" "img' \<noteq> 0" "dat' \<noteq> 0"
  shows "af_Create F s = Some (F\<lparr>af_font := glyph_table normalfont (af_font F), af_invfont := glyph_table inversefont (af_invfont F)\<rparr>,
      free img' (free dat' s4))"
  unfolding af_Create_def load_font_result[OF font_data(1) font_head(1,2) assms(1-4)]
    bind.bind_lunit prod.case load_font_result[OF font_data(2) font_head(3,4) assms(5-8)] ..

text \<open>
  C40. When \<^verbatim>\<open>af_Create\<close> finishes, pixel \<open>(x, y)\<close> of glyph \<open>n\<close> is the bit of column \<open>7 * n + x\<close> in line
  \<open>y\<close> from the top of the bitmap (stored bottom up, 112 bytes a line, most significant bit first), and
  the inverse font is the exact complement of the normal one.  It finishes whenever the allocator
  delivers its two work arrays for each font.
\<close>

theorem font_glyphs:
  assumes "malloc 7168 s = Some (img, s1)" "malloc 896 s1 = Some (dat, s2)" "img \<noteq> 0" "dat \<noteq> 0"
    and "malloc 7168 (free img (free dat s2)) = Some (img', s3)" "malloc 896 s3 = Some (dat', s4)" "img' \<noteq> 0" "dat' \<noteq> 0"
  shows "\<exists>F'. af_Create F s = Some (F', free img' (free dat' s4)) \<and>
    (\<forall>n < 128. \<forall>y < 8. \<forall>x < 7.
       af_font F' n (y * 7 + x) = drop_bit (7 - (7 * n + x) mod 8) (normalfont ! (62 + (7 - y) * 112 + (7 * n + x) div 8)) AND 1 \<and>
       af_invfont F' n (y * 7 + x) = 1 - af_font F' n (y * 7 + x))"
proof (intro exI conjI allI impI)
  show "af_Create F s = Some (F\<lparr>af_font := glyph_table normalfont (af_font F), af_invfont := glyph_table inversefont (af_invfont F)\<rparr>,
      free img' (free dat' s4))"
    by (rule af_Create_result [OF assms])
  fix n x y :: nat
  assume b: "n < 128" "y < 8" "x < 7"
  show "af_font (F\<lparr>af_font := glyph_table normalfont (af_font F), af_invfont := glyph_table inversefont (af_invfont F)\<rparr>) n (y * 7 + x) =
      drop_bit (7 - (7 * n + x) mod 8) (normalfont ! (62 + (7 - y) * 112 + (7 * n + x) div 8)) AND 1"
    using glyph_table_pixel[OF b] font_data(1) by (simp add: bmp_pixel_def add.assoc)
  show "af_invfont (F\<lparr>af_font := glyph_table normalfont (af_font F), af_invfont := glyph_table inversefont (af_invfont F)\<rparr>) n (y * 7 + x) =
      1 - af_font (F\<lparr>af_font := glyph_table normalfont (af_font F), af_invfont := glyph_table inversefont (af_invfont F)\<rparr>) n (y * 7 + x)"
    using glyph_table_pixel[OF b] bmp_pixel_complement[OF font_data(1), of "7 * n + x" y] b
    by (simp add: font_data(3))
qed

definition font_heap :: "m_header \<Rightarrow> m_header \<Rightarrow> m_header \<Rightarrow> kmem" where
  "font_heap a b c = \<lparr>head = 0x100000, hdr = (\<lambda>x. if x = 0x100000 then a else if x = 0x101C10 then b
     else if x = 0x101FA0 then c else hd4 0 0 0 False), kbytes = (\<lambda>_. 0)\<rparr>"

lemmas font_run = run_defs font_heap_def fun_eq_iff

lemma font_init: "k_init_mem kmem_image = font_heap (hd4 0 0 0x9FFFF0 False) (hd4 0 0 0 False) (hd4 0 0 0 False)"
  by (simp add: font_run)

lemma font_1: "malloc 7168 (font_heap (hd4 0 0 0x9FFFF0 False) b c) =
    Some (0x100010, font_heap (hd4 0 0x101C10 7168 True) (hd4 0x100000 0 0x9FE3E0 False) c)"
  by (simp add: font_run)

lemma font_2: "malloc 896 (font_heap (hd4 0 0x101C10 7168 True) (hd4 0x100000 0 0x9FE3E0 False) c) =
    Some (0x101C20, font_heap (hd4 0 0x101C10 7168 True) (hd4 0x100000 0x101FA0 896 True) (hd4 0x101C10 0 0x9FE050 False))"
  by (simp add: font_run)

lemma font_3: "free 0x100010 (free 0x101C20 (font_heap (hd4 0 0x101C10 7168 True) (hd4 0x100000 0x101FA0 896 True) (hd4 0x101C10 0 0x9FE050 False))) =
    font_heap (hd4 0 0 0x9FFFF0 False) (hd4 0x100000 0 0x9FE3E0 False) (hd4 0x101C10 0 0x9FE050 False)"
  by (simp add: font_run)

theorem font_glyphs_witness:
  "\<exists>F'. af_Create \<lparr>af_font = (\<lambda>_ _. 0), af_invfont = (\<lambda>_ _. 0)\<rparr> (k_init_mem kmem_image) =
      Some (F', font_heap (hd4 0 0 0x9FFFF0 False) (hd4 0x100000 0 0x9FE3E0 False) (hd4 0x101C10 0 0x9FE050 False)) \<and>
    af_font F' 1 (1 * 7 + 2) = drop_bit (7 - (7 * 1 + 2) mod 8) (normalfont ! (62 + (7 - 1) * 112 + (7 * 1 + 2) div 8)) AND 1"
proof -
  have again: "malloc 7168 (free 0x100010 (free 0x101C20 (font_heap (hd4 0 0x101C10 7168 True) (hd4 0x100000 0x101FA0 896 True) (hd4 0x101C10 0 0x9FE050 False)))) =
      Some (0x100010, font_heap (hd4 0 0x101C10 7168 True) (hd4 0x100000 0 0x9FE3E0 False) (hd4 0x101C10 0 0x9FE050 False))"
    unfolding font_3 by (rule font_1)
  obtain F' where F': "af_Create \<lparr>af_font = (\<lambda>_ _. 0), af_invfont = (\<lambda>_ _. 0)\<rparr> (k_init_mem kmem_image) =
      Some (F', font_heap (hd4 0 0 0x9FFFF0 False) (hd4 0x100000 0 0x9FE3E0 False) (hd4 0x101C10 0 0x9FE050 False))"
    and px: "\<forall>n < 128. \<forall>y < 8. \<forall>x < 7.
       af_font F' n (y * 7 + x) = drop_bit (7 - (7 * n + x) mod 8) (normalfont ! (62 + (7 - y) * 112 + (7 * n + x) div 8)) AND 1 \<and>
       af_invfont F' n (y * 7 + x) = 1 - af_font F' n (y * 7 + x)"
    using font_glyphs[OF font_1[of "hd4 0 0 0 False" "hd4 0 0 0 False"] font_2 _ _ again font_2,
        of "\<lparr>af_font = (\<lambda>_ _. 0), af_invfont = (\<lambda>_ _. 0)\<rparr>", unfolded font_3] unfolding font_init by auto
  have "(1::nat) < 128" "(1::nat) < 8" "(2::nat) < 7" by simp_all
  then show ?thesis using F' px by blast
qed

end
