(* ===== verification/Apple_Cycles.thy ===== *)
theory Apple_Cycles
  imports Apple_Safety
begin

text \<open>
  What the cycle budget of \<^verbatim>\<open>ac_Run\<close> really counts.  Each opcode spends a fixed number of cycles,
  given by \<open>opcode_cost\<close>; many spend none, because \<^verbatim>\<open>*cycle--\<close> does not touch the budget.  From the
  table follow the range of the value \<^verbatim>\<open>ac_Run\<close> returns, a condition under which it returns, and
  programs on which it does not.
\<close>

definition spends :: "u32 \<Rightarrow> handler \<Rightarrow> bool" where
  "spends k h \<longleftrightarrow> (\<forall>m m'. h m = Some m' \<longrightarrow> cycle (cpu m') = cycle (cpu m) - k)"

definition spends_rd :: "u32 \<Rightarrow> (machine \<Rightarrow> ('v \<times> machine) option) \<Rightarrow> bool" where
  "spends_rd k r \<longleftrightarrow> (\<forall>m v m'. r m = Some (v, m') \<longrightarrow> cycle (cpu m') = cycle (cpu m) - k)"

subsection \<open>Helpers\<close>

lemma cycle_flag [simp]: "cycle (cpu (set_flag f b m)) = cycle (cpu m)"
  by (simp add: set_flag_def)

lemma cycle_spend [simp]: "cycle (cpu (spend k m)) = cycle (cpu m) - k"
  by (simp add: spend_def)

lemma cycle_pure [simp]:
  "cycle (cpu (ac_SetZeroNegative v m)) = cycle (cpu m)"
  "cycle (cpu (zn_inc v m)) = cycle (cpu m)"
  "cycle (cpu (ac_Execute_ADC v m)) = cycle (cpu m)"
  "cycle (cpu (ac_Execute_SBC v m)) = cycle (cpu m)"
  "cycle (cpu (ac_Execute_CMP v m)) = cycle (cpu m)"
  "cycle (cpu (ac_Execute_CPX v m)) = cycle (cpu m)"
  "cycle (cpu (ac_Execute_CPY v m)) = cycle (cpu m)"
  by (simp_all add: ac_SetZeroNegative_def zn_inc_def ac_Execute_ADC_def ac_Execute_SBC_def
      ac_Execute_CMP_def ac_Execute_CPX_def ac_Execute_CPY_def compare_reg_def ac_SetOverflow_def
      ac_SetCarryFlag_def Let_def)

lemma cycle_shifts [simp]:
  "cycle (cpu (snd (ac_Execute_ASL v m))) = cycle (cpu m)"
  "cycle (cpu (snd (ac_Execute_LSR v m))) = cycle (cpu m)"
  "cycle (cpu (snd (ac_Execute_ROL v m))) = cycle (cpu m)"
  "cycle (cpu (snd (ac_Execute_ROR v m))) = cycle (cpu m)"
  by (simp_all add: ac_Execute_ASL_def ac_Execute_LSR_def ac_Execute_ROL_def ac_Execute_ROR_def
      Let_def)

lemma bus_cost [cost_rules]:
  "mem_ReadByte a m = Some (v, m') \<Longrightarrow> cycle (cpu m') = cycle (cpu m)"
  "mem_WriteByte a v m = Some m' \<Longrightarrow> cycle (cpu m') = cycle (cpu m)"
  by (auto dest: mem_ReadByte_cpu mem_WriteByte_cpu)

lemma access_cost [cost_rules]:
  "ac_ReadByte a m = Some (v, m') \<Longrightarrow> cycle (cpu m') = cycle (cpu m)"
  "ac_WriteByte v a m = Some m' \<Longrightarrow> cycle (cpu m') = cycle (cpu m)"
  "ac_Fetch m = Some (v, m') \<Longrightarrow> cycle (cpu m') = cycle (cpu m)"
  "ac_FetchWord m = Some (w, m') \<Longrightarrow> cycle (cpu m') = cycle (cpu m) - 2"
  "ac_ReadWord a m = Some (w, m') \<Longrightarrow> cycle (cpu m') = cycle (cpu m) - 2"
  by (auto simp: ac_ReadByte_def ac_WriteByte_def ac_Fetch_def ac_FetchWord_def ac_ReadWord_def
      mem_ReadWord_def bind_eq_Some_conv dest!: cost_rules)

lemma stack_cost [cost_rules]:
  "ac_PushStackByte v m = Some m' \<Longrightarrow> cycle (cpu m') = cycle (cpu m)"
  "ac_PushStackWord w m = Some m' \<Longrightarrow> cycle (cpu m') = cycle (cpu m)"
  "ac_PopStackByte m = Some (v, m') \<Longrightarrow> cycle (cpu m') = cycle (cpu m)"
  "ac_PopStackWord m = Some (w, m') \<Longrightarrow> cycle (cpu m') = cycle (cpu m)"
  by (auto simp: ac_PushStackByte_def ac_PushStackWord_def ac_PopStackByte_def ac_PopStackWord_def
      Let_def bind_eq_Some_conv dest!: cost_rules)

lemma mode_cost [simp]:
  "spends_rd 0 ac_addr_mode_ZP" "spends_rd 0 ac_addr_mode_ZPX" "spends_rd 0 ac_addr_mode_ZPY"
  "spends_rd 2 ac_addr_mode_ABS" "spends_rd 0 ac_addr_mode_ABSX" "spends_rd 2 ac_addr_mode_ABSX_NoPage"
  "spends_rd 0 ac_addr_mode_ABSY" "spends_rd 2 ac_addr_mode_ABSY_NoPage"
  "spends_rd k ac_addr_mode_INDX" "spends_rd 0 ac_addr_mode_INDY" "spends_rd 0 ac_Fetch"
  by (auto simp: spends_rd_def ac_addr_mode_ZP_def ac_addr_mode_ZPX_def ac_addr_mode_ZPY_def
      ac_addr_mode_ABS_def ac_addr_mode_ABSX_def ac_addr_mode_ABSX_NoPage_def ac_addr_mode_ABSY_def
      ac_addr_mode_ABSY_NoPage_def ac_addr_mode_INDY_def bind_eq_Some_conv
      dest!: cost_rules)

lemma rd_cost: "spends_rd k mode \<Longrightarrow> spends_rd k (rd mode)"
  by (auto simp: spends_rd_def rd_def bind_eq_Some_conv dest!: cost_rules)

subsection \<open>Handlers\<close>

lemma reader_cost:
  assumes "spends_rd k r"
  shows "spends k (op_LDA r)" and "spends k (op_LDX r)" and "spends k (op_LDY r)"
    and "spends k (op_AND r)" and "spends k (op_ORA r)" and "spends k (op_EOR r)"
    and "spends k (op_BIT r)" and "spends k (op_ADC r)" and "spends k (op_SBC r)"
    and "spends k (op_CMP r)" and "spends k (op_CPX r)" and "spends k (op_CPY r)"
  using assms
  by (auto simp: spends_def spends_rd_def op_LDA_def op_LDX_def op_LDY_def op_AND_def op_ORA_def
      op_EOR_def op_BIT_def op_ADC_def op_SBC_def op_CMP_def op_CPX_def op_CPY_def Let_def
      bind_eq_Some_conv)

lemma writer_cost:
  assumes "spends_rd k mode"
  shows "spends k (op_STA mode)" and "spends k (op_STX mode)" and "spends k (op_STY mode)"
    and "spends (k + 1) (op_INC mode)" and "spends (k + 1) (op_DEC mode)"
  using assms
  by (auto simp: spends_def spends_rd_def op_STA_def op_STX_def op_STY_def op_INC_def op_DEC_def
      Let_def bind_eq_Some_conv dest!: cost_rules)

lemma shift_cost:
  assumes "spends_rd k mode" and "\<And>v m. cycle (cpu (snd (f v m))) = cycle (cpu m)"
  shows "spends k (op_shift f mode)"
  using assms
  by (auto simp: spends_def spends_rd_def op_shift_def Let_def case_prod_beta bind_eq_Some_conv
      dest!: cost_rules)

lemma shift_A_cost:
  assumes "\<And>v m. cycle (cpu (snd (f v m))) = cycle (cpu m)"
  shows "spends 0 (op_shift_A f)"
  using assms by (auto simp: spends_def op_shift_A_def Let_def case_prod_beta)

lemma jump_cost:
  "spends 3 op_STA_INDY" "spends 1 op_JSR" "spends 2 op_JMP_ABS" "spends 4 op_JMP_IND"
  "spends 2 op_RTS" "spends 0 op_BRK" "spends 5 op_RTI"
  by (auto simp: spends_def op_STA_INDY_def op_JSR_def op_JMP_ABS_def op_JMP_IND_def op_RTS_def
      op_BRK_def op_RTI_def ac_addr_mode_ABS_def Let_def bind_eq_Some_conv dest!: cost_rules)

lemma register_cost:
  "spends 1 op_TSX" "spends 1 op_TXS" "spends 0 op_PHA" "spends 1 op_PLA" "spends 0 op_PLP"
  "spends 0 op_PHP" "spends 1 op_NOP" "spends 1 (op_flag f b)" "spends 1 op_TAX" "spends 1 op_TAY"
  "spends 1 op_TXA" "spends 1 op_TYA" "spends 1 op_INX" "spends 1 op_INY" "spends 1 op_DEX"
  "spends 1 op_DEY" "spends 0 (op_branch f b)"
  by (auto simp: spends_def op_TSX_def op_TXS_def op_PHA_def op_PLA_def op_PLP_def op_PHP_def
      op_NOP_def op_flag_def op_TAX_def op_TAY_def op_TXA_def op_TYA_def op_INX_def op_INY_def
      op_DEX_def op_DEY_def op_branch_def ac_Execute_BRANCH_def Let_def bind_eq_Some_conv
      dest!: cost_rules)

subsection \<open>The cost table\<close>

definition cost_1 :: "u8 list" where
  "cost_1 = [JSR, TSX, TXS, PLA, TAX, TAY, TXA, TYA, INX, INY, DEX, DEY, INC_ZP, INC_ZPX, DEC_ZP,
     DEC_ZPX, CLC, CLD, CLI, CLV, SEC, SED, SEI, NOP]"

definition cost_2 :: "u8 list" where
  "cost_2 = [LDA_ABS, LDX_ABS, LDY_ABS, STA_ABS, STA_ABSX, STA_ABSY, STX_ABS, STY_ABS, JMP_ABS, RTS, AND_ABS, ORA_ABS,
     EOR_ABS, BIT_ABS, ADC_ABS, SBC_ABS, CMP_ABS, CPX_ABS, CPY_ABS, ASL_ABS, LSR_ABS, LSR_ABSX, ROL_ABS,
     ROL_ABSX, ROR_ABS, ROR_ABSX]"

definition cost_3 :: "u8 list" where
  "cost_3 = [STA_INDY, INC_ABS, INC_ABSX, DEC_ABS, DEC_ABSX]"

definition opcode_cost :: "u8 \<Rightarrow> u32" where
  "opcode_cost inst =
     (if inst = RTI then 5 else if inst = JMP_IND then 4
      else if inst \<in> set cost_3 then 3 else if inst \<in> set cost_2 then 2
      else if inst \<in> set cost_1 then 1 else 0)"

lemmas cost_defs = opcode_cost_def cost_1_def cost_2_def cost_3_def

lemma opcode_cost_le: "opcode_cost inst \<le> 5"
  by (simp add: opcode_cost_def)

lemma group_cost: "g \<in> set case_groups \<Longrightarrow> list_all (\<lambda>(inst, h). spends (opcode_cost inst) h) g"
  using writer_cost(4,5) [OF mode_cost(1)] writer_cost(4,5) [OF mode_cost(2)]
    writer_cost(4,5) [OF mode_cost(4)] writer_cost(4,5) [OF mode_cost(6)]
  by (auto simp: case_groups_def case_defs cost_defs reader_cost rd_cost writer_cost(1-3)
      shift_cost shift_A_cost jump_cost register_cost)

lemma costed_opcodes: "insert RTI (insert JMP_IND (set (cost_1 @ cost_2 @ cost_3))) \<subseteq> fst ` set opcode_table"
  by (simp add: cost_defs table_defs)

lemma dispatch_cost: "spends (opcode_cost inst) (dispatch inst)"
proof (cases "map_of opcode_table inst")
  case None
  then have "opcode_cost inst = 0"
    using costed_opcodes unfolding map_of_eq_None_iff opcode_cost_def by auto
  with None show ?thesis by (simp add: spends_def dispatch_def)
next
  case (Some h)
  then have "(inst, h) \<in> set opcode_table" by (rule map_of_SomeD)
  then obtain g where "g \<in> set case_groups" and "(inst, h) \<in> set g"
    by (auto simp: opcode_table_def)
  with group_cost have "spends (opcode_cost inst) h"
    by (auto simp: list_all_iff)
  with Some show ?thesis by (simp add: spends_def dispatch_def)
qed

lemma step_cost:
  assumes "ac_Fetch m = Some (inst, m1)" and "ac_step m = Some m'"
  shows "cycle (cpu m') = cycle (cpu m) - opcode_cost inst"
  using assms dispatch_cost [of inst]
  by (auto simp: ac_step_def spends_def dest!: cost_rules)

lemma step_cost_le:
  assumes "ac_step m = Some m'"
  obtains k where "k \<le> 5" and "cycle (cpu m') = cycle (cpu m) - k"
proof -
  from assms obtain inst m1 where "ac_Fetch m = Some (inst, m1)"
    by (auto simp: ac_step_def bind_eq_Some_conv)
  from step_cost [OF this assms] opcode_cost_le that show ?thesis by blast
qed

subsection \<open>The value returned\<close>

lemma wrap_bound:
  assumes "0 < (c :: u32)" and "k \<le> 5" and "c < c - k"
  shows "0xFFFFFFFC \<le> c - k"
  using assms by (auto simp: word_le_nat_alt word_less_nat_alt unat_sub_if' split: if_splits)

lemma loop_leftover:
  assumes "ac_Run_loop m = Some (Some m')"
  shows "cycle (cpu m') = 0 \<or> 0xFFFFFFFC \<le> cycle (cpu m')"
proof -
  have "\<forall>m'. r = Some m' \<longrightarrow> cycle (cpu m') = 0 \<or> 0xFFFFFFFC \<le> cycle (cpu m')"
    if "ac_Run_loop m = Some r" for m r
  proof (rule ac_Run_loop.raw_induct
      [where P = "\<lambda>m r. \<forall>m'. r = Some m' \<longrightarrow> cycle (cpu m') = 0 \<or> 0xFFFFFFFC \<le> cycle (cpu m')",
       OF _ that], intro allI impI)
    fix run m r m'
    assume IH: "\<And>m r. run m = Some r \<Longrightarrow>
        \<forall>m'. r = Some m' \<longrightarrow> cycle (cpu m') = 0 \<or> 0xFFFFFFFC \<le> cycle (cpu m')"
      and eq: "(if cycle (cpu m) > 0
        then case ac_step m of
            None \<Rightarrow> Some None
          | Some m' \<Rightarrow> if cycle (cpu m) < cycle (cpu m') then Some (Some m') else run m'
        else Some (Some m)) = Some r"
      and r: "r = Some m'"
    show "cycle (cpu m') = 0 \<or> 0xFFFFFFFC \<le> cycle (cpu m')"
    proof (cases "cycle (cpu m) > 0")
      case False
      with eq r show ?thesis by (auto simp: word_gt_0)
    next
      case pos: True
      with eq r obtain m1 where m1: "ac_step m = Some m1" by (cases "ac_step m") auto
      then obtain k where k: "k \<le> 5" "cycle (cpu m1) = cycle (cpu m) - k" by (rule step_cost_le)
      show ?thesis
      proof (cases "cycle (cpu m) < cycle (cpu m1)")
        case True
        with eq r pos m1 k wrap_bound [OF pos k(1)] show ?thesis by auto
      next
        case False
        with eq r pos m1 IH show ?thesis by auto
      qed
    qed
  qed
  with assms show ?thesis by blast
qed

subsection \<open>Returning and not returning\<close>

lemma loop_returns:
  assumes step: "\<And>m m'. P m \<Longrightarrow> ac_step m = Some m' \<Longrightarrow> P m' \<and> cycle (cpu m') \<noteq> cycle (cpu m)"
    and "P m"
  shows "\<exists>r. ac_Run_loop m = Some r"
  using \<open>P m\<close>
proof (induction "unat (cycle (cpu m))" arbitrary: m rule: less_induct)
  case less
  show ?case
  proof (cases "cycle (cpu m) > 0 \<and> ac_step m \<noteq> None")
    case False
    then show ?thesis by (subst ac_Run_loop.simps) (auto split: option.split)
  next
    case True
    then obtain m' where m': "ac_step m = Some m'" by auto
    with step less.prems have P': "P m'" and ne: "cycle (cpu m') \<noteq> cycle (cpu m)" by auto
    show ?thesis
    proof (cases "cycle (cpu m) < cycle (cpu m')")
      case True
      with m' show ?thesis by (subst ac_Run_loop.simps) auto
    next
      case False
      with ne have "unat (cycle (cpu m')) < unat (cycle (cpu m))"
        by (simp add: word_less_nat_alt [symmetric] not_less le_neq_trans)
      from less.hyps [OF this P'] False m' show ?thesis
        by (subst ac_Run_loop.simps) auto
    qed
  qed
qed

lemma loop_hangs:
  assumes "cycle (cpu m) > 0" and "ac_step m = Some m"
  shows "ac_Run_loop m = None"
proof (rule ccontr)
  assume "ac_Run_loop m \<noteq> None"
  then obtain r where r: "ac_Run_loop m = Some r" by auto
  have "m \<noteq> m"
  proof (rule ac_Run_loop.raw_induct [where P = "\<lambda>x r. x \<noteq> m", OF _ r])
    fix run x r
    assume IH: "\<And>x r. run x = Some r \<Longrightarrow> x \<noteq> m"
      and eq: "(if cycle (cpu x) > 0
        then case ac_step x of
            None \<Rightarrow> Some None
          | Some m' \<Rightarrow> if cycle (cpu x) < cycle (cpu m') then Some (Some m') else run m'
        else Some (Some x)) = Some r"
    show "x \<noteq> m"
    proof
      assume "x = m"
      with eq assms have "run m = Some r" by simp
      then show False using IH by blast
    qed
  qed
  then show False by simp
qed

lemma branch_dispatch:
  "(inst, f, b) \<in> {(BCC, fC, False), (BCS, fC, True), (BEQ, fZ, True), (BNE, fZ, False),
     (BMI, fN, True), (BPL, fN, False), (BVC, fV, False), (BVS, fV, True)} \<Longrightarrow> dispatch inst = op_branch f b"
  by (elim insertE emptyE) (rule ext, simp add: dispatch_def table_defs)+

lemma branch_step:
  assumes "dispatch inst = op_branch f b" and "flag f m = b" and "unat (PC (cpu m)) + 1 < RAMSIZE"
    and "ram (mem m) (unat (PC (cpu m))) = inst" and "ram (mem m) (unat (PC (cpu m)) + 1) = 0xFE"
  shows "ac_step m = Some m"
proof -
  have pc: "unat (PC (cpu m) + 1) = unat (PC (cpu m)) + 1"
    using assms(3) by (simp add: unat_word_ariths size_defs)
  show ?thesis
    using assms pc by (simp add: ac_step_def ac_Fetch_def op_branch_def ac_Execute_BRANCH_def flag_def)
qed

subsection \<open>The switch and the header\<close>

lemma header_layout:
  "header_opcodes = map fst load_cases @ NOP # map fst (take 4 jump_stack_cases) @ map fst store_cases @
     map fst (drop 4 jump_stack_cases) @ map fst logic_cases @ map fst transfer_cases @
     map fst arith_cases @ map fst compare_cases @ map fst shift_cases @ BRK # RTI #
     BCC # BCS # BEQ # BMI # BNE # map fst (drop 5 branch_flag_cases)"
  by (simp add: header_opcodes_def case_defs)

lemma table_layout:
  "map fst opcode_table = map fst load_cases @ map fst store_cases @
     map fst (take 4 jump_stack_cases) @ map fst (drop 4 jump_stack_cases) @ map fst logic_cases @
     map fst transfer_cases @ map fst arith_cases @ map fst compare_cases @ map fst shift_cases @
     [BCC, BCS, BEQ, BNE, BMI] @ map fst (drop 5 branch_flag_cases) @ [BRK, RTI, NOP]"
proof -
  have b: "map fst branch_flag_cases = [BCC, BCS, BEQ, BNE, BMI] @ map fst (drop 5 branch_flag_cases)"
    by (simp add: branch_flag_cases_def)
  have j: "map fst jump_stack_cases = map fst (take 4 jump_stack_cases) @ map fst (drop 4 jump_stack_cases)"
    by (metis append_take_drop_id map_append)
  have i: "map fst interrupt_cases = [BRK, RTI, NOP]" by (simp add: interrupt_cases_def)
  show ?thesis
    unfolding opcode_table_def case_groups_def concat.simps map_append b i append_Nil2 by (subst j) simp
qed
subsection \<open>Properties\<close>

text \<open>
  The switch of \<^verbatim>\<open>ac_Run\<close> handles exactly the opcodes of the header, each once: its 151 case
  labels are distinct and are the \<^verbatim>\<open>#define\<close>s of \<^verbatim>\<open>AppleCpu.h\<close>.
\<close>

theorem opcode_table_matches_header:
  "length opcode_table = 151 \<and> distinct (map fst opcode_table) \<and>
   set (map fst opcode_table) = set header_opcodes"
proof -
  have "length opcode_table = 151" by (simp add: table_defs)
  moreover have "distinct (map fst opcode_table)" by (simp add: table_defs)
  moreover have "set (map fst opcode_table) = set header_opcodes"
    unfolding table_layout header_layout by auto
  ultimately show ?thesis by blast
qed

text \<open>
  C19. What an instruction costs is a table: every step of \<^verbatim>\<open>ac_Run\<close> that fetches opcode \<open>inst\<close> and ends lowers the
  budget by \<open>opcode_cost inst\<close>, between 0 and 5, whatever the operands are.  The eight opcodes of the mode \<^verbatim>\<open>($zp,X)\<close>
  never end: their store through the moved pointer leaves the variable \<^verbatim>\<open>cycle\<close>.
\<close>

theorem ac_step_spends:
  assumes "ac_Fetch m = Some (inst, m1)" and "ac_step m = Some m'"
  shows "cycle (cpu m') = cycle (cpu m) - opcode_cost inst \<and> opcode_cost inst \<le> 5 \<and>
    inst \<notin> {LDA_INDX, STA_INDX, AND_INDX, ORA_INDX, EOR_INDX, ADC_INDX, SBC_INDX, CMP_INDX}"
proof -
  have "inst \<notin> set indx_opcodes" using assms at_indx_faults [of m] by (auto simp: at_indx_def)
  then show ?thesis using step_cost [OF assms] opcode_cost_le by (auto simp: indx_opcodes_def)
qed

theorem ac_step_spends_witness:
  "opcode_cost JMP_ABS = 2 \<and> (\<exists>m'. ac_step (program [JMP_ABS, 0, 0]\<lparr>cpu := cpu machine_image\<lparr>cycle := 9\<rparr>\<rparr>) = Some m' \<and>
     cycle (cpu m') = 7)"
proof -
  have c: "opcode_cost JMP_ABS = 2" by (simp add: cost_defs)
  let ?m = "program [JMP_ABS, 0, 0]\<lparr>cpu := cpu machine_image\<lparr>cycle := 9\<rparr>\<rparr>"
  have "\<exists>m1. ac_Fetch ?m = Some (JMP_ABS, m1)" by (simp add: demo_defs)
  with ac_step_spends [OF _ jmp_step [of 9]] c show ?thesis using jmp_step [of 9] by auto
qed

text \<open>
  When \<^verbatim>\<open>ac_Run\<close> returns, the budget it leaves is 0 or has wrapped by at most four: the loop never
  stops early with budget to spare.
\<close>

theorem ac_Run_leftover:
  assumes "ac_Run n m = Some (Some m')"
  shows "cycle (cpu m') = 0 \<or> 0xFFFFFFFC \<le> cycle (cpu m')"
  using loop_leftover [OF assms [unfolded ac_Run_def]] .

theorem ac_Run_leftover_witness:
  "cycle (cpu (program [STA_ABS, 0x00, 0xD0]\<lparr>cpu := cpu machine_image\<lparr>PC := 4\<rparr>\<rparr>)) = 0 \<or>
   0xFFFFFFFC \<le> cycle (cpu (program [STA_ABS, 0x00, 0xD0]\<lparr>cpu := cpu machine_image\<lparr>PC := 4\<rparr>\<rparr>))"
  by (rule ac_Run_leftover [OF store_rom_run])

text \<open>
  \<^verbatim>\<open>ac_Run\<close> terminates on every program that keeps spending: if an invariant of the program holds
  at the start, is kept by each step, and each step from it changes the budget, then \<^verbatim>\<open>ac_Run\<close>
  returns for every budget.
\<close>

theorem ac_Run_returns:
  assumes "\<forall>m m'. P m \<and> ac_step m = Some m' \<longrightarrow> P m' \<and> cycle (cpu m') \<noteq> cycle (cpu m)"
    and "P (m\<lparr>cpu := cpu m\<lparr>cycle := n\<rparr>\<rparr>)"
  shows "\<exists>r. ac_Run n m = Some r"
  unfolding ac_Run_def using assms by (intro loop_returns [of P]) blast+

theorem ac_Run_returns_witness:
  "\<exists>r. ac_Run 1000000 (program [JMP_ABS, 0x00, 0x00]) = Some r"
proof -
  let ?P = "\<lambda>m. \<exists>c. m = program [JMP_ABS, 0x00, 0x00]\<lparr>cpu := cpu machine_image\<lparr>cycle := c\<rparr>\<rparr>"
  have "\<forall>m m'. ?P m \<and> ac_step m = Some m' \<longrightarrow> ?P m' \<and> cycle (cpu m') \<noteq> cycle (cpu m)"
    using jmp_step by auto
  then show ?thesis
    by (rule ac_Run_returns) (auto simp: demo_cpu)
qed

text \<open>
  C23. \<^verbatim>\<open>ac_Run\<close> does not return on a taken branch to itself: branches spend nothing, so when the program counter is at
  any of the eight branch opcodes in RAM, its operand is \<open>-2\<close> and its condition holds, no positive budget is ever used up,
  whatever else the machine holds.
\<close>

theorem ac_Run_hangs_on_branch:
  assumes "0 < n" and "unat (PC (cpu m)) + 1 < RAMSIZE"
    and "ram (mem m) (unat (PC (cpu m))) = inst" and "ram (mem m) (unat (PC (cpu m)) + 1) = 0xFE"
    and "(inst, f, b) \<in> {(BCC, fC, False), (BCS, fC, True), (BEQ, fZ, True), (BNE, fZ, False),
      (BMI, fN, True), (BPL, fN, False), (BVC, fV, False), (BVS, fV, True)}"
    and "flag f m = b"
  shows "ac_Run n m = None"
proof -
  let ?m = "m\<lparr>cpu := cpu m\<lparr>cycle := n\<rparr>\<rparr>"
  have "ac_step ?m = Some ?m"
    using branch_step [OF branch_dispatch [OF assms(5)], of ?m] assms by (simp add: flag_def)
  then show ?thesis unfolding ac_Run_def using assms(1) by (intro loop_hangs) simp_all
qed

text \<open>\<^verbatim>\<open>BNE *\<close> at address 4, with the zero flag clear.\<close>

theorem ac_Run_hangs_on_branch_witness:
  "ac_Run 5000 (program [0, 0, 0, 0, BNE, 0xFE]\<lparr>cpu := cpu machine_image\<lparr>PC := 4, PS := 0\<rparr>\<rparr>) = None"
  by (rule ac_Run_hangs_on_branch [of _ _ BNE fZ False])
     (simp_all add: program_def mem_image_def size_defs flag_def)

end
