(* ===== verification/Console.thy ===== *)
theory Console
  imports Prelude
begin

text \<open>
  \<^verbatim>\<open>Src/console.c\<close>: the text console on VGA memory, \<^verbatim>\<open>itoa\<close> and \<^verbatim>\<open>printf\<close>, over the port output of
  \<^verbatim>\<open>Src/low_level.c\<close>.  Writing a port appends to a trace.  VGA memory is a function from cell numbers
  to 16-bit cells; the code never checks a cell number, so what bounds it is a property below.
  A \<^verbatim>\<open>char\<close> is a byte whose sign matters in one place (\<^verbatim>\<open>ch > 0\<close>), and a C string is the list of its
  bytes before the terminating zero.
\<close>

type_synonym cstring = "u8 list"

definition cstr :: "string \<Rightarrow> cstring" where
  "cstr s = map of_char s"

record kio =
  ports :: "(u16 \<times> u8) list"

record console = kio +
  g_vga_buffer :: "nat \<Rightarrow> u16"
  g_vga_index :: u32
  cursor_pos_x :: u8
  cursor_pos_y :: u8
  g_fore_color :: u8
  g_back_color :: u8

definition VGA_TOTAL_ITEMS :: nat where "VGA_TOTAL_ITEMS = 2200"
definition VGA_WIDTH :: u32 where "VGA_WIDTH = 80"
definition VGA_HEIGHT :: u8 where "VGA_HEIGHT = 24"

subsection \<open>Cells, ports and cursor\<close>

definition port_byte_out :: "u16 \<Rightarrow> u8 \<Rightarrow> 'a kio_scheme \<Rightarrow> 'a kio_scheme" where
  "port_byte_out port data s = s\<lparr>ports := ports s @ [(port, data)]\<rparr>"

definition vga_item_entry :: "u8 \<Rightarrow> u8 \<Rightarrow> u8 \<Rightarrow> u16" where
  "vga_item_entry ch fore_color back_color =
     (let ah = push_bit 4 back_color OR fore_color;
          ax = push_bit 8 (ucast ah)
      in ax OR ucast ch)"

definition vga_set_cursor_pos :: "u8 \<Rightarrow> u8 \<Rightarrow> 'a kio_scheme \<Rightarrow> 'a kio_scheme" where
  "vga_set_cursor_pos x y s =
     (let cursorLocation = ucast y * 80 + ucast x :: u16;
          s = port_byte_out 0x3D4 14 s;
          s = port_byte_out 0x3D5 (ucast (drop_bit 8 cursorLocation)) s;
          s = port_byte_out 0x3D4 15 s
      in port_byte_out 0x3D5 (ucast cursorLocation) s)"

definition vga_disable_cursor :: "'a kio_scheme \<Rightarrow> 'a kio_scheme" where
  "vga_disable_cursor s = port_byte_out 0x3D5 32 (port_byte_out 0x3D4 10 s)"

text \<open>\<^verbatim>\<open>g_vga_buffer[i] = vga_item_entry(ch, g_fore_color, g_back_color)\<close>.\<close>

definition put_cell :: "nat \<Rightarrow> u8 \<Rightarrow> 'a console_scheme \<Rightarrow> 'a console_scheme" where
  "put_cell i ch s = s\<lparr>g_vga_buffer :=
     (g_vga_buffer s)(i := vga_item_entry ch (g_fore_color s) (g_back_color s))\<rparr>"

text \<open>The same followed by \<^verbatim>\<open>g_vga_index++\<close>.\<close>

definition emit :: "u8 \<Rightarrow> 'a console_scheme \<Rightarrow> 'a console_scheme" where
  "emit ch s = (put_cell (unat (g_vga_index s)) ch s)\<lparr>g_vga_index := g_vga_index s + 1\<rparr>"

primrec clear_cells :: "nat \<Rightarrow> u16 \<Rightarrow> (nat \<Rightarrow> u16) \<Rightarrow> nat \<Rightarrow> u16" where
  "clear_cells 0 v f = f"
| "clear_cells (Suc n) v f = (clear_cells n v f)(n := v)"

definition console_clear :: "u8 \<Rightarrow> u8 \<Rightarrow> 'a console_scheme \<Rightarrow> 'a console_scheme" where
  "console_clear fore_color back_color s =
     (let s = s\<lparr>g_vga_buffer := clear_cells VGA_TOTAL_ITEMS (vga_item_entry 0 fore_color back_color)
                  (g_vga_buffer s)\<rparr>;
          s = s\<lparr>g_vga_index := 0, cursor_pos_x := 0, cursor_pos_y := 0\<rparr>
      in vga_set_cursor_pos (cursor_pos_x s) (cursor_pos_y s) s)"

definition console_init :: "u8 \<Rightarrow> u8 \<Rightarrow> 'a console_scheme \<Rightarrow> 'a console_scheme" where
  "console_init fore_color back_color s =
     console_clear fore_color back_color
       (s\<lparr>g_fore_color := fore_color, g_back_color := back_color, cursor_pos_x := 0, cursor_pos_y := 0\<rparr>)"

definition console_newline :: "'a console_scheme \<Rightarrow> 'a console_scheme" where
  "console_newline s =
     (if cursor_pos_y s \<ge> VGA_HEIGHT then
        console_clear (g_fore_color s) (g_back_color s) (s\<lparr>cursor_pos_x := 0, cursor_pos_y := 0\<rparr>)
      else
        let s = s\<lparr>g_vga_index := g_vga_index s + (VGA_WIDTH - g_vga_index s mod VGA_WIDTH),
                  cursor_pos_x := 0, cursor_pos_y := cursor_pos_y s + 1\<rparr>
        in vga_set_cursor_pos (cursor_pos_x s) (cursor_pos_y s) s)"

text \<open>\<^verbatim>\<open>vga_set_cursor_pos(cursor_pos_x++, y)\<close> passes the old column, \<^verbatim>\<open>++cursor_pos_x\<close> the new one.\<close>

definition emit_blank :: "'a console_scheme \<Rightarrow> 'a console_scheme" where
  "emit_blank s =
     (let s = emit 32 s
      in vga_set_cursor_pos (cursor_pos_x s) (cursor_pos_y s) (s\<lparr>cursor_pos_x := cursor_pos_x s + 1\<rparr>))"

definition console_putchar :: "u8 \<Rightarrow> 'a console_scheme \<Rightarrow> 'a console_scheme" where
  "console_putchar ch s =
     (let s = (if ch = 32 then emit_blank s else s) in
      if ch = 9 then emit_blank (emit_blank (emit_blank (emit_blank s)))
      else if ch = 10 then console_newline s
      else if sint ch > 0 then
        let s = emit ch s; s = s\<lparr>cursor_pos_x := cursor_pos_x s + 1\<rparr>
        in vga_set_cursor_pos (cursor_pos_x s) (cursor_pos_y s) s
      else s)"

text \<open>The common part of \<^verbatim>\<open>console_ungetchar\<close> and \<^verbatim>\<open>console_ungetchar_bound\<close>, which differ in their two
  conditions.\<close>

definition unget :: "bool \<Rightarrow> 'a console_scheme \<Rightarrow> 'a console_scheme" where
  "unget in_line s =
     (let s = (put_cell (unat (g_vga_index s)) 0 s)\<lparr>g_vga_index := g_vga_index s - 1\<rparr> in
      if in_line then
        vga_set_cursor_pos (cursor_pos_x s) (cursor_pos_y s) (s\<lparr>cursor_pos_x := cursor_pos_x s - 1\<rparr>)
      else
        let s = s\<lparr>cursor_pos_x := ucast VGA_WIDTH\<rparr> in
        if cursor_pos_y s > 0 then
          vga_set_cursor_pos (cursor_pos_x s) (cursor_pos_y s - 1)
            (s\<lparr>cursor_pos_x := cursor_pos_x s - 1, cursor_pos_y := cursor_pos_y s - 1\<rparr>)
        else s\<lparr>cursor_pos_y := 0\<rparr>)"

definition console_ungetchar :: "'a console_scheme \<Rightarrow> 'a console_scheme" where
  "console_ungetchar s =
     (let s = (if g_vga_index s > 0 then unget (cursor_pos_x s > 0) s else s)
      in put_cell (unat (g_vga_index s)) 0 s)"

definition console_ungetchar_bound :: "u8 \<Rightarrow> 'a console_scheme \<Rightarrow> 'a console_scheme" where
  "console_ungetchar_bound n s =
     (let s = (if g_vga_index s mod VGA_WIDTH > ucast n \<and> n > 0 then unget (cursor_pos_x s \<ge> n) s else s)
      in put_cell (unat (g_vga_index s)) 0 s)"

definition console_gotoxy :: "u16 \<Rightarrow> u16 \<Rightarrow> 'a console_scheme \<Rightarrow> 'a console_scheme" where
  "console_gotoxy x y s =
     (let s = s\<lparr>g_vga_index := 80 * ucast y + ucast x, cursor_pos_x := ucast x, cursor_pos_y := ucast y\<rparr>
      in vga_set_cursor_pos (cursor_pos_x s) (cursor_pos_y s) s)"

fun console_putstr :: "cstring \<Rightarrow> 'a console_scheme \<Rightarrow> 'a console_scheme" where
  "console_putstr [] s = s"
| "console_putstr (c # cs) s =
     console_putstr cs (if c = 10 then console_newline s else console_putchar c s)"

subsection \<open>Numbers\<close>

text \<open>\<^verbatim>\<open>digit_count\<close> takes a signed number; for a negative one its loop does not run.\<close>

function count_digits :: "int \<Rightarrow> u32 \<Rightarrow> u32" where
  "count_digits num count = (if num > 0 then count_digits (num div 10) (count + 1) else count)"
  by auto
termination by (relation "measure (nat \<circ> fst)") auto

declare count_digits.simps [simp del]

definition digit_count :: "u32 \<Rightarrow> u32" where
  "digit_count num = (if num = 0 then 1 else count_digits (sint num) 0)"

definition digit_char :: "u32 \<Rightarrow> u8" where
  "digit_char remainder = (if remainder < 10 then ucast remainder + 48 else ucast remainder + 97 - 10)"

text \<open>The \<^verbatim>\<open>do\<close> loop of \<^verbatim>\<open>itoa\<close>: it stores the digits, lowest first.\<close>

function itoa_digits :: "u32 \<Rightarrow> u32 \<Rightarrow> cstring" where
  "itoa_digits ud divisor =
     (let c = digit_char (ud mod divisor); ud' = ud div divisor
      in if divisor \<le> 1 \<or> ud' = 0 then [c] else c # itoa_digits ud' divisor)"
  by auto
termination
proof (relation "measure (unat \<circ> fst)")
  fix ud divisor x ud' :: u32
  assume "\<not> (divisor \<le> 1 \<or> ud' = 0)" and d: "ud' = ud div divisor"
  then have "unat divisor \<ge> 2" "unat ud \<noteq> 0"
    by (auto simp: word_le_nat_alt unat_eq_0)
  then have "unat ud div unat divisor < unat ud" by simp
  then show "((ud', divisor), ud, divisor) \<in> measure (unat \<circ> fst)"
    by (simp add: d unat_div)
qed simp

declare itoa_digits.simps [simp del]

text \<open>The \<^verbatim>\<open>while (p1 < p2)\<close> loop: exchange from both ends of \<open>xs\<close> inwards.\<close>

function swap_ends :: "nat \<Rightarrow> nat \<Rightarrow> cstring \<Rightarrow> cstring" where
  "swap_ends p1 p2 xs =
     (if p1 < p2 then swap_ends (p1 + 1) (p2 - 1) (xs[p1 := xs ! p2, p2 := xs ! p1]) else xs)"
  by auto
termination by (relation "measure (\<lambda>(p1, p2, xs). p2 - p1)") auto

declare swap_ends.simps [simp del]

definition itoa :: "u8 \<Rightarrow> u32 \<Rightarrow> cstring" where
  "itoa base d =
     (let neg = (base = 100 \<and> sint d < 0);
          ud = (if neg then - d else d);
          divisor = (if \<not> neg \<and> base = 120 then 16 else 10);
          xs = itoa_digits ud divisor
      in (if neg then [45] else []) @ swap_ends 0 (length xs - 1) xs)"

subsection \<open>Formatted output\<close>

text \<open>One directive after \<^verbatim>\<open>%\<close>: the zero flag, one width digit, the conversion, and the rest of the
  format.  A format that ends inside a directive makes the code read past its end: \<open>None\<close>.\<close>

fun next_char :: "cstring \<Rightarrow> (u8 \<times> cstring) option" where
  "next_char [] = None"
| "next_char (c # cs) = Some (c, cs)"

definition directive :: "cstring \<Rightarrow> (bool \<times> nat \<times> u8 \<times> cstring) option" where
  "directive cs = do {
     (c, cs) \<leftarrow> next_char cs;
     let pad0 = (c = 48);
     (c, cs) \<leftarrow> (if pad0 then next_char cs else Some (c, cs));
     let digit = (48 \<le> c \<and> c \<le> 57);
     (c', cs) \<leftarrow> (if digit then next_char cs else Some (c, cs));
     Some (pad0, if digit then unat (c - 48) else 0, c', cs) }"

definition put_all :: "cstring \<Rightarrow> 'a console_scheme \<Rightarrow> 'a console_scheme" where
  "put_all cs s = fold console_putchar cs s"

definition put_padded :: "bool \<Rightarrow> nat \<Rightarrow> cstring \<Rightarrow> 'a console_scheme \<Rightarrow> 'a console_scheme" where
  "put_padded pad0 pad p s =
     put_all p (put_all (replicate (pad - length p) (if pad0 then 48 else 32)) s)"

lemma next_char_shorter: "next_char cs = Some (c, rest) \<Longrightarrow> length rest < length cs"
  by (cases cs) auto

lemma directive_shorter: "directive cs = Some (z, w, c, rest) \<Longrightarrow> length rest < length cs"
  by (auto simp: directive_def bind_eq_Some_conv Let_def dest!: next_char_shorter split: if_splits)

text \<open>\<^verbatim>\<open>printf\<close>: \<open>arg k\<close> is the \<open>k\<close>-th argument word on the stack, \<open>str\<close> reads the string at an address.\<close>

function printf :: "(u32 \<Rightarrow> cstring) \<Rightarrow> cstring \<Rightarrow> (nat \<Rightarrow> u32) \<Rightarrow> 'a console_scheme \<Rightarrow>
    'a console_scheme option" where
  "printf str [] arg s = Some s"
| "printf str (c # cs) arg s =
     (if c \<noteq> 37 then printf str cs arg (console_putchar c s)
      else case directive cs of
          None \<Rightarrow> None
        | Some (pad0, pad, conv, rest) \<Rightarrow>
            printf str rest (\<lambda>k. arg (Suc k))
              (if conv = 100 \<or> conv = 117 \<or> conv = 120 then put_padded pad0 pad (itoa conv (arg 0)) s
               else if conv = 115 then
                 put_padded pad0 pad (if arg 0 = 0 then cstr ''(null)'' else str (arg 0)) s
               else console_putchar (ucast (arg 0)) s))"
  by pat_completeness auto
termination
  by (relation "measure (\<lambda>(str, cs, arg, s). length cs)")
     (auto dest!: directive_shorter)

definition putchar :: "u8 \<Rightarrow> 'a console_scheme \<Rightarrow> 'a console_scheme" where
  "putchar c s = console_putchar c s"

definition puts :: "(u32 \<Rightarrow> cstring) \<Rightarrow> u32 \<Rightarrow> 'a console_scheme \<Rightarrow> (int \<times> 'a console_scheme) option" where
  "puts str p s = do { s \<leftarrow> printf str (cstr ''%s'' @ [10]) (\<lambda>k. p) s; Some (1, s) }"

text \<open>What \<^verbatim>\<open>panic\<close> prints before it halts the machine.\<close>

definition panic :: "(u32 \<Rightarrow> cstring) \<Rightarrow> u32 \<Rightarrow> u32 \<Rightarrow> 'a console_scheme \<Rightarrow> 'a console_scheme option" where
  "panic str func line s = do {
     s \<leftarrow> (if func \<noteq> 0 then printf str (cstr ''[%s:%d] '') (\<lambda>k. if k = 0 then func else line) s else Some s);
     printf str (cstr ''kernel panic: '') (\<lambda>k. 0) s }"

subsection \<open>Reading numbers back\<close>

definition digit_value :: "u8 \<Rightarrow> nat" where
  "digit_value c = (if c < 58 then unat c - 48 else unat c - 87)"

definition nat_of_digits :: "nat \<Rightarrow> cstring \<Rightarrow> nat" where
  "nat_of_digits b cs = foldl (\<lambda>n c. n * b + digit_value c) 0 cs"

fun int_of_decimal :: "cstring \<Rightarrow> int" where
  "int_of_decimal [] = 0"
| "int_of_decimal (c # cs) = (if c = 45 then - int (nat_of_digits 10 cs) else int (nat_of_digits 10 (c # cs)))"

lemma length_swap_ends [simp]: "length (swap_ends p1 p2 xs) = length xs"
  by (induction p1 p2 xs rule: swap_ends.induct) (simp add: swap_ends.simps)

lemma nth_swap_ends:
  "p2 < length xs \<Longrightarrow> i < length xs \<Longrightarrow>
     swap_ends p1 p2 xs ! i = (if p1 \<le> i \<and> i \<le> p2 then xs ! (p1 + p2 - i) else xs ! i)"
proof (induction p1 p2 xs rule: swap_ends.induct)
  case (1 p1 p2 xs)
  show ?case
  proof (cases "p1 < p2")
    case True
    have "swap_ends p1 p2 xs ! i = swap_ends (p1 + 1) (p2 - 1) (xs[p1 := xs ! p2, p2 := xs ! p1]) ! i"
      using True by (subst swap_ends.simps) simp
    also have "\<dots> = (if p1 \<le> i \<and> i \<le> p2 then xs ! (p1 + p2 - i) else xs ! i)"
      using True "1.prems" by (subst "1.IH") (auto simp: nth_list_update)
    finally show ?thesis .
  next
    case False
    then have "swap_ends p1 p2 xs = xs" by (subst swap_ends.simps) simp
    moreover have "p1 \<le> i \<and> i \<le> p2 \<Longrightarrow> p1 + p2 - i = i" using False by linarith
    ultimately show ?thesis by auto
  qed
qed

lemma swap_ends_rev: "xs \<noteq> [] \<Longrightarrow> swap_ends 0 (length xs - 1) xs = rev xs"
  by (rule nth_equalityI) (auto simp: nth_swap_ends rev_nth)

lemma digit_char_bound:
  assumes "unat r < 16"
  shows "unat (digit_char r) = (if unat r < 10 then unat r + 48 else unat r + 87)"
proof -
  have "unat r < 16" "unat (ucast r + 48 :: u8) = (unat r + 48) mod 256"
    "unat (ucast r + 97 - 10 :: u8) = (unat r + 87) mod 256"
    using assms by (simp_all add: unat_word_ariths unsigned_ucast_eq take_bit_eq_mod mod_simps)
  then show ?thesis by (simp add: digit_char_def word_less_nat_alt)
qed

lemma digit_char_value:
  assumes "unat r < 16"
  shows "digit_value (digit_char r) = unat r" "digit_char r \<noteq> 45" "digit_char r \<noteq> 0"
proof -
  note b = digit_char_bound[OF assms]
  show "digit_value (digit_char r) = unat r"
    using b assms by (simp add: digit_value_def word_less_nat_alt)
  show "digit_char r \<noteq> 45" "digit_char r \<noteq> 0"
    using b by (auto split: if_splits)
qed

lemma nat_of_digits_snoc: "nat_of_digits b (cs @ [c]) = nat_of_digits b cs * b + digit_value c"
  by (simp add: nat_of_digits_def)

lemma itoa_digits_not_Nil [simp]: "itoa_digits ud b \<noteq> []"
  by (subst itoa_digits.simps) (simp add: Let_def)

lemma itoa_digits_rev:
  assumes "2 \<le> unat b" "unat b \<le> 16"
  shows "nat_of_digits (unat b) (rev (itoa_digits ud b)) = unat ud \<and>
         set (itoa_digits ud b) \<inter> {0, 45} = {} \<and>
         unat b ^ (length (itoa_digits ud b) - 1) \<le> max 1 (unat ud)"
  using assms
proof (induction ud b rule: itoa_digits.induct)
  case (1 ud b)
  have r: "unat (ud mod b) < 16" "\<not> b \<le> 1"
    using "1.prems" by (auto simp: unat_mod word_le_nat_alt intro: less_le_trans[OF mod_less_divisor])
  show ?case
  proof (cases "ud div b = 0")
    case True
    then have "unat ud div unat b = 0" by (metis unat_0 unat_div)
    then have "unat ud < unat b" using "1.prems" by (simp add: div_eq_0_iff)
    with True r show ?thesis
      by (subst (1 2 3) itoa_digits.simps)
         (auto simp: Let_def nat_of_digits_def digit_char_value unat_mod)
  next
    case False
    let ?ds = "itoa_digits (ud div b) b"
    have eq: "itoa_digits ud b = digit_char (ud mod b) # ?ds"
      using False r by (subst itoa_digits.simps) (simp add: Let_def)
    have IH: "nat_of_digits (unat b) (rev ?ds) = unat (ud div b)" "set ?ds \<inter> {0, 45} = {}"
      "unat b ^ (length ?ds - 1) \<le> max 1 (unat (ud div b))"
      using "1.IH"[OF refl refl] False r "1.prems" by auto
    have "unat (ud div b) \<noteq> 0" using False by (simp add: unat_eq_0)
    then have "unat b * unat b ^ (length ?ds - 1) \<le> unat b * (unat ud div unat b)"
      using IH(3) by (simp add: unat_div)
    also have "\<dots> \<le> unat ud" by simp
    finally have "unat b ^ length ?ds \<le> unat ud"
      by (cases ?ds) simp_all
    with IH(1,2) r show ?thesis
      by (simp add: eq nat_of_digits_snoc digit_char_value unat_div unat_mod)
  qed
qed

lemma power_log_bound: "(b :: nat) ^ k \<le> n \<Longrightarrow> n < b ^ Suc m \<Longrightarrow> 1 < b \<Longrightarrow> k \<le> m"
  by (metis le_less_trans less_Suc_eq_le power_less_imp_less_exp)

lemma length_itoa_digits:
  assumes "10 \<le> unat b" "unat b \<le> 16"
  shows "length (itoa_digits ud b) \<le> 10"
proof -
  have "unat b ^ (length (itoa_digits ud b) - 1) \<le> max 1 (unat ud)"
    using itoa_digits_rev[of b ud] assms by simp
  moreover have "max 1 (unat ud) < unat b ^ Suc 9"
  proof (rule less_le_trans)
    show "max 1 (unat ud) < 10 ^ Suc 9" by (rule less_trans[of _ 4294967296]) simp_all
    show "10 ^ Suc 9 \<le> unat b ^ Suc 9" using assms(1) by (rule power_mono) simp
  qed
  ultimately have "length (itoa_digits ud b) - 1 \<le> 9"
    using assms(1) by - (rule power_log_bound, assumption+, linarith)
  then show ?thesis by simp
qed

lemma itoa_rev:
  "itoa base d = (let neg = (base = 100 \<and> sint d < 0)
     in (if neg then [45] else []) @
        rev (itoa_digits (if neg then - d else d) (if \<not> neg \<and> base = 120 then 16 else 10)))"
  unfolding itoa_def Let_def by (simp only: swap_ends_rev[OF itoa_digits_not_Nil])

lemma unat_neg_u32:
  fixes d :: u32
  assumes "sint d < 0"
  shows "int (unat (- d)) = - sint d"
proof -
  have "uint d < 4294967296" "uint d \<noteq> 0" "sint d = uint d - 4294967296"
    using assms unat_u32_lt[of d] by (auto simp: sint_u32 uint_nat simp del: of_nat_unat split: if_splits)
  moreover have "uint (- d) = - uint d mod 4294967296" by (simp add: uint_word_ariths)
  ultimately show ?thesis by (simp add: zmod_zminus1_eq_if)
qed

text \<open>C37. The text \<^verbatim>\<open>itoa\<close> leaves in the buffer reads back as the number it was given: with \<^verbatim>\<open>'d'\<close> as the
  signed number, \<^verbatim>\<open>INT_MIN\<close> included, with \<^verbatim>\<open>'u'\<close> and \<^verbatim>\<open>'x'\<close> as the unsigned one in decimal and hexadecimal.
  For every base letter it has no zero byte and at most 11 bytes, so it fits the 32-byte buffer of
  \<^verbatim>\<open>printf\<close> with its terminator.\<close>

theorem itoa_roundtrip:
  "int_of_decimal (itoa 100 d) = sint d \<and>
   nat_of_digits 10 (itoa 117 d) = unat d \<and>
   nat_of_digits 16 (itoa 120 d) = unat d \<and>
   length (itoa base d) \<le> 11 \<and> 0 \<notin> set (itoa base d)"
proof (intro conjI)
  have dec: "nat_of_digits 10 (rev (itoa_digits ud 10)) = unat ud" "set (itoa_digits ud 10) \<inter> {0, 45} = {}"
    and hex: "nat_of_digits 16 (rev (itoa_digits ud 16)) = unat ud" "set (itoa_digits ud 16) \<inter> {0, 45} = {}"
    and len: "length (itoa_digits ud 10) \<le> 10" "length (itoa_digits ud 16) \<le> 10" for ud :: u32
    using itoa_digits_rev[of 10 ud] itoa_digits_rev[of 16 ud]
      length_itoa_digits[of 10 ud] length_itoa_digits[of 16 ud] by simp_all
  show "int_of_decimal (itoa 100 d) = sint d"
  proof (cases "sint d < 0")
    case True
    then show ?thesis by (simp add: itoa_rev dec unat_neg_u32 del: of_nat_unat)
  next
    case False
    obtain c cs where c: "rev (itoa_digits d 10) = c # cs"
      by (cases "rev (itoa_digits d 10)") simp_all
    then have "c \<noteq> 45" using dec(2)[of d] by (metis (no_types) disjoint_iff insertI1 insert_iff list.set(2) set_rev)
    moreover have "sint d = int (unat d)"
      using False unat_u32_lt[of d] by (simp add: sint_u32 del: of_nat_unat split: if_splits)
    ultimately show ?thesis using False dec(1)[of d] c by (simp add: itoa_rev)
  qed
  show "nat_of_digits 10 (itoa 117 d) = unat d" "nat_of_digits 16 (itoa 120 d) = unat d"
    by (simp_all add: itoa_rev dec hex)
  show "length (itoa base d) \<le> 11"
    using len[of d] len[of "- d"] by (simp add: itoa_rev Let_def)
  show "0 \<notin> set (itoa base d)"
    using dec(2)[of d] dec(2)[of "- d"] hex(2)[of d] by (auto simp: itoa_rev Let_def)
qed

end
