(* ===== verification/Console_Text.thy ===== *)
theory Console_Text
  imports Console
begin

text \<open>
  What the console of \<^verbatim>\<open>Src/console.c\<close> does with text.  \<^verbatim>\<open>printf\<close> is shown to be a pure formatter followed
  by character output; \<^verbatim>\<open>console_putstr\<close> is shown to lay out lines that fit the 80 columns, and to leave
  the screen, or its own cursor, behind on lines that do not.
\<close>

subsection \<open>Formatting as a function\<close>

datatype piece = Lit u8 | Conv bool nat u8

function pieces :: "cstring \<Rightarrow> piece list option" where
  "pieces [] = Some []"
| "pieces (c # cs) =
     (if c \<noteq> 37 then map_option (Cons (Lit c)) (pieces cs)
      else case directive cs of
          None \<Rightarrow> None
        | Some (z, w, conv, rest) \<Rightarrow> map_option (Cons (Conv z w conv)) (pieces rest))"
  by pat_completeness auto
termination
  by (relation "measure length") (auto dest!: directive_shorter)

definition pad_left :: "bool \<Rightarrow> nat \<Rightarrow> cstring \<Rightarrow> cstring" where
  "pad_left z w p = replicate (w - length p) (if z then 48 else 32) @ p"

definition convert :: "(u32 \<Rightarrow> cstring) \<Rightarrow> bool \<Rightarrow> nat \<Rightarrow> u8 \<Rightarrow> u32 \<Rightarrow> cstring" where
  "convert str z w conv a =
     (if conv \<in> {100, 117, 120} then pad_left z w (itoa conv a)
      else if conv = 115 then pad_left z w (if a = 0 then cstr ''(null)'' else str a)
      else [ucast a])"

fun render :: "(u32 \<Rightarrow> cstring) \<Rightarrow> piece list \<Rightarrow> (nat \<Rightarrow> u32) \<Rightarrow> cstring" where
  "render str [] arg = []"
| "render str (Lit c # ps) arg = c # render str ps arg"
| "render str (Conv z w conv # ps) arg = convert str z w conv (arg 0) @ render str ps (\<lambda>k. arg (Suc k))"

lemma put_all_append: "put_all (xs @ ys) s = put_all ys (put_all xs s)"
  by (simp add: put_all_def)

lemma put_all_Cons: "put_all (c # cs) s = put_all cs (console_putchar c s)"
  by (simp add: put_all_def)

lemma put_convert:
  "put_all (convert str z w conv a) s =
     (if conv = 100 \<or> conv = 117 \<or> conv = 120 then put_padded z w (itoa conv a) s
      else if conv = 115 then put_padded z w (if a = 0 then cstr ''(null)'' else str a) s
      else console_putchar (ucast a) s)"
  by (simp add: convert_def pad_left_def put_padded_def put_all_append) (simp add: put_all_def)

lemma printf_pieces:
  "printf str fmt arg s = map_option (\<lambda>ps. put_all (render str ps arg) s) (pieces fmt)"
proof (induction str fmt arg s rule: printf.induct)
  case (1 str arg s)
  show ?case by (simp add: put_all_def)
next
  case (2 str c cs arg s)
  show ?case
  proof (cases "c = 37")
    case False
    then show ?thesis using "2.IH"(1) by (simp add: option.map_comp comp_def put_all_Cons)
  next
    case True
    show ?thesis
    proof (cases "directive cs")
      case None
      with True show ?thesis by simp
    next
      case (Some d)
      obtain z w conv rest where d: "d = (z, w, conv, rest)" by (cases d)
      show ?thesis
        using True Some "2.IH"(2)[OF _ Some[unfolded d] refl refl refl]
        by (simp add: d option.map_comp comp_def put_all_append put_convert)
    qed
  qed
qed

text \<open>C38. \<^verbatim>\<open>printf\<close> is a formatter followed by output: it parses the format into literal bytes and
  conversions, each conversion consumes exactly one argument word, and what reaches the console is
  \<^verbatim>\<open>console_putchar\<close> applied to the bytes of the rendered text in order.  It has no result exactly for
  a format that ends inside a directive.\<close>

theorem printf_renders:
  "printf str fmt arg s = map_option (\<lambda>ps. put_all (render str ps arg) s) (pieces fmt)"
  by (rule printf_pieces)

subsection \<open>Cells a character fills\<close>

definition glyphs :: "u8 \<Rightarrow> cstring" where
  "glyphs c = (if c = 32 then [32, 32] else if c = 9 then [32, 32, 32, 32]
               else if c = 10 \<or> sint c \<le> 0 then [] else [c])"

definition attr :: "'a console_scheme \<Rightarrow> u8 \<Rightarrow> u16" where
  "attr s c = vga_item_entry c (g_fore_color s) (g_back_color s)"

fun put_from :: "nat \<Rightarrow> u16 list \<Rightarrow> (nat \<Rightarrow> u16) \<Rightarrow> nat \<Rightarrow> u16" where
  "put_from i [] f = f"
| "put_from i (v # vs) f = put_from (Suc i) vs (f(i := v))"

lemma put_from_append: "put_from i (xs @ ys) f = put_from (i + length xs) ys (put_from i xs f)"
  by (induction xs arbitrary: i f) auto

lemma put_from_nth:
  "put_from i xs f k = (if i \<le> k \<and> k < i + length xs then xs ! (k - i) else f k)"
proof (induction xs arbitrary: i f)
  case (Cons v xs)
  show ?case by (auto simp: Cons.IH nth_Cons')
qed auto

text \<open>\<open>advance gs s s'\<close>: from \<open>s\<close> to \<open>s'\<close> the console wrote the glyphs \<open>gs\<close> at the index and moved
  index and column by their number.\<close>

definition advance :: "cstring \<Rightarrow> 'a console_scheme \<Rightarrow> 'a console_scheme \<Rightarrow> bool" where
  "advance gs s s' \<longleftrightarrow>
     g_vga_index s' = g_vga_index s + of_nat (length gs) \<and>
     cursor_pos_x s' = cursor_pos_x s + of_nat (length gs) \<and> cursor_pos_y s' = cursor_pos_y s \<and>
     g_fore_color s' = g_fore_color s \<and> g_back_color s' = g_back_color s \<and>
     (unat (g_vga_index s) + length gs \<le> 2 ^ 32 \<longrightarrow>
        g_vga_buffer s' = put_from (unat (g_vga_index s)) (map (attr s) gs) (g_vga_buffer s))"

lemma advance_Nil [simp]: "advance [] s s"
  by (simp add: advance_def)

lemma unat_plus_of_nat:
  "unat w + n < 4294967296 \<Longrightarrow> unat (w + of_nat n) = unat w + n" for w :: u32
  by (simp add: unat_word_ariths unat_of_nat take_bit_eq_mod)

lemma advance_trans:
  assumes "advance gs s t" "advance hs t u"
  shows "advance (gs @ hs) s u"
proof -
  let ?i = "g_vga_index s"
  have st: "g_vga_index t = ?i + of_nat (length gs)" "cursor_pos_x t = cursor_pos_x s + of_nat (length gs)"
    "cursor_pos_y t = cursor_pos_y s" "g_fore_color t = g_fore_color s" "g_back_color t = g_back_color s"
    "unat ?i + length gs \<le> 2 ^ 32 \<longrightarrow> g_vga_buffer t = put_from (unat ?i) (map (attr s) gs) (g_vga_buffer s)"
    using assms(1) unfolding advance_def by blast+
  have a: "attr t = attr s" by (rule ext) (simp add: attr_def st)
  have "g_vga_buffer u = put_from (unat ?i) (map (attr s) (gs @ hs)) (g_vga_buffer s)"
    if l: "unat ?i + length (gs @ hs) \<le> 2 ^ 32"
  proof (cases "hs = []")
    case True
    then show ?thesis using assms(2) st(6) l unat_u32_lt[of "g_vga_index t"] unfolding advance_def by simp
  next
    case False
    then have i: "unat (g_vga_index t) = unat ?i + length gs"
      using l unfolding st(1) by (intro unat_plus_of_nat) (cases hs; simp)
    then show ?thesis using assms(2) st(6) l unfolding advance_def by (simp add: put_from_append a)
  qed
  then show ?thesis using assms(2) unfolding advance_def by (simp add: st algebra_simps)
qed

lemma cursor_fields [simp]:
  "g_vga_index (vga_set_cursor_pos x y s) = g_vga_index s"
  "g_vga_buffer (vga_set_cursor_pos x y s) = g_vga_buffer s"
  "cursor_pos_x (vga_set_cursor_pos x y s) = cursor_pos_x s"
  "cursor_pos_y (vga_set_cursor_pos x y s) = cursor_pos_y s"
  "g_fore_color (vga_set_cursor_pos x y s) = g_fore_color s"
  "g_back_color (vga_set_cursor_pos x y s) = g_back_color s"
  by (simp_all add: vga_set_cursor_pos_def port_byte_out_def Let_def)

lemma advance_blank: "advance [32] s (emit_blank s)"
  by (simp add: advance_def emit_blank_def emit_def put_cell_def attr_def)

lemma advance_putchar:
  assumes "c \<noteq> 10"
  shows "advance (glyphs c) s (console_putchar c s)"
proof -
  have one: "advance [c] s (console_putchar c s)" if "sint c > 0" "c \<noteq> 32" "c \<noteq> 9" for s :: "'a console_scheme"
    using that assms by (simp add: console_putchar_def advance_def emit_def put_cell_def attr_def Let_def)
  consider "c = 32" | "c = 9" | "c \<noteq> 32" "c \<noteq> 9" "sint c > 0" | "c \<noteq> 32" "c \<noteq> 9" "sint c \<le> 0"
    by linarith
  then show ?thesis
  proof cases
    case 1
    have "advance [32] (emit_blank s) (console_putchar 32 s)"
      by (simp add: console_putchar_def advance_def emit_def put_cell_def attr_def Let_def)
    with advance_trans[OF advance_blank this] 1 show ?thesis by (simp add: glyphs_def)
  next
    case 2
    note b = advance_blank advance_trans[OF advance_blank]
    have "advance ([32] @ [32] @ [32] @ [32]) s (emit_blank (emit_blank (emit_blank (emit_blank s))))"
      by (intro b)
    with 2 show ?thesis by (simp add: glyphs_def console_putchar_def)
  next
    case 3
    with one assms show ?thesis by (simp add: glyphs_def)
  next
    case 4
    with assms show ?thesis by (simp add: glyphs_def console_putchar_def)
  qed
qed

lemma advance_putstr:
  "10 \<notin> set cs \<Longrightarrow> advance (concat (map glyphs cs)) s (console_putstr cs s)"
proof (induction cs arbitrary: s)
  case (Cons c cs)
  then have "advance (concat (map glyphs cs)) (console_putchar c s) (console_putstr cs (console_putchar c s))"
    by simp
  with advance_trans[OF advance_putchar this] Cons.prems show ?case by simp
qed simp

subsection \<open>Lines that fit the screen\<close>

definition on_screen :: "'a console_scheme \<Rightarrow> bool" where
  "on_screen s \<longleftrightarrow> unat (g_vga_index s) = 80 * unat (cursor_pos_y s) + unat (cursor_pos_x s) \<and>
     unat (cursor_pos_x s) < 80 \<and> unat (cursor_pos_y s) \<le> 24"

fun lines_fit :: "nat \<Rightarrow> cstring \<Rightarrow> bool" where
  "lines_fit x [] = True"
| "lines_fit x (c # cs) =
     (if c = 10 then lines_fit 0 cs
      else x + length (glyphs c) < 80 \<and> lines_fit (x + length (glyphs c)) cs)"

definition past_screen :: "'a console_scheme \<Rightarrow> nat \<Rightarrow> u16" where
  "past_screen s = (\<lambda>i. g_vga_buffer s (2200 + i))"

lemma clear_cells_nth: "clear_cells n v f k = (if k < n then v else f k)"
  by (induction n) auto

lemma console_clear_fields [simp]:
  "g_vga_index (console_clear f b s) = 0"
  "cursor_pos_x (console_clear f b s) = 0" "cursor_pos_y (console_clear f b s) = 0"
  "past_screen (console_clear f b s) = past_screen s"
  by (simp_all add: console_clear_def Let_def past_screen_def clear_cells_nth VGA_TOTAL_ITEMS_def)

lemma past_screen_fields [simp]:
  "past_screen (vga_set_cursor_pos x y s) = past_screen s"
  "past_screen (s\<lparr>g_vga_index := i\<rparr>) = past_screen s"
  "past_screen (s\<lparr>cursor_pos_x := cx\<rparr>) = past_screen s"
  "past_screen (s\<lparr>cursor_pos_y := cy\<rparr>) = past_screen s"
  by (simp_all add: past_screen_def)

lemma newline_on_screen:
  assumes "on_screen s"
  shows "on_screen (console_newline s)" "cursor_pos_x (console_newline s) = 0"
    "past_screen (console_newline s) = past_screen s"
proof -
  have i: "unat (g_vga_index s) = 80 * unat (cursor_pos_y s) + unat (cursor_pos_x s)"
    and x: "unat (cursor_pos_x s) < 80" and y: "unat (cursor_pos_y s) \<le> 24"
    using assms by (auto simp: on_screen_def)
  have r: "unat (g_vga_index s mod 80) = unat (cursor_pos_x s)" using x by (simp add: unat_mod i)
  then have "unat (80 - g_vga_index s mod 80) = 80 - unat (cursor_pos_x s)"
    using x by (subst unat_sub) (simp_all add: word_le_nat_alt)
  then have "unat (g_vga_index s + (80 - g_vga_index s mod 80)) = 80 * Suc (unat (cursor_pos_y s))"
    using x y i by (simp add: unat_word_ariths)
  moreover have "unat (cursor_pos_y s + 1) = Suc (unat (cursor_pos_y s))" if "\<not> 24 \<le> cursor_pos_y s"
    using that by (simp add: word_le_nat_alt unat_word_ariths)
  ultimately show "on_screen (console_newline s)" "cursor_pos_x (console_newline s) = 0"
      "past_screen (console_newline s) = past_screen s"
    by (auto simp: console_newline_def Let_def on_screen_def VGA_WIDTH_def VGA_HEIGHT_def word_le_nat_alt)
qed

lemma putchar_on_screen:
  assumes "on_screen s" "c \<noteq> 10" "unat (cursor_pos_x s) + length (glyphs c) < 80"
  shows "on_screen (console_putchar c s)"
    "unat (cursor_pos_x (console_putchar c s)) = unat (cursor_pos_x s) + length (glyphs c)"
    "past_screen (console_putchar c s) = past_screen s"
proof -
  let ?n = "length (glyphs c)"
  have a: "advance (glyphs c) s (console_putchar c s)" using assms(2) by (rule advance_putchar)
  have i: "unat (g_vga_index s) + ?n < 2000"
    using assms(1,3) by (auto simp: on_screen_def)
  then show x: "unat (cursor_pos_x (console_putchar c s)) = unat (cursor_pos_x s) + ?n"
    using a assms(3) by (simp add: advance_def unat_word_ariths unat_of_nat take_bit_eq_mod)
  have "unat (g_vga_index (console_putchar c s)) = unat (g_vga_index s) + ?n"
    using a i by (simp add: advance_def unat_plus_of_nat)
  then show "on_screen (console_putchar c s)"
    using a x assms(1,3) by (simp add: advance_def on_screen_def)
  show "past_screen (console_putchar c s) = past_screen s"
    using a i by (auto simp: advance_def past_screen_def put_from_nth)
qed

text \<open>C39. As long as the text keeps every line below 80 columns, counting two cells for a space and
  four for a tab, \<^verbatim>\<open>console_putstr\<close> keeps the write index equal to 80 times the row plus the column with
  the cursor on the 25-line screen, and never writes a cell past the 2200 cells of the text buffer.\<close>

theorem putstr_on_screen:
  assumes "on_screen s" "lines_fit (unat (cursor_pos_x s)) cs"
  shows "on_screen (console_putstr cs s) \<and> past_screen (console_putstr cs s) = past_screen s"
  using assms
proof (induction cs arbitrary: s)
  case (Cons c cs)
  show ?case
  proof (cases "c = 10")
    case True
    with Cons newline_on_screen[OF Cons.prems(1)] show ?thesis by simp
  next
    case False
    with Cons.prems(2) have "unat (cursor_pos_x s) + length (glyphs c) < 80" by simp
    with putchar_on_screen[OF Cons.prems(1) False] Cons False show ?thesis by simp
  qed
qed simp

definition blank_console :: console where
  "blank_console = console_init 15 0
     \<lparr>ports = [], g_vga_buffer = \<lambda>_. 0, g_vga_index = 7, cursor_pos_x = 3, cursor_pos_y = 9,
      g_fore_color = 0, g_back_color = 0\<rparr>"

lemma blank_console_fields [simp]:
  "g_vga_index blank_console = 0" "cursor_pos_x blank_console = 0" "cursor_pos_y blank_console = 0"
  by (simp_all add: blank_console_def console_init_def)

theorem putstr_on_screen_witness:
  "on_screen (console_putstr (cstr ''Hello B2OS'' @ [10, 9, 33]) blank_console) \<and>
   past_screen (console_putstr (cstr ''Hello B2OS'' @ [10, 9, 33]) blank_console) = past_screen blank_console"
  by (rule putstr_on_screen) (simp_all add: on_screen_def cstr_def glyphs_def)

text \<open>The console neither wraps nor checks its index: a line of exactly 80 characters leaves the
  column at 80 and its newline skips a row, so that the write index runs one line ahead of the cursor,
  and a longer line is written on past the end of the text buffer.\<close>

theorem long_line_leaves_screen:
  "(let s = console_putstr (replicate 80 97 @ [10]) blank_console
    in cursor_pos_x s = 0 \<and> cursor_pos_y s = 1 \<and> g_vga_index s = 160) \<and>
   g_vga_buffer (console_putstr (replicate 2201 97) blank_console) 2200 = attr blank_console 97"
proof -
  have g: "concat (replicate n (glyphs 97)) = replicate n 97" for n
    by (induction n) (simp_all add: glyphs_def)
  have a: "advance (replicate n 97) blank_console (console_putstr (replicate n 97) blank_console)" for n
    using advance_putstr[of "replicate n 97" blank_console] by (simp add: g split: if_splits)
  have app: "console_putstr (xs @ ys) s = console_putstr ys (console_putstr xs s)" for xs ys and s :: console
    by (induction xs arbitrary: s) simp_all
  show ?thesis
    using a[of 80] a[of 2201]
    by (auto simp: app advance_def console_newline_def Let_def VGA_HEIGHT_def VGA_WIDTH_def put_from_nth)
qed

end
