(* ===== verification/Interrupts.thy ===== *)
theory Interrupts
  imports Console_Text
begin

text \<open>
  Interrupts and time: \<^verbatim>\<open>Src/idt.c\<close>, \<^verbatim>\<open>Src/isr.c\<close>, \<^verbatim>\<open>Src/timer.c\<close> and the random numbers of \<^verbatim>\<open>Src/util.c\<close>.
  The kernel state extends the console.  The addresses of the assembly entry points and of the
  descriptor table are parameters, and so is the meaning of a handler's address: \<open>code h\<close> is what
  calling the function at \<open>h\<close> does.  An index outside an array is the value \<open>None\<close>.
\<close>

record idt_gate_t =
  low_offset :: u16
  sel :: u16
  always0 :: u8
  gflags :: u8
  high_offset :: u16

record idt_register_t =
  limit :: u16
  base :: u32

record registers_t =
  reg_ds :: u32
  edi :: u32
  esi :: u32
  ebp :: u32
  esp :: u32
  ebx :: u32
  edx :: u32
  ecx :: u32
  eax :: u32
  int_no :: u32
  err_code :: u32
  eip :: u32
  reg_cs :: u32
  eflags :: u32
  useresp :: u32
  reg_ss :: u32

record kernel = console +
  idt :: "nat \<Rightarrow> idt_gate_t"
  idt_reg :: idt_register_t
  idtr :: idt_register_t
  int_flag :: bool
  interrupt_handlers :: "nat \<Rightarrow> u32"
  global_tick :: u32
  global_seconds :: u32
  k_random_next :: u32

definition KERNEL_CS :: u16 where "KERNEL_CS = 0x08"
definition IDT_ENTRIES :: nat where "IDT_ENTRIES = 256"
definition IRQ0 :: u8 where "IRQ0 = 32"

definition low_16 :: "u32 \<Rightarrow> u16" where "low_16 address = ucast (address AND 0xFFFF)"
definition high_16 :: "u32 \<Rightarrow> u16" where "high_16 address = ucast (drop_bit 16 address AND 0xFFFF)"

subsection \<open>Descriptor table\<close>

definition set_idt_gate :: "nat \<Rightarrow> u32 \<Rightarrow> 'a kernel_scheme \<Rightarrow> 'a kernel_scheme option" where
  "set_idt_gate n handler s =
     (if n < IDT_ENTRIES then
        Some (s\<lparr>idt := (idt s)(n := \<lparr>low_offset = low_16 handler, sel = KERNEL_CS, always0 = 0,
                gflags = 0x8E, high_offset = high_16 handler\<rparr>)\<rparr>)
      else None)"

text \<open>\<^verbatim>\<open>set_idt\<close>, with the \<^verbatim>\<open>lidt\<close> instruction; \<open>idt_addr\<close> is the address of the table, a gate has 8 bytes.\<close>

definition set_idt :: "u32 \<Rightarrow> 'a kernel_scheme \<Rightarrow> 'a kernel_scheme" where
  "set_idt idt_addr s =
     (let s = s\<lparr>idt_reg := \<lparr>limit = of_nat (IDT_ENTRIES * 8 - 1), base = idt_addr\<rparr>\<rparr>
      in s\<lparr>idtr := idt_reg s\<rparr>)"

primrec set_gates :: "(nat \<Rightarrow> u32) \<Rightarrow> nat \<Rightarrow> nat \<Rightarrow> 'a kernel_scheme \<Rightarrow> 'a kernel_scheme option" where
  "set_gates h m 0 s = Some s"
| "set_gates h m (Suc n) s = do { s \<leftarrow> set_gates h m n s; set_idt_gate (m + n) (h n) s }"

text \<open>The remapping of the two PICs: the master to vector 32, the slave to vector 40.\<close>

definition remap_pic :: "'a kio_scheme \<Rightarrow> 'a kio_scheme" where
  "remap_pic s = fold (\<lambda>(p, v). port_byte_out p v)
     [(0x20, 0x11), (0xA0, 0x11), (0x21, 0x20), (0xA1, 0x28), (0x21, 0x04), (0xA1, 0x02),
      (0x21, 0x01), (0xA1, 0x01), (0x21, 0x0), (0xA1, 0x0)] s"

definition k_init_isr :: "(nat \<Rightarrow> u32) \<Rightarrow> (nat \<Rightarrow> u32) \<Rightarrow> u32 \<Rightarrow> 'a kernel_scheme \<Rightarrow> 'a kernel_scheme option" where
  "k_init_isr isr irq idt_addr s = do {
     s \<leftarrow> set_gates isr 0 32 s;
     let s = remap_pic s;
     s \<leftarrow> set_gates irq 32 16 s;
     let s = set_idt idt_addr s;
     let s = s\<lparr>int_flag := True\<rparr>;
     printf (\<lambda>_. []) (cstr ''[INIT ISR]'' @ [10]) (\<lambda>_. 0) s }"

subsection \<open>Handlers\<close>

definition k_isr_handler :: "registers_t \<Rightarrow> 'a kernel_scheme \<Rightarrow> 'a kernel_scheme" where
  "k_isr_handler r s = s"

definition register_interrupt_handler :: "u8 \<Rightarrow> u32 \<Rightarrow> 'a kernel_scheme \<Rightarrow> 'a kernel_scheme" where
  "register_interrupt_handler n handler s =
     s\<lparr>interrupt_handlers := (interrupt_handlers s)(unat n := handler)\<rparr>"

definition k_irq_handler :: "(u32 \<Rightarrow> registers_t \<Rightarrow> 'a kernel_scheme \<Rightarrow> 'a kernel_scheme) \<Rightarrow> registers_t \<Rightarrow>
    'a kernel_scheme \<Rightarrow> 'a kernel_scheme option" where
  "k_irq_handler code r s =
     (let s = (if int_no r \<ge> 40 then port_byte_out 0xA0 0x20 s else s);
          s = port_byte_out 0x20 0x20 s
      in if unat (int_no r) < 256 then
           let handler = interrupt_handlers s (unat (int_no r))
           in Some (if handler \<noteq> 0 then code handler r s else s)
         else None)"

subsection \<open>Timer\<close>

definition timer_callback :: "registers_t \<Rightarrow> 'a kernel_scheme \<Rightarrow> 'a kernel_scheme" where
  "timer_callback regs s =
     (let s = s\<lparr>global_tick := global_tick s + 1\<rparr>
      in if global_tick s mod 1000 = 0 then s\<lparr>global_seconds := global_seconds s + 1\<rparr> else s)"

text \<open>\<^verbatim>\<open>k_init_timer\<close> computes a divisor from the frequency, a division that faults for 0, and then
  replaces it by 110.\<close>

definition k_init_timer :: "u32 \<Rightarrow> u32 \<Rightarrow> 'a kernel_scheme \<Rightarrow> 'a kernel_scheme option" where
  "k_init_timer callback freq s =
     (let s = register_interrupt_handler IRQ0 callback s in
      if freq = 0 then None
      else
        let divisor = 1193180 div freq;
            divisor = 110;
            s = port_byte_out 0x43 0x36 s;
            s = port_byte_out 0x40 (ucast (divisor AND 0xFF :: u32)) s
        in Some (port_byte_out 0x40 (ucast (drop_bit 8 divisor)) s))"

text \<open>\<^verbatim>\<open>k_sleep\<close> polls \<^verbatim>\<open>global_tick\<close>; \<open>tick i\<close> is what its \<open>i\<close>-th read sees, as interrupts advance it.\<close>

partial_function (option) sleep_loop :: "(nat \<Rightarrow> u32) \<Rightarrow> u32 \<Rightarrow> nat \<Rightarrow> nat option" where
  "sleep_loop tick wake i = (if tick i < wake then sleep_loop tick wake (Suc i) else Some i)"

definition k_sleep :: "(nat \<Rightarrow> u32) \<Rightarrow> u32 \<Rightarrow> nat option" where
  "k_sleep tick waitticks = (let startTicks = tick 0 in sleep_loop tick (startTicks + waitticks) 1)"

subsection \<open>Random numbers\<close>

definition k_srand :: "u32 \<Rightarrow> 'a kernel_scheme \<Rightarrow> 'a kernel_scheme option" where
  "k_srand seed s = printf (\<lambda>_. []) (cstr ''[INIT RANDOM]'' @ [10]) (\<lambda>_. 0) (s\<lparr>k_random_next := seed\<rparr>)"

definition k_rand :: "'a kernel_scheme \<Rightarrow> u32 \<times> 'a kernel_scheme" where
  "k_rand s =
     (let s = s\<lparr>k_random_next := k_random_next s * 1103515245 + 12345\<rparr>
      in (k_random_next s div 65536 mod 32768, s))"

text \<open>\<^verbatim>\<open>reverse\<close> on a memory: the loop runs \<open>len + 1\<close> times, and its last round reads the byte before the
  string.\<close>

primrec reverse_rounds :: "bytes \<Rightarrow> nat \<Rightarrow> nat \<Rightarrow> nat \<Rightarrow> nat \<Rightarrow> bytes" where
  "reverse_rounds f str buffer len 0 = f"
| "reverse_rounds f str buffer len (Suc i) =
     (let f = reverse_rounds f str buffer len i in f(buffer + i := f (str + len - 1 - i)))"

definition reverse :: "bytes \<Rightarrow> nat \<Rightarrow> nat \<Rightarrow> nat \<Rightarrow> bytes" where
  "reverse f str buffer len = reverse_rounds f str buffer len (len + 1)"

subsection \<open>The installed table\<close>

text \<open>The address the processor calls through a gate.\<close>

definition gate_target :: "idt_gate_t \<Rightarrow> u32" where
  "gate_target g = push_bit 16 (ucast (high_offset g)) OR ucast (low_offset g)"

definition gate_for :: "u32 \<Rightarrow> idt_gate_t" where
  "gate_for h = \<lparr>low_offset = low_16 h, sel = KERNEL_CS, always0 = 0, gflags = 0x8E, high_offset = high_16 h\<rparr>"

lemma gate_target_for [simp]: "gate_target (gate_for h) = h"
proof -
  have m: "0xFFFF = (mask 16 :: u32)" by (simp add: mask_eq_exp_minus_1)
  show ?thesis
    by (rule bit_eqI) (auto simp: gate_target_def gate_for_def low_16_def high_16_def m bit_simps)
qed

lemma set_gates_idt:
  "m + n \<le> 256 \<Longrightarrow> \<exists>s'. set_gates h m n s = Some s' \<and>
     s' = s\<lparr>idt := (\<lambda>i. if m \<le> i \<and> i < m + n then gate_for (h (i - m)) else idt s i)\<rparr>"
proof (induction n)
  case 0
  have e: "(\<lambda>i. if m \<le> i \<and> i < m + 0 then gate_for (h (i - m)) else idt s i) = idt s"
    by (rule ext) auto
  show ?case unfolding e by simp
qed (auto simp: set_idt_gate_def IDT_ENTRIES_def gate_for_def fun_eq_iff less_Suc_eq)

text \<open>Output to the console or to a port leaves the rest of the kernel alone.\<close>

definition same_kernel :: "'a kernel_scheme \<Rightarrow> 'a kernel_scheme \<Rightarrow> bool" where
  "same_kernel s t \<longleftrightarrow> kernel.more s = kernel.more t \<and> idt s = idt t \<and> idt_reg s = idt_reg t \<and> idtr s = idtr t \<and>
     int_flag s = int_flag t \<and> interrupt_handlers s = interrupt_handlers t \<and>
     global_tick s = global_tick t \<and> global_seconds s = global_seconds t \<and> k_random_next s = k_random_next t"

lemma same_kernel_console [simp]:
  "same_kernel (port_byte_out p v s) t = same_kernel s t"
  "same_kernel (s\<lparr>g_vga_index := i\<rparr>) t = same_kernel s t"
  "same_kernel (s\<lparr>g_vga_buffer := b\<rparr>) t = same_kernel s t"
  "same_kernel (s\<lparr>cursor_pos_x := x\<rparr>) t = same_kernel s t"
  "same_kernel (s\<lparr>cursor_pos_y := y\<rparr>) t = same_kernel s t"
  by (simp_all add: same_kernel_def port_byte_out_def)

lemma same_kernel_newline: "same_kernel (console_newline s) t = same_kernel s t"
  by (simp add: console_newline_def console_clear_def vga_set_cursor_pos_def Let_def)

lemma same_kernel_putchar: "same_kernel (console_putchar c s) t = same_kernel s t"
  by (simp add: console_putchar_def emit_blank_def emit_def put_cell_def same_kernel_newline
      vga_set_cursor_pos_def Let_def)

lemma same_kernel_put_all: "same_kernel (put_all cs s) t = same_kernel s t"
  by (induction cs arbitrary: s) (simp_all add: put_all_def same_kernel_putchar)

lemma same_kernel_refl [simp]: "same_kernel s s"
  by (simp add: same_kernel_def)

lemma same_kernel_printf: "printf str fmt arg s = Some t \<Longrightarrow> same_kernel t s"
  by (auto simp: printf_pieces same_kernel_put_all)

lemma same_kernel_remap: "same_kernel (remap_pic s) t = same_kernel s t"
  by (simp add: remap_pic_def)

lemma k_init_isr_result:
  "\<exists>s'. k_init_isr isr irq idt_addr s = Some s' \<and> int_flag s' \<and> idtr s' = \<lparr>limit = 2047, base = idt_addr\<rparr> \<and>
     idt s' = (\<lambda>n. if n < 32 then gate_for (isr n) else if n < 48 then gate_for (irq (n - 32)) else idt s n) \<and>
     interrupt_handlers s' = interrupt_handlers s \<and> global_tick s' = global_tick s"
proof -
  obtain s1 where s1: "set_gates isr 0 32 s = Some s1"
    "s1 = s\<lparr>idt := (\<lambda>i. if 0 \<le> i \<and> i < 0 + 32 then gate_for (isr (i - 0)) else idt s i)\<rparr>"
    using set_gates_idt[of 0 32 isr s] by auto
  obtain s2 where s2: "set_gates irq 32 16 (remap_pic s1) = Some s2"
    "s2 = (remap_pic s1)\<lparr>idt := (\<lambda>i. if 32 \<le> i \<and> i < 32 + 16 then gate_for (irq (i - 32)) else idt (remap_pic s1) i)\<rparr>"
    using set_gates_idt[of 32 16 irq "remap_pic s1"] by auto
  have r: "same_kernel (remap_pic s1) s1" by (simp add: same_kernel_remap)
  let ?s3 = "(set_idt idt_addr s2)\<lparr>int_flag := True\<rparr>"
  obtain ps where ps: "pieces (cstr ''[INIT ISR]'' @ [10]) = Some ps"
    by (simp add: cstr_def)
  define s' where "s' = put_all (render (\<lambda>_. []) ps (\<lambda>_. 0)) ?s3"
  have p: "k_init_isr isr irq idt_addr s = Some s'"
    by (simp only: k_init_isr_def s1(1) s2(1) printf_pieces ps Let_def s'_def bind.bind_lunit option.map)
  have k: "same_kernel s' ?s3" by (simp add: s'_def same_kernel_put_all)
  have "idt s' n = (if n < 32 then gate_for (isr n) else if n < 48 then gate_for (irq (n - 32)) else idt s n)" for n
    using k r by (auto simp: same_kernel_def set_idt_def s1(2) s2(2))
  moreover have "int_flag s' \<and> idtr s' = \<lparr>limit = 2047, base = idt_addr\<rparr> \<and>
      interrupt_handlers s' = interrupt_handlers s \<and> global_tick s' = global_tick s"
    using k r by (simp add: same_kernel_def set_idt_def s1(2) s2(2) IDT_ENTRIES_def)
  ultimately show ?thesis using p by auto
qed

text \<open>\<^verbatim>\<open>k_init_isr\<close> succeeds and leaves a table in which, for every assembly entry point, gate \<open>n\<close> is a present
  32-bit interrupt gate of the kernel segment whose two offset halves put the address of entry point \<open>n\<close>
  back together: exception \<open>n\<close> for \<open>n < 32\<close>, IRQ \<open>n - 32\<close> for the next 16; the other gates are unchanged, the
  descriptor register covers exactly the 256 gates of 8 bytes, and interrupts are enabled.\<close>

theorem k_init_isr_table:
  "\<exists>s'. k_init_isr isr irq idt_addr s = Some s' \<and> int_flag s' \<and>
     unat (limit (idtr s')) + 1 = 256 * 8 \<and> base (idtr s') = idt_addr \<and>
     (\<forall>n. (n < 32 \<longrightarrow> gate_target (idt s' n) = isr n) \<and>
          (n < 16 \<longrightarrow> gate_target (idt s' (32 + n)) = irq n) \<and>
          (n < 48 \<longrightarrow> sel (idt s' n) = KERNEL_CS \<and> gflags (idt s' n) = 0x8E) \<and>
          (48 \<le> n \<longrightarrow> idt s' n = idt s n)) \<and>
     interrupt_handlers s' = interrupt_handlers s \<and> global_tick s' = global_tick s"
proof -
  obtain s' where s': "k_init_isr isr irq idt_addr s = Some s'" "int_flag s'" "idtr s' = \<lparr>limit = 2047, base = idt_addr\<rparr>"
    "idt s' = (\<lambda>n. if n < 32 then gate_for (isr n) else if n < 48 then gate_for (irq (n - 32)) else idt s n)"
    "interrupt_handlers s' = interrupt_handlers s" "global_tick s' = global_tick s"
    using k_init_isr_result by blast
  have "sel (gate_for h) = KERNEL_CS" "gflags (gate_for h) = 0x8E" for h by (simp_all add: gate_for_def)
  with s' show ?thesis by (intro exI [of _ s']) simp
qed

text \<open>The effect of timer interrupts on the clock.\<close>

lemma timer_callback_clock:
  "global_tick (timer_callback r s) = global_tick s + 1"
  "global_seconds (timer_callback r s) =
     global_seconds s + (if (global_tick s + 1) mod 1000 = 0 then 1 else 0)"
  "interrupt_handlers (timer_callback r s) = interrupt_handlers s"
  by (simp_all add: timer_callback_def Let_def)

lemma port_out_kernel [simp]:
  "interrupt_handlers (port_byte_out p v s) = interrupt_handlers s"
  "global_tick (port_byte_out p v s) = global_tick s"
  "global_seconds (port_byte_out p v s) = global_seconds s"
  "ports (port_byte_out p v s) = ports s @ [(p, v)]"
  by (simp_all add: port_byte_out_def)

primrec irqs :: "(u32 \<Rightarrow> registers_t \<Rightarrow> 'a kernel_scheme \<Rightarrow> 'a kernel_scheme) \<Rightarrow> registers_t \<Rightarrow> nat \<Rightarrow>
    'a kernel_scheme \<Rightarrow> 'a kernel_scheme option" where
  "irqs code r 0 s = Some s"
| "irqs code r (Suc n) s = do { s \<leftarrow> irqs code r n s; k_irq_handler code r s }"

lemma timer_irq:
  assumes "code cb = timer_callback" "cb \<noteq> 0" "int_no r = 32" "interrupt_handlers s 32 = cb"
  shows "k_irq_handler code r s = Some (timer_callback r (port_byte_out 0x20 0x20 s))"
  using assms by (simp add: k_irq_handler_def word_le_nat_alt)

lemma unat_Suc_u32: "Suc n < 4294967296 \<Longrightarrow> unat w = n \<Longrightarrow> unat (w + 1) = Suc n" for w :: u32
  by (simp add: unat_word_ariths)

lemma Suc_div_1000: "Suc n div 1000 = n div 1000 + (if Suc n mod 1000 = 0 then 1 else 0)"
  by (simp add: div_Suc)

lemma timer_irqs_clock:
  assumes "code cb = timer_callback" "cb \<noteq> 0" "int_no r = 32"
    and "interrupt_handlers s 32 = cb" "global_tick s = 0" "global_seconds s = 0"
  shows "n < 4294967296 \<Longrightarrow> \<exists>s'. irqs code r n s = Some s' \<and> unat (global_tick s') = n \<and>
    unat (global_seconds s') = n div 1000 \<and> interrupt_handlers s' 32 = cb \<and>
    ports s' = ports s @ replicate n (0x20, 0x20)"
proof (induction n)
  case (Suc n)
  then obtain t where t: "irqs code r n s = Some t" "unat (global_tick t) = n"
    "unat (global_seconds t) = n div 1000" "interrupt_handlers t 32 = cb"
    "ports t = ports s @ replicate n (0x20, 0x20)" by auto
  let ?u = "timer_callback r (port_byte_out 0x20 0x20 t)"
  have k: "unat (global_tick t + 1) = Suc n" using Suc.prems t(2) by (rule unat_Suc_u32)
  have m: "(global_tick t + 1) mod 1000 = 0 \<longleftrightarrow> Suc n mod 1000 = 0"
    by (simp add: unat_mod k flip: unat_eq_0)
  have "unat (global_seconds t + 1) = n div 1000 + 1"
    using Suc.prems t(3) by (subst unat_Suc_u32[of "n div 1000"]) auto
  then have "unat (global_seconds ?u) = Suc n div 1000"
    unfolding Suc_div_1000 using t(3) by (simp add: timer_callback_clock m)
  moreover have "ports ?u = ports s @ replicate (Suc n) (0x20, 0x20)"
    using t(5) by (simp add: timer_callback_def Let_def replicate_append_same)
  moreover have "irqs code r (Suc n) s = Some ?u"
    using t(1) timer_irq[of code cb r t] assms(1-3) t(4) by simp
  ultimately show ?case using k t(4) by (simp add: timer_callback_clock)
qed (use assms in simp)

text \<open>The clock: after \<^verbatim>\<open>k_init_timer\<close>, \<open>n\<close> timer interrupts through \<^verbatim>\<open>k_irq_handler\<close>, for \<open>n\<close> below \<open>2^32\<close>, count \<open>n\<close>
  ticks and one second per thousand of them, and acknowledge each interrupt once at the master PIC.
  \<open>cb\<close> is the address of \<^verbatim>\<open>timer_callback\<close>.\<close>

theorem timer_counts:
  assumes "code cb = timer_callback" and "cb \<noteq> 0" and "k_init_timer cb freq s = Some s1"
    and "global_tick s = 0" and "global_seconds s = 0" and "int_no r = 32" and "n < 4294967296"
  shows "\<exists>s'. irqs code r n s1 = Some s' \<and> unat (global_tick s') = n \<and> unat (global_seconds s') = n div 1000 \<and>
    ports s' = ports s1 @ replicate n (0x20, 0x20)"
proof -
  have "interrupt_handlers s1 32 = cb" "global_tick s1 = 0" "global_seconds s1 = 0"
    using assms(3-5)
    by (auto simp: k_init_timer_def register_interrupt_handler_def IRQ0_def Let_def split: if_splits)
  with timer_irqs_clock[where code = code and s = s1] assms(1,2,6,7) show ?thesis by blast
qed

definition demo_kernel :: kernel where
  "demo_kernel = console.extend blank_console \<lparr>idt = \<lambda>_. gate_for 0, idt_reg = \<lparr>limit = 0, base = 0\<rparr>,
     idtr = \<lparr>limit = 0, base = 0\<rparr>, int_flag = False, interrupt_handlers = \<lambda>_. 0,
     global_tick = 0, global_seconds = 0, k_random_next = 1\<rparr>"

definition demo_regs :: "u32 \<Rightarrow> registers_t" where
  "demo_regs n = \<lparr>reg_ds = 0, edi = 0, esi = 0, ebp = 0, esp = 0, ebx = 0, edx = 0, ecx = 0, eax = 0,
     int_no = n, err_code = 0, eip = 0, reg_cs = 8, eflags = 0, useresp = 0, reg_ss = 0\<rparr>"

theorem k_init_isr_table_witness:
  "\<exists>s'. k_init_isr (\<lambda>n. 0x1000 + of_nat n) (\<lambda>n. 0x12345678 + of_nat n) 0x9000 demo_kernel = Some s' \<and>
     gate_target (idt s' 14) = 0x100E \<and> gate_target (idt s' (32 + 1)) = 0x12345679"
proof -
  note k_init_isr_table[of "\<lambda>n. 0x1000 + of_nat n" "\<lambda>n. 0x12345678 + of_nat n" "0x9000" demo_kernel]
  then obtain s' where s': "k_init_isr (\<lambda>n. 0x1000 + of_nat n) (\<lambda>n. 0x12345678 + of_nat n) 0x9000 demo_kernel = Some s'"
    "\<And>n. n < 32 \<Longrightarrow> gate_target (idt s' n) = 0x1000 + of_nat n"
    "\<And>n. n < 16 \<Longrightarrow> gate_target (idt s' (32 + n)) = 0x12345678 + of_nat n" by blast
  show ?thesis using s'(1) s'(2)[of 14] s'(3)[of 1] by simp
qed

theorem timer_counts_witness:
  "\<exists>s1 s'. k_init_timer 0x5000 500 demo_kernel = Some s1 \<and>
     irqs (\<lambda>_. timer_callback) (demo_regs 32) 2500 s1 = Some s' \<and> unat (global_seconds s') = 2"
proof -
  obtain s1 where s1: "k_init_timer 0x5000 500 demo_kernel = Some s1"
    by (simp add: k_init_timer_def Let_def)
  have "global_tick demo_kernel = 0" "global_seconds demo_kernel = 0"
    by (simp_all add: demo_kernel_def console.defs)
  from timer_counts[of "\<lambda>_. timer_callback" "0x5000" 500 demo_kernel s1 "demo_regs 32" 2500, OF _ _ s1 this]
  have "\<exists>s'. irqs (\<lambda>_. timer_callback) (demo_regs 32) 2500 s1 = Some s' \<and> unat (global_seconds s') = 2500 div 1000"
    by (auto simp: demo_regs_def)
  with s1 show ?thesis by auto
qed

subsection \<open>Sleeping and random numbers\<close>

lemma sleep_loop_finds:
  "(\<And>j. i \<le> j \<Longrightarrow> j < k \<Longrightarrow> tick j < wake) \<Longrightarrow> i \<le> k \<Longrightarrow> \<not> tick k < wake \<Longrightarrow> sleep_loop tick wake i = Some k"
proof (induction "k - i" arbitrary: i)
  case 0
  then show ?case by (subst sleep_loop.simps) simp
next
  case (Suc d)
  then have "sleep_loop tick wake (Suc i) = Some k" by simp
  with Suc show ?case by (subst sleep_loop.simps) simp
qed

text \<open>\<^verbatim>\<open>k_sleep\<close> returns at the first read that has reached the wake-up tick, whatever the interrupts do in
  between; a sum past \<open>2^32\<close> wraps and makes that tick a small one.\<close>

lemma k_sleep_returns:
  assumes "1 \<le> k" "\<not> tick k < tick 0 + w" "\<And>j. 1 \<le> j \<Longrightarrow> j < k \<Longrightarrow> tick j < tick 0 + w"
  shows "k_sleep tick w = Some k"
  using sleep_loop_finds[of 1 k tick "tick 0 + w"] assms by (simp add: k_sleep_def Let_def)

lemma k_rand_range: "unat (fst (k_rand s)) < 32768"
  by (simp add: k_rand_def Let_def unat_mod)

text \<open>The step of the generator is a bijection on 32-bit states, so no state is lost.\<close>

lemma k_rand_step_inj: "inj (\<lambda>x :: u32. x * 1103515245 + 12345)"
proof (rule inj_on_inverseI)
  have inv: "(1103515245 :: u32) * 4005161829 = 1" by simp
  fix x :: u32
  show "(x * 1103515245 + 12345 - 12345) * 4005161829 = x"
    by (simp only: add_diff_cancel_right' mult.assoc inv mult_1_right)
qed

end
