(* ===== verification/Apple_Machine.thy ===== *)
theory Apple_Machine
  imports Apple_Hires Apple_Font Apple_Safety Apple_Cycles Interrupts
begin

text \<open>
  \<^verbatim>\<open>AppleMachine.c\<close>: power-up, reset and running of the emulated machine, and \<^verbatim>\<open>ad_Create\<close> of
  \<^verbatim>\<open>AppleDevice.c\<close>.  The ROM images and the disk image are tables of the build and are arguments here.
  The state of the whole system joins the kernel's console and clock, its allocator, the font tables
  and the machine.  As for \<^verbatim>\<open>ac_Run\<close>, the value \<open>None\<close> of \<^verbatim>\<open>machine_Run\<close> is a run that does not return and
  \<open>Some None\<close> one that leaves an array.
\<close>

record system =
  kern :: kernel
  arena :: kmem
  font_tab :: fonts
  apple :: machine

subsection \<open>Operations\<close>

definition ad_Create :: "'a system_scheme \<Rightarrow> 'a system_scheme option" where
  "ad_Create s = do {
     let d = ad_Reset (dev (apple s));
     (F, h) \<leftarrow> af_Create (font_tab s) (arena s);
     (p, h) \<leftarrow> malloc (of_nat (SCREENSIZE_X * SCREENSIZE_Y)) h;
     d \<leftarrow> (if p = 0 then None else ad_ClearScreen (d\<lparr>colorbuffer := \<lambda>i. kbytes h (unat p + i)\<rparr>));
     Some (s\<lparr>font_tab := F, arena := h, apple := (apple s)\<lparr>dev := d\<rparr>\<rparr>) }"

definition machine_Booting :: "bytes \<Rightarrow> bytes \<Rightarrow> machine \<Rightarrow> machine option" where
  "machine_Booting appleIIrom diskII m =
     ac_Reset (m\<lparr>mem := mem m\<lparr>rom := memcpy (rom (mem m)) 0 appleIIrom 0 ROMSIZE,
       sl6 := memcpy (sl6 (mem m)) 0 diskII 0 SL6SIZE\<rparr>\<rparr>)"

text \<open>The writes to the power-up byte and to the two locations some games need.\<close>

definition power_up_bytes :: "machine \<Rightarrow> machine option" where
  "power_up_bytes m = do {
     m \<leftarrow> mem_WriteByte 0x3F4 0 m;
     m \<leftarrow> mem_WriteByte 0x4D 0xAA m;
     mem_WriteByte 0xD0 0xAA m }"

definition machine_Reset :: "bytes \<Rightarrow> bytes \<Rightarrow> machine \<Rightarrow> machine option" where
  "machine_Reset appleIIrom diskII m = do {
     m \<leftarrow> ac_Reboot (m\<lparr>mem := mem_Reset (mem m)\<rparr>);
     m \<leftarrow> power_up_bytes (m\<lparr>dev := ad_Reset (dev m)\<rparr>);
     machine_Booting appleIIrom diskII m }"

definition on_apple :: "(machine \<Rightarrow> machine option) \<Rightarrow> 'a system_scheme \<Rightarrow> 'a system_scheme option" where
  "on_apple f s = map_option (\<lambda>m. s\<lparr>apple := m\<rparr>) (f (apple s))"

definition on_kern :: "(kernel \<Rightarrow> kernel option) \<Rightarrow> 'a system_scheme \<Rightarrow> 'a system_scheme option" where
  "on_kern f s = map_option (\<lambda>k. s\<lparr>kern := k\<rparr>) (f (kern s))"

definition message :: "string \<Rightarrow> kernel \<Rightarrow> kernel option" where
  "message str = printf (\<lambda>_. []) (cstr str @ [10]) (\<lambda>_. 0)"

definition machine_InitMachine :: "bytes \<Rightarrow> bytes \<Rightarrow> bytes \<Rightarrow> 'a system_scheme \<Rightarrow> 'a system_scheme option" where
  "machine_InitMachine appleIIrom diskII rawData s = do {
     s \<leftarrow> on_kern (message ''[Start Init APPLE2 Machine]'') s;
     let m = ac_Init (apple s);
     let m = m\<lparr>mem := mem_Create (mem m), dev := ad_ResetFloppy (dev m)\<rparr>;
     s \<leftarrow> on_apple power_up_bytes (s\<lparr>apple := m\<rparr>);
     s \<leftarrow> ad_Create s;
     let s = s\<lparr>apple := (apple s)\<lparr>dev := snd (ad_InsertFloppy rawData 0 (dev (apple s)))\<rparr>\<rparr>;
     s \<leftarrow> on_apple (machine_Reset appleIIrom diskII) s;
     on_kern (message ''[Done APPLE2 Machine]'') s }"

partial_function (option) floppy_loop :: "machine \<Rightarrow> machine option option" where
  "floppy_loop m =
     (let (busy, d) = ad_UpdateFloppyDisk (dev m); m = m\<lparr>dev := d\<rparr> in
      if \<not> busy then Some (Some m)
      else Option.bind (ac_Run 5000 m) (\<lambda>r. case r of None \<Rightarrow> Some None | Some m \<Rightarrow> floppy_loop m))"

definition machine_Run :: "u32 \<Rightarrow> machine \<Rightarrow> machine option option" where
  "machine_Run budget m =
     Option.bind (ac_Run budget m) (\<lambda>r. case r of None \<Rightarrow> Some None | Some m \<Rightarrow> floppy_loop m)"

definition machine_Render :: "int \<Rightarrow> 'a system_scheme \<Rightarrow> 'a system_scheme option" where
  "machine_Render frame s = on_apple (ad_Render (font_tab s) frame) s"

subsection \<open>What a program cannot change\<close>

text \<open>The poll counter of the drive and everything the renderer remembers between frames are out of
  reach of the emulated program; the display page stays 1 or 2.\<close>

definition same_video :: "machine \<Rightarrow> machine \<Rightarrow> bool" where
  "same_video m m' \<longleftrightarrow> updatedrive (dev m') = updatedrive (dev m) \<and> pixelGR (dev m') = pixelGR (dev m) \<and>
     LoResCache (dev m') = LoResCache (dev m) \<and> HiResCache (dev m') = HiResCache (dev m) \<and>
     previousBit (dev m') = previousBit (dev m) \<and> flashCycle (dev m') = flashCycle (dev m) \<and>
     colorbuffer (dev m') = colorbuffer (dev m) \<and> (page_ok m \<longrightarrow> page_ok m')"

lemma same_video_refl: "same_video m m"
  by (simp add: same_video_def)

lemma same_video_trans: "same_video m m1 \<Longrightarrow> same_video m1 m2 \<Longrightarrow> same_video m m2"
  by (simp add: same_video_def)

lemma same_video_frame: "same_video m (m\<lparr>mem := x\<rparr>)" "same_video m (m\<lparr>cpu := c\<rparr>)"
  by (simp_all add: same_video_def page_ok_def)

lemma same_video_disk:
  assumes "disk_switch a v (dev m) = Some (r, d)"
  shows "same_video m (m\<lparr>dev := d\<rparr>)"
  using assms
  by (auto simp: same_video_def page_ok_def disk_switch_def disk_shift_def ad_stepMotor_def shift_phases_def ad_setDrv_def
      upd_cur_def Let_def bind_eq_Some_conv split: if_splits)

lemma same_video_switch:
  assumes "ad_SoftSwitch a v w m = Some (r, m')"
  shows "same_video m m'"
  using assms
  by (cases rule: ad_SoftSwitch_cases)
     (auto simp: same_video_refl same_video_frame same_video_disk, auto simp: same_video_def page_ok_def video_switch_def
       ad_readPaddle_def ad_resetPaddles_def Let_def)

lemma same_video_read: "mem_ReadByte a m = Some (v, m') \<Longrightarrow> same_video m m'"
  by (rule bus_read_via_switch [of same_video m a]) (auto simp: same_video_refl same_video_switch)

lemma same_video_write: "mem_WriteByte a v m = Some m' \<Longrightarrow> same_video m m'"
  by (rule bus_write_via_switch [of same_video m a]) (auto simp: same_video_refl same_video_frame same_video_switch)

interpretation vid: bus_contract same_video
  by unfold_locales
     (auto simp: same_video_refl same_video_frame intro: same_video_trans same_video_read same_video_write)

subsection \<open>Polling the drive\<close>

lemma loop_safe:
  assumes "\<And>m. P m \<Longrightarrow> \<exists>m'. ac_step m = Some m' \<and> P m'" and "ac_Run_loop m = Some r"
  shows "P m \<Longrightarrow> \<exists>m'. r = Some m' \<and> P m'"
proof (rule ac_Run_loop.raw_induct [where P = "\<lambda>m r. P m \<longrightarrow> (\<exists>m'. r = Some m' \<and> P m')", OF _ assms(2), rule_format])
  fix run m r
  assume IH: "\<And>m r. run m = Some r \<Longrightarrow> P m \<Longrightarrow> \<exists>m'. r = Some m' \<and> P m'" and P: "P m"
    and eq: "(if cycle (cpu m) > 0
      then case ac_step m of
          None \<Rightarrow> Some None
        | Some m' \<Rightarrow> if cycle (cpu m) < cycle (cpu m') then Some (Some m') else run m'
      else Some (Some m)) = Some r"
  obtain m' where st: "ac_step m = Some m'" "P m'" using assms(1) P by blast
  have "r = Some m \<or> r = Some m' \<or> run m' = Some r" using eq unfolding st(1) by (auto split: if_splits)
  then show "\<exists>m'. r = Some m' \<and> P m'" using P st(2) IH [of m' r] by blast
qed

lemma floppy_loop_idle: "\<not> motorOn (cur (dev m)) \<Longrightarrow> floppy_loop m = Some (Some m)"
  by (subst floppy_loop.simps) (simp add: ad_UpdateFloppyDisk_def)

lemma ac_Run_updatedrive: "ac_Run n m = Some (Some m') \<Longrightarrow> updatedrive (dev m') = updatedrive (dev m)"
  using vid.keeps_run [of n m m'] by (simp add: same_video_def)

lemma floppy_loop_returns:
  assumes run: "\<And>m d. P m \<Longrightarrow> ad_UpdateFloppyDisk (dev m) = (True, d) \<Longrightarrow>
      \<exists>r. ac_Run 5000 (m\<lparr>dev := d\<rparr>) = Some r \<and> pred_option P r"
  shows "P m \<Longrightarrow> \<exists>r. floppy_loop m = Some r \<and> (\<forall>m'. r = Some m' \<longrightarrow> \<not> motorOn (cur (dev m')) \<or> updatedrive (dev m') = 0)"
proof (induction "256 - unat (updatedrive (dev m))" arbitrary: m rule: less_induct)
  case less
  let ?u = "updatedrive (dev m) + 1"
  let ?m = "m\<lparr>dev := dev m\<lparr>updatedrive := ?u\<rparr>\<rparr>"
  consider "\<not> motorOn (cur (dev m))" | "motorOn (cur (dev m))" "?u = 0" | "motorOn (cur (dev m))" "?u \<noteq> 0" by blast
  then show ?case
  proof cases
    case 1
    then show ?thesis by (simp add: floppy_loop_idle)
  next
    case 2
    then have "floppy_loop m = Some (Some ?m)"
      by (subst floppy_loop.simps) (simp add: ad_UpdateFloppyDisk_def Let_def)
    with 2 show ?thesis by simp
  next
    case 3
    then have loop: "floppy_loop m = Option.bind (ac_Run 5000 ?m) (\<lambda>r. case r of None \<Rightarrow> Some None | Some m \<Rightarrow> floppy_loop m)"
      by (subst floppy_loop.simps) (simp add: ad_UpdateFloppyDisk_def Let_def)
    have "ad_UpdateFloppyDisk (dev m) = (True, dev m\<lparr>updatedrive := ?u\<rparr>)"
      using 3 by (simp add: ad_UpdateFloppyDisk_def Let_def)
    then obtain r where r: "ac_Run 5000 ?m = Some r" "pred_option P r" using run [OF less.prems] by blast
    show ?thesis
    proof (cases r)
      case None
      with loop r show ?thesis by simp
    next
      case (Some m')
      have "unat ?u = Suc (unat (updatedrive (dev m)))" using 3(2) by (simp add: unatSuc add.commute)
      moreover have "updatedrive (dev m') = ?u" using ac_Run_updatedrive r(1) Some by fastforce
      moreover have "unat ?u < 256" using unsigned_less [of ?u] by simp
      ultimately have "256 - unat (updatedrive (dev m')) < 256 - unat (updatedrive (dev m))" by simp
      then show ?thesis using less.hyps r Some loop by simp
    qed
  qed
qed

text \<open>The states in which \<^verbatim>\<open>machine_Run\<close> comes to the head of its polling loop, and one turn of that loop.\<close>

inductive turn :: "u32 \<Rightarrow> machine \<Rightarrow> machine \<Rightarrow> bool" for n m where
  first: "ac_Run n m = Some (Some m1) \<Longrightarrow> turn n m m1"
| again: "turn n m m1 \<Longrightarrow> ad_UpdateFloppyDisk (dev m1) = (True, d) \<Longrightarrow>
    ac_Run 5000 (m1\<lparr>dev := d\<rparr>) = Some (Some m2) \<Longrightarrow> turn n m m2"

lemma floppy_loop_turn:
  "ad_UpdateFloppyDisk (dev m) = (True, d) \<Longrightarrow> floppy_loop m =
    Option.bind (ac_Run 5000 (m\<lparr>dev := d\<rparr>)) (\<lambda>r. case r of None \<Rightarrow> Some None | Some m \<Rightarrow> floppy_loop m)"
  by (subst floppy_loop.simps) simp

lemma turn_returns: "turn n m m1 \<Longrightarrow> machine_Run n m = floppy_loop m1"
  by (induction rule: turn.induct) (simp_all add: machine_Run_def floppy_loop_turn)

text \<open>
  C14. \<^verbatim>\<open>machine_Run\<close> returns exactly when every call of \<^verbatim>\<open>ac_Run\<close> it makes does, the first and the one of each turn of its
  endless loop: the byte counter of \<^verbatim>\<open>ad_UpdateFloppyDisk\<close>, which no program can touch, ends the loop.
  When it returns the motor is off or the counter has wrapped to 0.
\<close>

theorem machine_Run_returns:
  "((\<exists>r. machine_Run n m = Some r) \<longleftrightarrow> ac_Run n m \<noteq> None \<and>
     (\<forall>m1 d. turn n m m1 \<and> ad_UpdateFloppyDisk (dev m1) = (True, d) \<longrightarrow> ac_Run 5000 (m1\<lparr>dev := d\<rparr>) \<noteq> None)) \<and>
   (\<forall>m'. machine_Run n m = Some (Some m') \<longrightarrow> \<not> motorOn (cur (dev m')) \<or> updatedrive (dev m') = 0)"
proof -
  let ?runs = "ac_Run n m \<noteq> None \<and>
    (\<forall>m1 d. turn n m m1 \<and> ad_UpdateFloppyDisk (dev m1) = (True, d) \<longrightarrow> ac_Run 5000 (m1\<lparr>dev := d\<rparr>) \<noteq> None)"
  have runs: "\<exists>r. machine_Run n m = Some r \<and> (\<forall>m'. r = Some m' \<longrightarrow> \<not> motorOn (cur (dev m')) \<or> updatedrive (dev m') = 0)" if ok: ?runs
  proof -
    obtain r where r: "ac_Run n m = Some r" using ok by auto
    show ?thesis
    proof (cases r)
      case (Some m1)
      have "\<exists>r. floppy_loop m1 = Some r \<and> (\<forall>m'. r = Some m' \<longrightarrow> \<not> motorOn (cur (dev m')) \<or> updatedrive (dev m') = 0)"
      proof (rule floppy_loop_returns [of "turn n m"])
        show "turn n m m1" using r Some by (auto intro: turn.first)
        show "\<exists>r. ac_Run 5000 (m'\<lparr>dev := d\<rparr>) = Some r \<and> pred_option (turn n m) r"
          if t: "turn n m m'" "ad_UpdateFloppyDisk (dev m') = (True, d)" for m' d
        proof -
          obtain r where "ac_Run 5000 (m'\<lparr>dev := d\<rparr>) = Some r" using ok t by blast
          with turn.again [OF t] show ?thesis by (cases r) auto
        qed
      qed
      with turn_returns [OF turn.first] r Some show ?thesis by simp
    qed (use r in \<open>simp add: machine_Run_def\<close>)
  qed
  have "?runs" if "machine_Run n m = Some r" for r
  proof -
    have "ac_Run n m \<noteq> None" using that by (cases "ac_Run n m") (simp_all add: machine_Run_def)
    moreover have "ac_Run 5000 (m1\<lparr>dev := d\<rparr>) \<noteq> None" if t: "turn n m m1" "ad_UpdateFloppyDisk (dev m1) = (True, d)" for m1 d
      using turn_returns [OF t(1)] floppy_loop_turn [OF t(2)] \<open>machine_Run n m = Some r\<close>
      by (cases "ac_Run 5000 (m1\<lparr>dev := d\<rparr>)") simp_all
    ultimately show ?thesis by blast
  qed
  with runs show ?thesis by fastforce
qed

text \<open>\<^verbatim>\<open>JMP\<close> to itself with the motor of the drive running.\<close>

definition motor_demo :: "u32 \<Rightarrow> u8 \<Rightarrow> machine" where
  "motor_demo c u = program [JMP_ABS, 0x00, 0x00]\<lparr>cpu := cpu machine_image\<lparr>cycle := c\<rparr>,
     dev := dev_image\<lparr>disk := \<lambda>_. zero_drive\<lparr>motorOn := True\<rparr>, updatedrive := u\<rparr>\<rparr>"

lemma motor_demo_step: "ac_step (motor_demo c u) = Some (motor_demo (c - 2) u)"
  by (simp add: motor_demo_def demo_defs op_JMP_ABS_def)

lemma motor_demo_upd:
  "(motor_demo c u)\<lparr>cpu := cpu (motor_demo c u)\<lparr>cycle := n\<rparr>\<rparr> = motor_demo n u"
  "(motor_demo c u)\<lparr>dev := dev (motor_demo c u)\<lparr>updatedrive := v\<rparr>\<rparr> = motor_demo c v"
  "cycle (cpu (motor_demo c u)) = c"
  by (simp_all add: motor_demo_def)

lemma motor_demo_run: "\<exists>c'. ac_Run n (motor_demo c u) = Some (Some (motor_demo c' u))"
proof -
  let ?P = "\<lambda>m. \<exists>c. m = motor_demo c u"
  have "?P m' \<and> cycle (cpu m') \<noteq> cycle (cpu m)" if "?P m" "ac_step m = Some m'" for m m'
    using that by (auto simp: motor_demo_step motor_demo_upd)
  then obtain r where r: "ac_Run_loop (motor_demo n u) = Some r"
    using loop_returns [of ?P "motor_demo n u"] by blast
  have "\<exists>m'. r = Some m' \<and> ?P m'" by (rule loop_safe [OF _ r]) (auto simp: motor_demo_step)
  with r show ?thesis by (auto simp: ac_Run_def motor_demo_upd)
qed

theorem machine_Run_returns_witness:
  "\<exists>r. machine_Run 3050 (motor_demo 0 0) = Some r \<and>
     (\<forall>m'. r = Some m' \<longrightarrow> \<not> motorOn (cur (dev m')) \<or> updatedrive (dev m') = 0)"
proof -
  have run: "ac_Run k (motor_demo c u) \<noteq> None" for k c u using motor_demo_run [of k c u] by auto
  have poll: "\<exists>v. (motor_demo c u)\<lparr>dev := d\<rparr> = motor_demo c v" if "ad_UpdateFloppyDisk (dev (motor_demo c u)) = (True, d)" for c u d
    using that by (auto simp: ad_UpdateFloppyDisk_def Let_def motor_demo_upd split: if_splits)
  have "\<exists>c u. m1 = motor_demo c u" if "turn 3050 (motor_demo 0 0) m1" for m1
    using that
  proof (induction rule: turn.induct)
    case (first m1)
    then show ?case using motor_demo_run [of 3050 0 0] by auto
  next
    case (again m1 d m2)
    then obtain c u where "m1 = motor_demo c u" by blast
    with poll [of c u d] again(2) obtain v where "m1\<lparr>dev := d\<rparr> = motor_demo c v" by blast
    then show ?case using again(3) motor_demo_run [of 5000 c v] by auto
  qed
  then have "ac_Run 5000 (m1\<lparr>dev := d\<rparr>) \<noteq> None"
    if "turn 3050 (motor_demo 0 0) m1" "ad_UpdateFloppyDisk (dev m1) = (True, d)" for m1 d
    using that poll run by metis
  with machine_Run_returns [of 3050 "motor_demo 0 0"] run show ?thesis by blast
qed

subsection \<open>Power-up\<close>

lemma power_up_result:
  "power_up_bytes m = Some (m\<lparr>mem := mem m\<lparr>ram := (ram (mem m))(0x3F4 := 0, 0x4D := 0xAA, 0xD0 := 0xAA)\<rparr>\<rparr>)"
  by (simp add: power_up_bytes_def RAMSIZE_def)

lemma read_reset_vector:
  "\<not> LCReadable (mem m) \<Longrightarrow> mem_ReadByte 0xFFFC m = Some (rom (mem m) 0x2FFC, m)"
  "\<not> LCReadable (mem m) \<Longrightarrow> mem_ReadByte 0xFFFD m = Some (rom (mem m) 0x2FFD, m)"
  by (simp_all add: read_high ROMSTART_def)

text \<open>What a machine is after \<^verbatim>\<open>machine_Reset\<close>.\<close>

definition booted :: "bytes \<Rightarrow> bytes \<Rightarrow> machine \<Rightarrow> bool" where
  "booted appleIIrom diskII m \<longleftrightarrow>
     PC (cpu m) = mk_word (appleIIrom 0x2FFC) (appleIIrom 0x2FFD) \<and> SP (cpu m) = 0xFD \<and>
     A (cpu m) = 0 \<and> X (cpu m) = 0 \<and> Y (cpu m) = 0 \<and> flag fI m \<and> \<not> flag fD m \<and>
     (\<forall>i < ROMSIZE. rom (mem m) i = appleIIrom i) \<and> (\<forall>i < SL6SIZE. sl6 (mem m) i = diskII i) \<and>
     (\<forall>i < RAMSIZE. ram (mem m) i = (if i = 0x4D \<or> i = 0xD0 then 0xAA else 0)) \<and>
     \<not> LCReadable (mem m) \<and> ad_GetScreenMode (dev m) = TEXT_MODE \<and> page_ok m"

lemma reset_devices [simp]:
  "page_ok (m\<lparr>dev := ad_Reset d\<rparr>)" "ad_GetScreenMode (ad_Reset d) = TEXT_MODE"
  "lores_ready (ad_Reset d)" "hires_ready (ad_Reset d)"
  by (simp_all add: page_ok_def ad_GetScreenMode_def lores_ready_def hires_ready_def ready_line_def ad_Reset_def)

lemma ac_Reboot_result:
  "\<not> LCReadable (mem m) \<Longrightarrow> \<exists>c. ac_Reboot m =
     Some (m\<lparr>cpu := c, mem := (mem m)\<lparr>ram := memset ((ram (mem m))(0x3F4 := 0)) 0 0 RAMSIZE\<rparr>\<rparr>)"
  unfolding ac_Reboot_def
  by (rule exI) (simp add: read_reset_vector set_flag_def mem_ResetRam_def RAMSIZE_def)

lemma ac_Reset_result:
  "\<not> LCReadable (mem m) \<Longrightarrow> ac_Reset m = Some (m\<lparr>cpu := cpu m\<lparr>A := 0, X := 0, Y := 0,
     PS := (PS (cpu m) OR FLAG_INTERRUPT_DISABLE) AND NOT FLAG_DECIMAL_MODE, SP := STACK_POS,
     PC := mk_word (rom (mem m) 0x2FFC) (rom (mem m) 0x2FFD)\<rparr>\<rparr>)"
  by (simp add: ac_Reset_def read_reset_vector)

lemma reset_flags:
  "bit ((p OR FLAG_INTERRUPT_DISABLE) AND NOT FLAG_DECIMAL_MODE) 2" "\<not> bit ((p OR FLAG_INTERRUPT_DISABLE) AND NOT FLAG_DECIMAL_MODE) 3" for p :: u8
proof -
  have "bit FLAG_INTERRUPT_DISABLE 2" "\<not> bit FLAG_DECIMAL_MODE 2" "bit FLAG_DECIMAL_MODE 3"
    unfolding flag_masks by code_simp+
  then show "bit ((p OR FLAG_INTERRUPT_DISABLE) AND NOT FLAG_DECIMAL_MODE) 2" "\<not> bit ((p OR FLAG_INTERRUPT_DISABLE) AND NOT FLAG_DECIMAL_MODE) 3"
    by (simp_all add: bit_simps)
qed

lemma machine_Reset_boots:
  "\<exists>m'. machine_Reset R D m = Some m' \<and> booted R D m' \<and> dev m' = ad_Reset (dev m)"
proof -
  have lc: "\<not> LCReadable (mem (m\<lparr>mem := mem_Reset (mem m)\<rparr>))" by (simp add: mem_Reset_def)
  let ?f = "memset ((ram (mem_Reset (mem m)))(0x3F4 := 0)) 0 0 RAMSIZE"
  obtain c where m1: "ac_Reboot (m\<lparr>mem := mem_Reset (mem m)\<rparr>) =
      Some (m\<lparr>cpu := c, mem := (mem_Reset (mem m))\<lparr>ram := ?f\<rparr>\<rparr>)"
    using ac_Reboot_result [OF lc] by auto
  show ?thesis
    using lc by (simp add: machine_Reset_def m1 power_up_result machine_Booting_def ac_Reset_result booted_def
        memcpy_apply memset_apply size_defs flag_def reset_flags STACK_POS_def page_ok_def ad_Reset_def ad_GetScreenMode_def)
qed

lemma clear_screen:
  "ad_ClearScreen d = Some (d\<lparr>colorbuffer := paint 0 280 0 192 (\<lambda>_ _. 0) (colorbuffer d)\<rparr>)"
  using paint_block [of 0 280 0 192 "\<lambda>_ _. 0" "colorbuffer d"]
  by (simp add: ad_ClearScreen_def upd_buffer_def SCREENSIZE_X_def SCREENSIZE_Y_def)

lemma cleared: "i < 53760 \<Longrightarrow> paint 0 280 0 192 (\<lambda>_ _. v) buf i = v"
  by (simp add: paint_def div_less_iff_less_mult)

lemma drive_ok_inserted: "drive_ok (ad_Reset (snd (ad_InsertFloppy raw 0 d)))"
  by (auto simp: drive_ok_def ad_Reset_def ad_InsertFloppy_def zero_drive_def Let_def less_2_cases_iff)

lemma init_messages:
  "\<exists>k'. message ''[Start Init APPLE2 Machine]'' k = Some k'" "\<exists>k'. message ''[Done APPLE2 Machine]'' k = Some k'"
  by (simp_all add: message_def printf_pieces cstr_def)

lemma machine_InitMachine_result:
  assumes "af_Create (font_tab s) (arena s) = Some (F, h)" and "malloc 53760 h = Some (p, h')" and "p \<noteq> 0"
  shows "\<exists>k d m. machine_InitMachine R D raw s = Some (s\<lparr>kern := k, font_tab := F, arena := h', apple := m\<rparr>) \<and>
    booted R D m \<and> dev m = ad_Reset (snd (ad_InsertFloppy raw 0 d)) \<and> (\<forall>i < 53760. colorbuffer d i = 0)"
proof -
  obtain k1 where k1: "message ''[Start Init APPLE2 Machine]'' (kern s) = Some k1" using init_messages(1) by blast
  obtain k2 where k2: "message ''[Done APPLE2 Machine]'' k1 = Some k2" using init_messages(2) by blast
  obtain m1 where m1: "power_up_bytes ((ac_Init (apple s))\<lparr>mem := mem_Create (mem (ac_Init (apple s))),
      dev := ad_ResetFloppy (dev (ac_Init (apple s)))\<rparr>) = Some m1" by (simp add: power_up_result)
  let ?d = "(ad_Reset (dev m1))\<lparr>colorbuffer := paint 0 280 0 192 (\<lambda>_ _. 0) (\<lambda>i. kbytes h' (unat p + i))\<rparr>"
  let ?e = "snd (ad_InsertFloppy raw 0 ?d)"
  obtain m2 where m2: "machine_Reset R D (m1\<lparr>dev := ?e\<rparr>) = Some m2" "booted R D m2" "dev m2 = ad_Reset ?e"
    using machine_Reset_boots [of R D "m1\<lparr>dev := ?e\<rparr>"] by auto
  have "machine_InitMachine R D raw s = Some (s\<lparr>kern := k2, font_tab := F, arena := h', apple := m2\<rparr>)"
    using assms by (simp add: machine_InitMachine_def on_kern_def on_apple_def ad_Create_def k1 k2 m1 m2(1)
        clear_screen SCREENSIZE_X_def SCREENSIZE_Y_def Let_def)
  moreover have "\<forall>i < 53760. colorbuffer ?d i = 0" by (simp add: cleared)
  ultimately show ?thesis using m2(2,3) by blast
qed

text \<open>
  C15. Power-up: when the font tables and the screen buffer can be allocated, \<^verbatim>\<open>machine_InitMachine\<close> succeeds and the
  machine starts at the ROM's reset vector with cleared registers, decimal mode off and interrupts masked;
  the ROM and the disk PROM hold their images, memory is zero but for the two bytes \<^verbatim>\<open>0xAA\<close>, drive 0 holds
  the disk and is in its invariant, the screen is black, in text mode, and the caches of the renderer can be trusted.
\<close>

theorem machine_InitMachine_boots:
  assumes "af_Create (font_tab s) (arena s) = Some (F, h)" and "malloc 53760 h = Some (p, h')" and "p \<noteq> 0"
  shows "\<exists>s'. machine_InitMachine R D raw s = Some s' \<and> booted R D (apple s') \<and> drive_ok (dev (apple s')) \<and>
    (\<forall>i < DISKSIZE. data (disk (dev (apple s')) 0) i = raw i) \<and> (\<forall>i < 53760. colorbuffer (dev (apple s')) i = 0) \<and>
    lores_ready (dev (apple s')) \<and> hires_ready (dev (apple s')) \<and> font_tab s' = F \<and> arena s' = h'"
proof -
  obtain k d m where m: "machine_InitMachine R D raw s = Some (s\<lparr>kern := k, font_tab := F, arena := h', apple := m\<rparr>)"
    "booted R D m" "dev m = ad_Reset (snd (ad_InsertFloppy raw 0 d))" "\<forall>i < 53760. colorbuffer d i = 0"
    using machine_InitMachine_result [OF assms] by blast
  have "data (disk (dev m) 0) i = raw i" if "i < DISKSIZE" for i
    using that by (simp add: m(3) ad_Reset_def ad_InsertFloppy_def Let_def memcpy_apply)
  moreover have "colorbuffer (dev m) i = 0" if "i < 53760" for i
    using that m(4) by (simp add: m(3) ad_Reset_def ad_InsertFloppy_def Let_def)
  ultimately show ?thesis using m drive_ok_inserted by simp
qed

lemma font_4: "\<exists>h. malloc 53760 (font_heap (hd4 0 0 0x9FFFF0 False) (hd4 0x100000 0 0x9FE3E0 False) (hd4 0x101C10 0 0x9FE050 False)) =
    Some (0x100010, h)"
  by (simp add: font_run)

lemma font_boot: "\<exists>F. af_Create F0 (k_init_mem kmem_image) =
    Some (F, font_heap (hd4 0 0 0x9FFFF0 False) (hd4 0x100000 0 0x9FE3E0 False) (hd4 0x101C10 0 0x9FE050 False))"
proof -
  have again: "malloc 7168 (free 0x100010 (free 0x101C20 (font_heap (hd4 0 0x101C10 7168 True) (hd4 0x100000 0x101FA0 896 True) (hd4 0x101C10 0 0x9FE050 False)))) =
      Some (0x100010, font_heap (hd4 0 0x101C10 7168 True) (hd4 0x100000 0 0x9FE3E0 False) (hd4 0x101C10 0 0x9FE050 False))"
    unfolding font_3 by (rule font_1)
  show ?thesis
    using af_Create_result[OF font_1[of "hd4 0 0 0 False" "hd4 0 0 0 False"] font_2 _ _ again font_2, unfolded font_3]
    by (simp add: font_init)
qed

definition power_off :: system where
  "power_off = \<lparr>kern = demo_kernel, arena = k_init_mem kmem_image,
     font_tab = \<lparr>af_font = (\<lambda>_ _. 0), af_invfont = (\<lambda>_ _. 0)\<rparr>, apple = machine_image\<rparr>"

theorem machine_InitMachine_boots_witness:
  "\<exists>s'. machine_InitMachine (\<lambda>i. if i = 0x2FFD then 0xFF else 0x62) (\<lambda>_. 0) (\<lambda>_. 0xFF) power_off = Some s' \<and>
    PC (cpu (apple s')) = 0xFF62 \<and> data (disk (dev (apple s')) 0) 7 = 0xFF"
proof -
  obtain F where F: "af_Create (font_tab power_off) (arena power_off) = Some (F, font_heap (hd4 0 0 0x9FFFF0 False) (hd4 0x100000 0 0x9FE3E0 False) (hd4 0x101C10 0 0x9FE050 False))"
    using font_boot by (auto simp: power_off_def)
  obtain h where h: "malloc 53760 (font_heap (hd4 0 0 0x9FFFF0 False) (hd4 0x100000 0 0x9FE3E0 False) (hd4 0x101C10 0 0x9FE050 False)) = Some (0x100010, h)"
    using font_4 by blast
  have z: "(0x100010 :: u32) \<noteq> 0" by simp
  have v: "mk_word 0x62 0xFF = 0xFF62" by (simp add: mk_word_def)
  show ?thesis
    using machine_InitMachine_boots [OF F h z, of "\<lambda>i. if i = 0x2FFD then 0xFF else 0x62" "\<lambda>_. 0" "\<lambda>_. 0xFF"]
    by (auto simp: booted_def v DISKSIZE_def)
qed

end
