(* ===== verification/Machine_Contract.thy ===== *)
theory Machine_Contract
  imports Apple_Machine
begin

text \<open>
  What \<^verbatim>\<open>machine_Run\<close> keeps: an extension of the bus contract by the polling of the drive, its
  interpretations, and the states a running machine comes to, with what makes it fault.
\<close>

subsection \<open>The states of a running machine\<close>

text \<open>Instructions are executed one after the other; between two calls of \<^verbatim>\<open>ac_Run\<close> the budget is set again and the drive
  is polled.  Nothing else happens to the machine.\<close>

inductive execution :: "machine \<Rightarrow> machine \<Rightarrow> bool" for m where
  start: "execution m m"
| instruction: "execution m m1 \<Longrightarrow> ac_step m1 = Some m2 \<Longrightarrow> execution m m2"
| budget: "execution m m1 \<Longrightarrow> execution m (m1\<lparr>cpu := cpu m1\<lparr>cycle := n\<rparr>\<rparr>)"
| poll: "execution m m1 \<Longrightarrow> execution m (m1\<lparr>dev := snd (ad_UpdateFloppyDisk (dev m1))\<rparr>)"

lemma execution_run:
  assumes "execution m m1" and "ac_Run n m1 = Some r"
  shows "(\<forall>m2. r = Some m2 \<longrightarrow> execution m m2) \<and> (r = None \<longrightarrow> (\<exists>m'. execution m m' \<and> ac_step m' = None))"
proof -
  have e: "execution m (m1\<lparr>cpu := cpu m1\<lparr>cycle := n\<rparr>\<rparr>)" by (rule execution.budget [OF assms(1)])
  have "pred_option (execution m) r"
    using assms(2) e unfolding ac_Run_def by (intro loop_keeps [of "execution m"]) (auto intro: execution.instruction)
  moreover have "\<exists>m'. execution m m' \<and> ac_step m' = None" if "r = None"
    using assms(2) e that unfolding ac_Run_def by (intro loop_faults [of "execution m"]) (auto intro: execution.instruction)
  ultimately show ?thesis by auto
qed

lemma turn_execution: "turn n m m1 \<Longrightarrow> execution m m1"
proof (induction rule: turn.induct)
  case (first m1)
  then show ?case using execution_run [OF execution.start] by blast
next
  case (again m1 d m2)
  have "execution m (m1\<lparr>dev := d\<rparr>)" using execution.poll [OF again.IH] again(2) by simp
  with again(3) show ?case using execution_run by blast
qed

text \<open>A loop of polls that ends has come to a turn after which it stops, or to one whose run faults.\<close>

lemma floppy_loop_ends:
  assumes "floppy_loop m1 = Some r"
  shows "turn n m m1 \<Longrightarrow>
    (\<exists>m2. turn n m m2 \<and> r = Some (m2\<lparr>dev := snd (ad_UpdateFloppyDisk (dev m2))\<rparr>)) \<or>
    (r = None \<and> (\<exists>m2 d. turn n m m2 \<and> ad_UpdateFloppyDisk (dev m2) = (True, d) \<and> ac_Run 5000 (m2\<lparr>dev := d\<rparr>) = Some None))"
proof (rule floppy_loop.raw_induct [where P = "\<lambda>m1 r. turn n m m1 \<longrightarrow>
    (\<exists>m2. turn n m m2 \<and> r = Some (m2\<lparr>dev := snd (ad_UpdateFloppyDisk (dev m2))\<rparr>)) \<or>
    (r = None \<and> (\<exists>m2 d. turn n m m2 \<and> ad_UpdateFloppyDisk (dev m2) = (True, d) \<and> ac_Run 5000 (m2\<lparr>dev := d\<rparr>) = Some None))",
    OF _ assms, rule_format])
  fix loop m1 r
  assume IH: "\<And>m1 r. loop m1 = Some r \<Longrightarrow> turn n m m1 \<Longrightarrow>
      (\<exists>m2. turn n m m2 \<and> r = Some (m2\<lparr>dev := snd (ad_UpdateFloppyDisk (dev m2))\<rparr>)) \<or>
      (r = None \<and> (\<exists>m2 d. turn n m m2 \<and> ad_UpdateFloppyDisk (dev m2) = (True, d) \<and> ac_Run 5000 (m2\<lparr>dev := d\<rparr>) = Some None))"
    and eq: "(let (busy, d) = ad_UpdateFloppyDisk (dev m1); m = m1\<lparr>dev := d\<rparr> in
      if \<not> busy then Some (Some m)
      else Option.bind (ac_Run 5000 m) (\<lambda>r. case r of None \<Rightarrow> Some None | Some m \<Rightarrow> loop m)) = Some r"
    and t: "turn n m m1"
  obtain busy d where d: "ad_UpdateFloppyDisk (dev m1) = (busy, d)" by fastforce
  show "(\<exists>m2. turn n m m2 \<and> r = Some (m2\<lparr>dev := snd (ad_UpdateFloppyDisk (dev m2))\<rparr>)) \<or>
      (r = None \<and> (\<exists>m2 d. turn n m m2 \<and> ad_UpdateFloppyDisk (dev m2) = (True, d) \<and> ac_Run 5000 (m2\<lparr>dev := d\<rparr>) = Some None))"
  proof (cases busy)
    case False
    with eq t d show ?thesis by (auto intro!: exI [of _ m1])
  next
    case True
    with eq d obtain r1 where r1: "ac_Run 5000 (m1\<lparr>dev := d\<rparr>) = Some r1"
      "(case r1 of None \<Rightarrow> Some None | Some m \<Rightarrow> loop m) = Some r" by (auto simp: bind_eq_Some_conv)
    show ?thesis
    proof (cases r1)
      case None
      with t d True r1 show ?thesis by auto
    next
      case (Some m2)
      then have "turn n m m2" "loop m2 = Some r" using t d True r1 by (auto intro: turn.again)
      with IH show ?thesis by blast
    qed
  qed
qed

text \<open>A machine that faults has come to an instruction that faults.\<close>

lemma machine_Run_faults:
  assumes "machine_Run n m = Some None"
  shows "\<exists>m'. execution m m' \<and> ac_step m' = None"
proof -
  obtain r1 where r1: "ac_Run n m = Some r1" "(case r1 of None \<Rightarrow> Some None | Some m \<Rightarrow> floppy_loop m) = Some None"
    using assms by (auto simp: machine_Run_def bind_eq_Some_conv)
  show ?thesis
  proof (cases r1)
    case None
    with r1 execution_run [OF execution.start] show ?thesis by blast
  next
    case (Some m1)
    then have "turn n m m1" "floppy_loop m1 = Some None" using r1 by (auto intro: turn.first)
    then obtain m2 d where t: "turn n m m2" "ad_UpdateFloppyDisk (dev m2) = (True, d)" "ac_Run 5000 (m2\<lparr>dev := d\<rparr>) = Some None"
      using floppy_loop_ends [of m1 None n m] by auto
    have "execution m (m2\<lparr>dev := d\<rparr>)" using execution.poll [OF turn_execution [OF t(1)]] t(2) by simp
    with t(3) execution_run show ?thesis by blast
  qed
qed

subsection \<open>What a run of the machine keeps\<close>

text \<open>The contract of the bus carries over to \<^verbatim>\<open>machine_Run\<close> when it allows for the polling of the drive.\<close>

locale machine_contract = bus_contract +
  assumes Q_poll: "Q m (m\<lparr>dev := dev m\<lparr>updatedrive := u\<rparr>\<rparr>)"
begin

lemma keeps_poll: "Q m (m\<lparr>dev := snd (ad_UpdateFloppyDisk (dev m))\<rparr>)"
  using Q_poll [of m "updatedrive (dev m) + 1"] Q_refl [of m] by (simp add: ad_UpdateFloppyDisk_def Let_def)

lemma keeps_execution: "execution m m' \<Longrightarrow> Q m m'"
proof (induction rule: execution.induct)
  case (budget m1 n)
  then show ?case using Q_trans Q_cpu by simp
qed (auto intro: Q_refl Q_trans keeps_ac_step keeps_poll)

theorem keeps_machine_Run:
  assumes "machine_Run n m = Some (Some m')"
  shows "Q m m'"
proof -
  obtain m1 where m1: "ac_Run n m = Some (Some m1)" "floppy_loop m1 = Some (Some m')"
    using assms by (auto simp: machine_Run_def bind_eq_Some_conv split: option.splits)
  then obtain m2 where m2: "turn n m m2" "m' = m2\<lparr>dev := snd (ad_UpdateFloppyDisk (dev m2))\<rparr>"
    using floppy_loop_ends [OF m1(2) turn.first] by blast
  then show ?thesis using keeps_execution [OF turn_execution] keeps_poll Q_trans by blast
qed

end

interpretation romm: machine_contract same_rom
  by unfold_locales (simp add: same_rom_def)

interpretation drvm: machine_contract keeps_drive
  by unfold_locales (simp add: keeps_drive_def drive_ok_def)

definition keeps_page :: "machine \<Rightarrow> machine \<Rightarrow> bool" where
  "keeps_page m m' \<longleftrightarrow> pixelGR (dev m') = pixelGR (dev m) \<and> previousBit (dev m') = previousBit (dev m) \<and>
     flashCycle (dev m') = flashCycle (dev m) \<and> (page_ok m \<longrightarrow> page_ok m')"

lemma same_video_page: "same_video m m' \<Longrightarrow> keeps_page m m'"
  by (simp add: same_video_def keeps_page_def)

interpretation pagem: machine_contract keeps_page
proof
  show "keeps_page m m'" if "mem_ReadByte a m = Some (v, m')" for m m' a v
    using same_video_page [OF same_video_read [OF that]] .
  show "keeps_page m m'" if "mem_WriteByte a v m = Some m'" for m m' a v
    using same_video_page [OF same_video_write [OF that]] .
qed (auto simp: keeps_page_def, auto simp: page_ok_def)

text \<open>Why a machine faults: it has executed its way to one of the eight instructions that cannot be executed, or to one
  at which a head is near the end of the image.\<close>

lemma machine_Run_fault_cause:
  assumes "machine_Run n m = Some None" and "drive_ok (dev m)"
  shows "\<exists>m'. execution m m' \<and> ac_step m' = None \<and> drive_ok (dev m') \<and> (at_indx m' \<or> (\<exists>c < 2. 29 \<le> head_track (dev m') c))"
proof -
  obtain m' where m': "execution m m'" "ac_step m' = None" using machine_Run_faults [OF assms(1)] by blast
  have "drive_ok (dev m')" using drvm.keeps_execution [OF m'(1)] assms(2) by (simp add: keeps_drive_def)
  with m' step_fault_cause show ?thesis by blast
qed

end
