(* ===== verification/Apple_Frame.thy ===== *)
theory Apple_Frame
  imports Apple_Hires
begin

text \<open>
  Frames in every display mode, mixed modes included.  A frame never faults: whatever the caches hold,
  \<^verbatim>\<open>ad_Render\<close> stays inside its arrays and changes only what belongs to the display.  When the flash counter is 0 it
  redraws everything, and the colour buffer shows the picture of the memory; between two refreshes it can be stale.
\<close>

definition shown :: "machine \<Rightarrow> machine \<Rightarrow> bool" where
  "shown m t \<longleftrightarrow> same_rest m t \<and> rwidth (pixelGR (dev t)) = 7 \<and> rheight (pixelGR (dev t)) = 4 \<and>
     (\<forall>l. previousBit (dev t) l 0 = previousBit (dev m) l 0)"

definition at_page :: "machine \<Rightarrow> u16 \<Rightarrow> machine \<Rightarrow> bool" where
  "at_page m k t \<longleftrightarrow> shown m t \<and> videoAddress (dev t) = ucast (videoPage (dev m)) * k"

lemma shown_page: "shown m t \<Longrightarrow> page_ok t = page_ok m"
  by (auto simp: shown_def page_ok_def same_restD)

lemma lores_cell_total:
  assumes "page_ok m" "col < 40" "line < 24" and t: "at_page m 0x0400 t" "rx (pixelGR (dev t)) = int (col * 7)"
  shows "ends (\<lambda>u. at_page m 0x0400 u \<and> rx (pixelGR (dev u)) = int (col * 7)) (lores_cell col line t)"
proof -
  define n where "n = upd_dev (\<lambda>d. d\<lparr>pixelGR := (pixelGR d)\<lparr>ry := int line * 8\<rparr>\<rparr>) t"
  have n: "at_page m 0x0400 n" using t(1) by (simp add: at_page_def shown_def same_rest_def n_def)
  then have s: "shown m n" by (simp add: at_page_def)
  have read: "mem_ReadByte (videoAddress (dev n) + offsetGR ! line + of_nat col) n = Some (gr_byte n col line, n)"
    using shown_page[OF s] assms(1-3) n s by (intro gr_read) (auto simp: at_page_def shown_def same_restD)
  have px: "rx (pixelGR (dev n)) = int (col * 7)" "ry (pixelGR (dev n)) = int (line * 8)"
    "rwidth (pixelGR (dev n)) = int 7" "rheight (pixelGR (dev n)) = int 4"
    using t by (simp_all add: n_def at_page_def shown_def)
  have d1: "ad_DrawRectIndex (pixelGR (dev n)) v d =
      Some (d\<lparr>colorbuffer := paint (col * 7) 7 (line * 8) 4 (\<lambda>_ _. v) (colorbuffer d)\<rparr>)" for v d
    by (rule draw_rect) (use px assms(2,3) in auto)
  have d2: "ad_DrawRectIndex (pixelGR (dev n)\<lparr>ry := int line * 8 + 4\<rparr>) v d =
      Some (d\<lparr>colorbuffer := paint (col * 7) 7 (line * 8 + 4) 4 (\<lambda>_ _. v) (colorbuffer d)\<rparr>)" for v d
    by (rule draw_rect) (use px assms(2,3) in auto)
  show ?thesis
    unfolding lores_cell_def Let_def n_def[symmetric] read
    using n px by (simp add: on_dev_def d1 d2 at_page_def shown_def same_rest_def)
qed

lemma render_lores_total:
  assumes "page_ok m" "shown m m"
  shows "ends (shown m) (render_lores m)"
proof -
  let ?L = "if mixedMode (dev m) then 20 else 24 :: nat"
  let ?m = "upd_dev (\<lambda>d. d\<lparr>videoAddress := ucast (videoPage d) * 0x0400\<rparr>) m"
  have "ends (at_page m 0x0400) (for_range 0 40 (\<lambda>col m. do {
       let m = upd_dev (\<lambda>d. d\<lparr>pixelGR := (pixelGR d)\<lparr>rx := int col * 7\<rparr>\<rparr>) m;
       for_range 0 (if mixedMode (dev m) then 20 else 24) (lores_cell col) m }) ?m)"
  proof (rule for_range_ends[where I = "\<lambda>_. at_page m 0x0400"])
    show "at_page m 0x0400 ?m" using assms(2) by (simp add: at_page_def shown_def same_rest_def)
    fix col :: nat and s assume col: "col < 40" and s: "at_page m 0x0400 s"
    let ?s = "upd_dev (\<lambda>d. d\<lparr>pixelGR := (pixelGR d)\<lparr>rx := int col * 7\<rparr>\<rparr>) s"
    have mix: "mixedMode (dev ?s) = mixedMode (dev m)" using s by (simp add: at_page_def shown_def same_restD)
    have "ends (\<lambda>t. at_page m 0x0400 t \<and> rx (pixelGR (dev t)) = int (col * 7)) (for_range 0 ?L (lores_cell col) ?s)"
    proof (rule for_range_ends[where I = "\<lambda>_ t. at_page m 0x0400 t \<and> rx (pixelGR (dev t)) = int (col * 7)"])
      show "at_page m 0x0400 ?s \<and> rx (pixelGR (dev ?s)) = int (col * 7)"
        using s by (simp add: at_page_def shown_def same_rest_def)
    qed (use lores_cell_total[OF assms(1) col] in \<open>simp_all split: if_splits\<close>)
    then show "ends (at_page m 0x0400) (do {
       let m = ?s; for_range 0 (if mixedMode (dev m) then 20 else 24) (lores_cell col) m })"
      unfolding Let_def mix by (auto elim!: ends_mono)
  qed simp
  then show ?thesis by (auto simp: render_lores_def at_page_def elim!: ends_mono)
qed

lemma hires_group_total:
  assumes "page_ok m" "line < 192" "k < 20" "at_page m 0x2000 t"
  shows "ends (at_page m 0x2000) (hires_group line (2 * k) t)"
proof -
  have s: "shown m t" and va: "videoAddress (dev t) = ucast (videoPage (dev t)) * 0x2000"
    using assms(4) by (auto simp: at_page_def shown_def same_restD)
  have "at_page m 0x2000 (t\<lparr>dev := redraw t line k (dev t)\<rparr>)"
    using assms(4) by (simp add: at_page_def shown_def same_rest_def no_video_redraw) (simp add: redraw_def set_previous_def)
  then show ?thesis
    using hires_group_cases[OF _ va assms(2,3)] shown_page[OF s] assms(1,4) by simp
qed

lemma render_hires_total:
  assumes "page_ok m" "shown m m"
  shows "ends (shown m) (render_hires m)"
proof -
  let ?N = "if mixedMode (dev m) then 160 else 192 :: nat"
  let ?m = "upd_dev (\<lambda>d. d\<lparr>videoAddress := ucast (videoPage d) * 0x2000\<rparr>) m"
  have "ends (at_page m 0x2000) (for_range 0 ?N (\<lambda>line. for_range 0 20 (\<lambda>k. hires_group line (2 * k))) ?m)"
  proof (rule for_range_ends[where I = "\<lambda>_. at_page m 0x2000"])
    show "at_page m 0x2000 ?m" using assms(2) by (simp add: at_page_def shown_def same_rest_def)
    fix line :: nat and s assume "line < ?N" and s: "at_page m 0x2000 s"
    then have "line < 192" by (simp split: if_splits)
    with hires_group_total[OF assms(1)] s
    show "ends (at_page m 0x2000) (for_range 0 20 (\<lambda>k. hires_group line (2 * k)) s)"
      by (intro for_range_ends[where I = "\<lambda>_. at_page m 0x2000"]) simp_all
  qed simp
  then show ?thesis by (auto simp: render_hires_def at_page_def elim!: ends_mono)
qed

lemma render_text_total:
  assumes "page_ok m" "shown m m"
  shows "ends (shown m) (render_text F frame m)"
  using assms(2) by (simp add: render_text_tile[OF assms(1)] shown_def same_rest_def with_buffer_def)

text \<open>What a frame leaves alone: registers, memory, and every device but the display.\<close>

definition frame_rest :: "machine \<Rightarrow> machine \<Rightarrow> bool" where
  "frame_rest m m' \<longleftrightarrow> cpu m' = cpu m \<and> mem m' = mem m \<and>
     no_video ((dev m')\<lparr>flashCycle := 0\<rparr>) = no_video ((dev m)\<lparr>flashCycle := 0\<rparr>)"

lemma shown_flash: "shown m t \<Longrightarrow> frame_rest m (upd_dev next_flash t) \<and>
    rwidth (pixelGR (next_flash (dev t))) = 7 \<and> rheight (pixelGR (next_flash (dev t))) = 4 \<and>
    (\<forall>l. previousBit (next_flash (dev t)) l 0 = previousBit (dev m) l 0) \<and>
    flashCycle (next_flash (dev t)) = (if flashCycle (dev m) = 29 then 0 else flashCycle (dev m) + 1)"
proof -
  assume s: "shown m t"
  have "(f + 1 = 30) = (f = 29)" for f :: u8 using eq_diff_eq [of f 30 1] by simp
  then have "flashCycle (next_flash d) = (if flashCycle d = 29 then 0 else flashCycle d + 1)" for d
    by (simp add: next_flash_def Let_def)
  moreover have "flashCycle (dev t) = flashCycle (dev m)" using s by (simp add: shown_def same_restD)
  moreover have "no_video (d\<lparr>flashCycle := 0\<rparr>) = (no_video d)\<lparr>flashCycle := 0\<rparr>" for d by (simp add: no_video_def)
  moreover have "(next_flash d)\<lparr>flashCycle := 0\<rparr> = d\<lparr>flashCycle := 0\<rparr>" for d by (simp add: next_flash_def Let_def)
  ultimately show ?thesis using s by (simp add: shown_def same_rest_def frame_rest_def)
qed

lemma ad_Render_total:
  assumes "page_ok m" and "rwidth (pixelGR (dev m)) = 7" and "rheight (pixelGR (dev m)) = 4"
  shows "\<exists>m'. ad_Render F frame m = Some m' \<and> frame_rest m m' \<and>
    rwidth (pixelGR (dev m')) = 7 \<and> rheight (pixelGR (dev m')) = 4 \<and>
    (\<forall>l. previousBit (dev m') l 0 = previousBit (dev m) l 0) \<and>
    flashCycle (dev m') = (if flashCycle (dev m) = 29 then 0 else flashCycle (dev m) + 1)"
proof -
  have m: "shown m m" using assms(2,3) by (simp add: shown_def)
  let ?g = "if ad_GetScreenMode (dev m) = TEXT_MODE then Some m
    else if \<not> hires_Mode (dev m) then render_lores m else render_hires m"
  have "ends (shown m) ?g"
    using m render_lores_total[OF assms(1) m] render_hires_total[OF assms(1) m] by simp
  then obtain t where t: "?g = Some t" "shown m t" by (auto simp: ends_iff)
  have "ends (shown m) (render_text F frame t)"
    using render_text_total[of t F frame] t(2) shown_page[OF t(2)] assms(1)
    by (auto simp: shown_def same_rest_def elim!: ends_mono)
  then obtain u where u: "render_text F frame t = Some u" "shown m u" by (auto simp: ends_iff)
  have "ad_Render F frame m = Some (upd_dev next_flash t) \<or> ad_Render F frame m = Some (upd_dev next_flash u)"
    using t(1) u(1) unfolding ad_Render_def
    by (auto simp: mode_nums ad_GetScreenMode_def split: if_splits)
  then show ?thesis using shown_flash[OF t(2)] shown_flash[OF u(2)] by auto
qed

subsection \<open>The picture\<close>

text \<open>What the screen should show: text where the mode has text, else the graphics of the selected resolution.\<close>

definition screen_pixel :: "fonts \<Rightarrow> int \<Rightarrow> machine \<Rightarrow> nat \<Rightarrow> nat \<Rightarrow> u8" where
  "screen_pixel F frame m x y =
     (if textMode (dev m) \<or> mixedMode (dev m) \<and> 160 \<le> y
      then text_pixel F frame (gr_byte m (x div 7) (y div 8)) (x mod 7) (y mod 8)
      else if hires_Mode (dev m) then hires_color m x y
      else lores_color (gr_byte m (x div 7) (y div 8)) (x mod 7) (y mod 8))"

lemma screen_pixel_cong:
  assumes "mem m' = mem m" and "videoPage (dev m') = videoPage (dev m)" and "textMode (dev m') = textMode (dev m)"
    and "mixedMode (dev m') = mixedMode (dev m)" and "hires_Mode (dev m') = hires_Mode (dev m)"
  shows "screen_pixel F frame m' = screen_pixel F frame m"
proof -
  have "gr_byte m' = gr_byte m" "hgr_byte m' = hgr_byte m"
    using assms(1,2) by (simp_all add: fun_eq_iff gr_byte_def hgr_byte_def)
  then show ?thesis using assms(3-5) by (simp add: fun_eq_iff screen_pixel_def hires_color_def lit_def)
qed

lemma lores_stage:
  assumes "page_ok m" and "lores_ready (dev m)"
  shows "ends (\<lambda>t. same_rest m t \<and> (\<forall>x < 280. \<forall>y < (if mixedMode (dev m) then 160 else 192).
      colorbuffer (dev t) (y * 280 + x) = lores_color (gr_byte m (x div 7) (y div 8)) (x mod 7) (y mod 8)))
    (render_lores m)"
proof (rule ends_mono [OF render_lores_upto [OF assms]])
  fix t assume t: "lores_upto m (\<lambda>c l. c < 40 \<and> l < (if mixedMode (dev m) then 20 else 24)) t"
  have "x div 7 < 40" "y div 8 < (if mixedMode (dev m) then 20 else 24)"
    if "x < 280" "y < (if mixedMode (dev m) then 160 else 192)" for x y :: nat
    using that by (simp_all add: less_mult_imp_div_less split: if_splits)
  with t show "same_rest m t \<and> (\<forall>x < 280. \<forall>y < (if mixedMode (dev m) then 160 else 192).
      colorbuffer (dev t) (y * 280 + x) = lores_color (gr_byte m (x div 7) (y div 8)) (x mod 7) (y mod 8))"
    by (simp add: lores_upto_def tile_at)
qed

lemma hires_stage:
  assumes "page_ok m" and "hires_ready (dev m)"
  shows "ends (\<lambda>t. same_rest m t \<and> (\<forall>x < 280. \<forall>y < (if mixedMode (dev m) then 160 else 192).
      colorbuffer (dev t) (y * 280 + x) = hires_color m x y)) (render_hires m)"
proof -
  let ?N = "if mixedMode (dev m) then 160 else 192 :: nat"
  have r: "render_hires m = for_range 0 ?N (\<lambda>line. for_range 0 20 (\<lambda>k. hires_group line (2 * k)))
      (upd_dev (\<lambda>d. d\<lparr>videoAddress := ucast (videoPage d) * 0x2000\<rparr>) m)" by (simp add: render_hires_def)
  have "ends (\<lambda>t. in_hires m t \<and> (\<forall>line < ?N. line_done m line (dev t))) (render_hires m)"
    unfolding r by (rule hires_lines [OF assms]) simp
  then show ?thesis by (rule ends_mono) (auto simp: in_hires_def line_done_def line_pixel_color)
qed

lemma text_stage:
  assumes "page_ok m" and "same_rest m t"
  shows "\<exists>u. render_text F frame t = Some u \<and> same_rest m u \<and> (\<forall>x < 280. \<forall>y < 192.
    colorbuffer (dev u) (y * 280 + x) = (if textMode (dev m) \<or> 160 \<le> y
      then text_pixel F frame (gr_byte m (x div 7) (y div 8)) (x mod 7) (y mod 8) else colorbuffer (dev t) (y * 280 + x)))"
proof -
  have g: "gr_byte t = gr_byte m" "page_ok t" "textMode (dev t) = textMode (dev m)"
    using assms by (auto simp: fun_eq_iff gr_byte_def page_ok_def same_restD)
  have c: "x div 7 < 40" "y div 8 < 24" "20 \<le> y div 8 \<longleftrightarrow> 160 \<le> y" if "x < 280" "y < 192" for x y :: nat
    using that by (auto simp: less_mult_imp_div_less less_eq_div_iff_mult_less_eq)
  show ?thesis
    unfolding render_text_tile [OF g(2)] g
    using assms(2) c by (simp add: same_rest_def with_buffer_def tile_at)
qed

lemma ad_Render_picture:
  assumes "page_ok m" and "lores_ready (dev m)" and "hires_ready (dev m)"
  shows "\<exists>m'. ad_Render F frame m = Some m' \<and>
    (\<forall>x < 280. \<forall>y < 192. colorbuffer (dev m') (y * 280 + x) = screen_pixel F frame m x y)"
proof -
  let ?g = "if ad_GetScreenMode (dev m) = TEXT_MODE then Some m
    else if \<not> hires_Mode (dev m) then render_lores m else render_hires m"
  have "ends (\<lambda>t. same_rest m t \<and> (\<not> textMode (dev m) \<longrightarrow> (\<forall>x < 280. \<forall>y < (if mixedMode (dev m) then 160 else 192).
      colorbuffer (dev t) (y * 280 + x) = screen_pixel F frame m x y))) ?g"
    using lores_stage [OF assms(1,2)] hires_stage [OF assms(1,3)]
    by (auto simp: mode_cases screen_pixel_def elim!: ends_mono)
  then obtain t where t: "?g = Some t" "same_rest m t" "\<And>x y. \<not> textMode (dev m) \<Longrightarrow> x < 280 \<Longrightarrow>
      y < (if mixedMode (dev m) then 160 else 192) \<Longrightarrow> colorbuffer (dev t) (y * 280 + x) = screen_pixel F frame m x y"
    by (auto simp: ends_iff)
  obtain u where u: "render_text F frame t = Some u" "\<And>x y. x < 280 \<Longrightarrow> y < 192 \<Longrightarrow>
      colorbuffer (dev u) (y * 280 + x) = (if textMode (dev m) \<or> 160 \<le> y
      then text_pixel F frame (gr_byte m (x div 7) (y div 8)) (x mod 7) (y mod 8) else colorbuffer (dev t) (y * 280 + x))"
    using text_stage [OF assms(1) t(2)] by blast
  show ?thesis
  proof (cases "textMode (dev m) \<or> mixedMode (dev m)")
    case True
    then have "ad_Render F frame m = Some (upd_dev next_flash u)"
      using t(1) u(1) unfolding ad_Render_def by (auto simp: mode_nums ad_GetScreenMode_def split: if_splits)
    moreover have "colorbuffer (dev u) (y * 280 + x) = screen_pixel F frame m x y" if "x < 280" "y < 192" for x y
      using u(2) [OF that] t(3) [of x y] True that by (auto simp: screen_pixel_def)
    ultimately show ?thesis by simp
  next
    case False
    then have "ad_Render F frame m = Some (upd_dev next_flash t)"
      using t(1) unfolding ad_Render_def by (auto simp: mode_nums ad_GetScreenMode_def split: if_splits)
    with False t(3) show ?thesis by simp
  qed
qed

subsection \<open>Stale frames\<close>

text \<open>
  Between two refreshes the caches are believed even when another mode has drawn over the screen: a low-resolution
  frame whose cached bytes agree with the memory draws nothing, and the old picture, for instance a page of text,
  stays until the flash counter is back at 0.
\<close>

definition lores_cached :: "machine \<Rightarrow> machine \<Rightarrow> bool" where
  "lores_cached m t \<longleftrightarrow> same_rest m t \<and> videoAddress (dev t) = ucast (videoPage (dev m)) * 0x0400 \<and>
     LoResCache (dev t) = LoResCache (dev m) \<and> colorbuffer (dev t) = colorbuffer (dev m)"

lemma lores_cell_cached:
  assumes "page_ok m" and "flashCycle (dev m) \<noteq> 0" and "col < 40" and "line < 24"
    and "LoResCache (dev m) line col = int (unat (gr_byte m col line))" and t: "lores_cached m t"
  shows "ends (lores_cached m) (lores_cell col line t)"
proof -
  define n where "n = upd_dev (\<lambda>d. d\<lparr>pixelGR := (pixelGR d)\<lparr>ry := int line * 8\<rparr>\<rparr>) t"
  have n: "lores_cached m n" using t by (simp add: lores_cached_def same_rest_def n_def)
  then have r: "same_rest m n" by (simp add: lores_cached_def)
  note rD = same_restD [OF r]
  have "gr_byte n = gr_byte m" by (simp add: gr_byte_def fun_eq_iff rD)
  moreover have "mem_ReadByte (videoAddress (dev n) + offsetGR ! line + of_nat col) n = Some (gr_byte n col line, n)"
    using assms(1,3,4) n by (intro gr_read) (auto simp: lores_cached_def page_ok_def rD)
  ultimately show ?thesis
    unfolding lores_cell_def Let_def n_def [symmetric] using n assms(2,5) by (simp add: lores_cached_def rD)
qed

theorem lores_frame_stale:
  assumes "page_ok m" and "ad_GetScreenMode (dev m) = LORES_MODE" and "flashCycle (dev m) \<noteq> 0"
    and cache: "\<forall>line < 24. \<forall>col < 40. LoResCache (dev m) line col = int (unat (gr_byte m col line))"
  shows "\<exists>m'. ad_Render F frame m = Some m' \<and> colorbuffer (dev m') = colorbuffer (dev m)"
proof -
  have mix: "\<not> mixedMode (dev m)" using assms(2) by (simp add: mode_cases)
  let ?m = "upd_dev (\<lambda>d. d\<lparr>videoAddress := ucast (videoPage d) * 0x0400\<rparr>) m"
  have "ends (lores_cached m) (for_range 0 40 (\<lambda>col m. do {
       let m = upd_dev (\<lambda>d. d\<lparr>pixelGR := (pixelGR d)\<lparr>rx := int col * 7\<rparr>\<rparr>) m;
       for_range 0 (if mixedMode (dev m) then 20 else 24) (lores_cell col) m }) ?m)"
  proof (rule for_range_ends [where I = "\<lambda>_. lores_cached m"])
    show "lores_cached m ?m" by (simp add: lores_cached_def same_rest_def)
    fix col :: nat and s assume col: "col < 40" and s: "lores_cached m s"
    let ?s = "upd_dev (\<lambda>d. d\<lparr>pixelGR := (pixelGR d)\<lparr>rx := int col * 7\<rparr>\<rparr>) s"
    have "\<not> mixedMode (dev ?s)" using s mix by (auto simp: lores_cached_def same_restD)
    moreover have "lores_cached m ?s" using s by (simp add: lores_cached_def same_rest_def)
    then have "ends (lores_cached m) (for_range 0 24 (lores_cell col) ?s)"
      using lores_cell_cached [OF assms(1,3) col] cache col
      by (intro for_range_ends [where I = "\<lambda>_. lores_cached m"]) simp_all
    ultimately show "ends (lores_cached m) (do {
       let m = ?s; for_range 0 (if mixedMode (dev m) then 20 else 24) (lores_cell col) m })"
      unfolding Let_def by simp
  qed simp
  then have "ends (lores_cached m) (render_lores m)" by (simp add: render_lores_def)
  then show ?thesis by (auto simp: ad_Render_cases(1) [OF assms(2)] ends_iff lores_cached_def)
qed

end
