(* ===== verification/Kernel.thy ===== *)
theory Kernel
  imports Machine_Contract Apple_Frame
begin

text \<open>
  \<^verbatim>\<open>Src/kernel.c\<close>: the start of the kernel and its main loop, the composition of console, interrupts,
  clock, allocator and emulated machine.  What the assembly and the hardware contribute is the record
  \<open>platform\<close>: the addresses of the entry stubs, of the descriptor table and of the timer handler, the
  meaning of a handler's address, the registers of a timer interrupt, \<open>early\<close>, how many timer
  interrupts have arrived when the kernel takes its random seed from the clock, and \<open>due i\<close>, how many
  more when \<^verbatim>\<open>k_sleep\<close> reads the clock for the \<open>i\<close>-th time.  As for \<^verbatim>\<open>machine_Run\<close>,
  \<open>None\<close> is a call that does not return and \<open>Some None\<close> one that leaves an array.
\<close>

record platform =
  isr_stub :: "nat \<Rightarrow> u32"
  irq_stub :: "nat \<Rightarrow> u32"
  idt_address :: u32
  timer_address :: u32
  handler_code :: "u32 \<Rightarrow> registers_t \<Rightarrow> kernel \<Rightarrow> kernel"
  timer_regs :: registers_t
  early :: nat
  due :: "nat \<Rightarrow> nat"

record os = system +
  frame :: int

definition TARGET_FRAME :: int where "TARGET_FRAME = 60"
definition COLOR_BLACK :: u8 where "COLOR_BLACK = 0"
definition COLOR_WHITE :: u8 where "COLOR_WHITE = 15"

subsection \<open>Operations\<close>

text \<open>\<^verbatim>\<open>k_sleep\<close> while timer interrupts arrive.\<close>

definition sleep_on :: "platform \<Rightarrow> u32 \<Rightarrow> kernel \<Rightarrow> kernel option option" where
  "sleep_on P waitticks k =
     (let seen = (\<lambda>i. irqs (handler_code P) (timer_regs P) (due P i) k);
          tick = (\<lambda>i. case seen i of None \<Rightarrow> 0 | Some k \<Rightarrow> global_tick k)
      in map_option seen (k_sleep tick waitticks))"

text \<open>\<^verbatim>\<open>k_init_mem\<close> with its message.\<close>

definition init_memory :: "kernel \<Rightarrow> kmem \<Rightarrow> (kernel \<times> kmem) option" where
  "init_memory k h =
     (if head h \<noteq> 0 \<or> MAX_MEM_SIZE < header_len then Some (k, h)
      else map_option (\<lambda>k. (k, k_init_mem h))
        (printf (\<lambda>_. []) (cstr ''[INIT MEMORY] %d KB'' @ [10]) (\<lambda>_. MAX_MEM_SIZE div 1024) k))"

definition init_kernel :: "platform \<Rightarrow> os \<Rightarrow> os option option" where
  "init_kernel P s =
     (let k = console_init COLOR_WHITE COLOR_BLACK (kern s);
          k = console_clear COLOR_WHITE COLOR_BLACK k;
          started = (do {
            k \<leftarrow> k_init_isr (isr_stub P) (irq_stub P) (idt_address P) k;
            k \<leftarrow> k_init_timer (timer_address P) 500 k;
            (k, h) \<leftarrow> init_memory k (arena s);
            k \<leftarrow> irqs (handler_code P) (timer_regs P) (early P) k;
            k \<leftarrow> k_srand (global_tick k) k;
            Some (k, h) })
      in case started of
           None \<Rightarrow> Some None
         | Some (k, h) \<Rightarrow> map_option (map_option (\<lambda>k. s\<lparr>kern := k, arena := h\<rparr>)) (sleep_on P 500 k))"

definition init_A2 :: "bytes \<Rightarrow> bytes \<Rightarrow> bytes \<Rightarrow> os \<Rightarrow> os option" where
  "init_A2 appleIIrom diskII rawData = machine_InitMachine appleIIrom diskII rawData"

definition report :: "string \<Rightarrow> os \<Rightarrow> os option" where
  "report str s = on_kern (printf (\<lambda>_. []) (cstr str @ [10]) (\<lambda>_. of_int (frame s))) s"

definition kernel_loop :: "os \<Rightarrow> os option option" where
  "kernel_loop s = map_option (\<lambda>r. do {
     m \<leftarrow> r;
     s \<leftarrow> report ''Update Loop %d'' (s\<lparr>apple := m\<rparr>);
     s \<leftarrow> machine_Render (frame s) s;
     let s = (if frame s > TARGET_FRAME then s\<lparr>frame := 0\<rparr> else s\<lparr>frame := frame s + 1\<rparr>);
     report ''Render Loop %d'' s }) (machine_Run 3050 (apple s))"

text \<open>The logo and the test of the allocator, which \<^verbatim>\<open>init_kernel\<close> no longer calls.  Each of the sleeps of the
  test has a schedule of interrupts of its own, \<open>Ps i\<close> the \<open>i\<close>-th.\<close>

definition logo :: "string list" where
  "logo = [''########   #######           #######   ######'',
     ''##     ## ##     ##         ##     ## ##    ##'',
     ''##     ##        ##         ##     ## ##'',
     ''########   #######  ####### ##     ##  ######'',
     ''##     ## ##                ##     ##       ##'',
     ''##     ## ##                ##     ## ##    ##'',
     ''########  #########          #######   ######'',
     '' '']"

definition print_logo :: "kernel \<Rightarrow> kernel option" where
  "print_logo k = fold (\<lambda>line r. Option.bind r (message line)) logo (Some k)"

definition say_and_sleep :: "platform \<Rightarrow> string \<Rightarrow> kernel \<Rightarrow> kernel option option" where
  "say_and_sleep P str k = (case message str k of None \<Rightarrow> Some None | Some k \<Rightarrow> sleep_on P 100 k)"

definition malloctest_round :: "(nat \<Rightarrow> platform) \<Rightarrow> nat \<Rightarrow> kernel \<times> kmem \<Rightarrow> (kernel \<times> kmem) option option" where
  "malloctest_round Ps i s =
     (let (k, h) = s; (r, k) = k_rand k in
      case malloc (r mod 1000) h of
        None \<Rightarrow> None
      | Some (p, h) \<Rightarrow>
          (case message ''MALLOC'' k of
             None \<Rightarrow> Some None
           | Some k \<Rightarrow>
               (let h = free p h in
                case sleep_on (Ps (2 * i)) 100 k of
                  None \<Rightarrow> None
                | Some None \<Rightarrow> Some None
                | Some (Some k) \<Rightarrow> map_option (map_option (\<lambda>k. (k, h))) (say_and_sleep (Ps (2 * i + 1)) ''FREE'' k))))"

primrec malloctest_rounds :: "(nat \<Rightarrow> platform) \<Rightarrow> nat \<Rightarrow> kernel \<times> kmem \<Rightarrow> (kernel \<times> kmem) option option" where
  "malloctest_rounds Ps 0 s = Some (Some s)"
| "malloctest_rounds Ps (Suc i) s =
     (case malloctest_rounds Ps i s of
        Some (Some s) \<Rightarrow> malloctest_round Ps i s
      | r \<Rightarrow> r)"

definition malloctest :: "(nat \<Rightarrow> platform) \<Rightarrow> kernel \<times> kmem \<Rightarrow> (kernel \<times> kmem) option option" where
  "malloctest Ps s = malloctest_rounds Ps 100 s"

text \<open>\<^verbatim>\<open>kmain\<close>: the states at the head of its endless loop.\<close>

inductive kmain :: "platform \<Rightarrow> bytes \<Rightarrow> bytes \<Rightarrow> bytes \<Rightarrow> os \<Rightarrow> os \<Rightarrow> bool"
  for P R D raw s where
  start: "init_kernel P s = Some (Some t) \<Longrightarrow> init_A2 R D raw t = Some u \<Longrightarrow> kmain P R D raw s u"
| again: "kmain P R D raw s t \<Longrightarrow> kernel_loop t = Some (Some u) \<Longrightarrow> kmain P R D raw s u"

inductive_cases kmainE: "kmain P R D raw s t"

subsection \<open>Start-up\<close>

lemma same_kernel_trans: "same_kernel a b \<Longrightarrow> same_kernel b c \<Longrightarrow> same_kernel a c"
  by (simp add: same_kernel_def)

lemma reports:
  "\<exists>k'. printf (\<lambda>_. []) (cstr ''[INIT MEMORY] %d KB'' @ [10]) arg k = Some k'"
  "\<exists>k'. printf (\<lambda>_. []) (cstr ''Update Loop %d'' @ [10]) arg k = Some k'"
  "\<exists>k'. printf (\<lambda>_. []) (cstr ''Render Loop %d'' @ [10]) arg k = Some k'"
  "\<exists>k'. printf (\<lambda>_. []) (cstr ''[INIT RANDOM]'' @ [10]) arg k = Some k'"
  by (simp_all add: printf_pieces cstr_def directive_def)

definition timer_ok :: "platform \<Rightarrow> bool" where
  "timer_ok P \<longleftrightarrow> handler_code P (timer_address P) = timer_callback \<and> timer_address P \<noteq> 0 \<and> int_no (timer_regs P) = 32"

text \<open>Everything but clock and console.\<close>

definition same_gates :: "kernel \<Rightarrow> kernel \<Rightarrow> bool" where
  "same_gates k k' \<longleftrightarrow> idt k' = idt k \<and> idtr k' = idtr k \<and> int_flag k' = int_flag k \<and>
     interrupt_handlers k' = interrupt_handlers k \<and> k_random_next k' = k_random_next k"

lemma irqs_timer:
  assumes "timer_ok P" and "interrupt_handlers k 32 = timer_address P"
  shows "\<exists>k'. irqs (handler_code P) (timer_regs P) n k = Some k' \<and> same_gates k k' \<and> global_tick k' = global_tick k + of_nat n"
proof (induction n)
  case (Suc n)
  then obtain k' where k': "irqs (handler_code P) (timer_regs P) n k = Some k'" "same_gates k k'"
    "global_tick k' = global_tick k + of_nat n" by blast
  let ?u = "timer_callback (timer_regs P) (port_byte_out 0x20 0x20 k')"
  have h: "interrupt_handlers k' 32 = timer_address P" using k'(2) assms(2) by (simp add: same_gates_def)
  have "same_gates k ?u" using k'(2) by (simp add: same_gates_def timer_callback_def port_byte_out_def Let_def)
  moreover have "k_irq_handler (handler_code P) (timer_regs P) k' = Some ?u"
    using assms(1) h unfolding timer_ok_def by (intro timer_irq) blast+
  moreover have "global_tick ?u = global_tick k + of_nat (Suc n)" using k'(3) by (simp add: timer_callback_clock)
  ultimately show ?case using k'(1) by (intro exI [of _ ?u]) simp
qed (simp add: same_gates_def)

lemma sleep_on_until:
  assumes P: "timer_ok P" "interrupt_handlers k 32 = timer_address P"
    and due: "mono (due P)" "1 \<le> i" "due P 0 + unat w \<le> due P i" "unat (global_tick k) + due P i + unat w < 4294967296"
  shows "\<exists>k'. sleep_on P w k = Some (Some k') \<and> same_gates k k' \<and>
    unat (global_tick k) + due P 0 + unat w \<le> unat (global_tick k') \<and>
    unat (global_tick k') \<le> unat (global_tick k) + due P i"
proof -
  let ?at = "\<lambda>i. irqs (handler_code P) (timer_regs P) (due P i) k"
  let ?tick = "\<lambda>i. case ?at i of None \<Rightarrow> 0 | Some k \<Rightarrow> global_tick k"
  define n where "n = (LEAST n. 1 \<le> n \<and> due P 0 + unat w \<le> due P n)"
  have n: "1 \<le> n" "due P 0 + unat w \<le> due P n" and le: "n \<le> i"
    using LeastI [of "\<lambda>n. 1 \<le> n \<and> due P 0 + unat w \<le> due P n" i] Least_le [of "\<lambda>n. 1 \<le> n \<and> due P 0 + unat w \<le> due P n" i] due(2,3)
    by (auto simp: n_def)
  have tick: "unat (?tick j) = unat (global_tick k) + due P j" if "j \<le> i" for j
  proof -
    have "due P j \<le> due P i" using monoD [OF due(1) that] .
    then show ?thesis
      using irqs_timer [OF P, of "due P j"] due(4) by (auto simp: unat_word_ariths unat_of_nat take_bit_eq_mod)
  qed
  have wake: "unat (?tick 0 + w) = unat (global_tick k) + due P 0 + unat w"
  proof -
    have "due P 0 \<le> due P i" using monoD [OF due(1), of 0 i] by simp
    then show ?thesis using tick [of 0] due(4) by (simp add: unat_word_ariths)
  qed
  have "k_sleep ?tick w = Some n"
  proof (rule k_sleep_returns)
    show "\<not> ?tick n < ?tick 0 + w" using n tick [OF le] wake by (simp add: word_less_nat_alt)
    show "?tick j < ?tick 0 + w" if "1 \<le> j" "j < n" for j
      using not_less_Least [of j "\<lambda>n. 1 \<le> n \<and> due P 0 + unat w \<le> due P n"] that le tick [of j] wake
      by (simp add: word_less_nat_alt n_def)
  qed (rule n(1))
  then have s: "sleep_on P w k = Some (?at n)" by (simp add: sleep_on_def Let_def)
  obtain k' where k': "?at n = Some k'" "same_gates k k'" using irqs_timer [OF P] by blast
  with tick [OF le] n(2) s monoD [OF due(1) le] show ?thesis by auto
qed

lemma sleep_on_returns:
  assumes P: "timer_ok P" "interrupt_handlers k 32 = timer_address P"
    and due: "mono (due P)" "1 \<le> i" "due P 0 + unat w \<le> due P i" "unat (global_tick k) + due P i + unat w < 4294967296"
  shows "\<exists>k'. sleep_on P w k = Some (Some k') \<and> same_gates k k' \<and>
    unat (global_tick k) + due P 0 + unat w \<le> unat (global_tick k')"
  using sleep_on_until [OF assms] by blast

lemma console_start [simp]:
  fixes s t :: kernel
  shows "same_kernel (console_clear f b s) t = same_kernel s t" "same_kernel (console_init f b s) t = same_kernel s t"
proof -
  have fg: "same_kernel (s\<lparr>g_fore_color := f\<rparr>) t = same_kernel s t" "same_kernel (s\<lparr>g_back_color := b\<rparr>) t = same_kernel s t" for s :: kernel
    by (simp_all add: same_kernel_def)
  show c: "same_kernel (console_clear f b s) t = same_kernel s t" for s :: kernel
    by (simp add: console_clear_def vga_set_cursor_pos_def Let_def)
  show "same_kernel (console_init f b s) t = same_kernel s t"
    by (simp add: console_init_def c fg)
qed

lemma init_memory_result:
  assumes "head h = 0"
  shows "\<exists>k'. init_memory k h = Some (k', k_init_mem h) \<and> same_kernel k' k"
  using assms reports(1) [of "\<lambda>_. MAX_MEM_SIZE div 1024" k] same_kernel_printf
  by (fastforce simp: init_memory_def MAX_MEM_SIZE_def header_len_def)

lemma k_srand_result: "\<exists>k'. k_srand seed k = Some k' \<and> same_kernel k' (k\<lparr>k_random_next := seed\<rparr>)"
  using reports(4) [of "\<lambda>_. 0" "k\<lparr>k_random_next := seed\<rparr>"] same_kernel_printf by (fastforce simp: k_srand_def)

lemma k_init_timer_result:
  "freq \<noteq> 0 \<Longrightarrow> \<exists>k'. k_init_timer cb freq k = Some k' \<and> same_kernel k' (k\<lparr>interrupt_handlers := (interrupt_handlers k)(32 := cb)\<rparr>)"
  by (simp add: k_init_timer_def register_interrupt_handler_def IRQ0_def Let_def)

lemma init_kernel_result:
  assumes "timer_ok P" and "head (arena s) = 0" and "global_tick (kern s) = 0"
    and due: "mono (due P)" "1 \<le> i" "due P 0 + 500 \<le> due P i" "early P + due P i + 500 < 4294967296"
  shows "\<exists>k. init_kernel P s = Some (Some (s\<lparr>kern := k, arena := k_init_mem (arena s)\<rparr>)) \<and>
    int_flag k \<and> interrupt_handlers k 32 = timer_address P \<and>
    idt k = (\<lambda>n. if n < 32 then gate_for (isr_stub P n) else if n < 48 then gate_for (irq_stub P (n - 32)) else idt (kern s) n) \<and>
    k_random_next k = of_nat (early P) \<and> early P + due P 0 + 500 \<le> unat (global_tick k)"
proof -
  let ?k0 = "console_clear COLOR_WHITE COLOR_BLACK (console_init COLOR_WHITE COLOR_BLACK (kern s))"
  have k0: "same_kernel ?k0 (kern s)" by simp
  obtain k1 where k1: "k_init_isr (isr_stub P) (irq_stub P) (idt_address P) ?k0 = Some k1" "int_flag k1"
    "idt k1 = (\<lambda>n. if n < 32 then gate_for (isr_stub P n) else if n < 48 then gate_for (irq_stub P (n - 32)) else idt ?k0 n)"
    "global_tick k1 = global_tick ?k0" using k_init_isr_result [of "isr_stub P" "irq_stub P" "idt_address P" ?k0] by blast
  obtain k2 where k2: "k_init_timer (timer_address P) 500 k1 = Some k2"
    "same_kernel k2 (k1\<lparr>interrupt_handlers := (interrupt_handlers k1)(32 := timer_address P)\<rparr>)"
    using k_init_timer_result [of 500 "timer_address P" k1] by auto
  obtain k3 where k3: "init_memory k2 (arena s) = Some (k3, k_init_mem (arena s))" "same_kernel k3 k2"
    using init_memory_result [OF assms(2)] by blast
  have h3: "interrupt_handlers k3 32 = timer_address P" "global_tick k3 = 0" "int_flag k3" "idt k3 = idt k1"
    using k0 k1 k2(2) k3(2) assms(3) by (simp_all add: same_kernel_def)
  obtain k4 where k4: "irqs (handler_code P) (timer_regs P) (early P) k3 = Some k4" "same_gates k3 k4" "global_tick k4 = of_nat (early P)"
    using irqs_timer [OF assms(1) h3(1)] h3(2) by auto
  obtain k5 where k5: "k_srand (global_tick k4) k4 = Some k5" "same_kernel k5 (k4\<lparr>k_random_next := global_tick k4\<rparr>)"
    using k_srand_result by blast
  have h5: "interrupt_handlers k5 32 = timer_address P" "int_flag k5" "idt k5 = idt k1"
    "k_random_next k5 = of_nat (early P)" "global_tick k5 = of_nat (early P)"
    using h3 k4(2,3) k5(2) by (simp_all add: same_kernel_def same_gates_def)
  have t5: "unat (global_tick k5) = early P"
    using due(4) by (simp add: h5(5) unat_of_nat take_bit_eq_mod)
  have "\<exists>k6. sleep_on P 500 k5 = Some (Some k6) \<and> same_gates k5 k6 \<and>
      unat (global_tick k5) + due P 0 + unat (500 :: u32) \<le> unat (global_tick k6)"
    using due t5 by (intro sleep_on_returns [OF assms(1) h5(1)]) simp_all
  then obtain k6 where k6: "sleep_on P 500 k5 = Some (Some k6)" "same_gates k5 k6"
    "early P + due P 0 + 500 \<le> unat (global_tick k6)" unfolding t5 by auto
  have "init_kernel P s = Some (Some (s\<lparr>kern := k6, arena := k_init_mem (arena s)\<rparr>))"
    unfolding init_kernel_def Let_def k1(1) bind.bind_lunit k2(1) k3(1) prod.case k4(1) k5(1) option.case k6(1) by simp
  moreover have "int_flag k6" "interrupt_handlers k6 32 = timer_address P" "idt k6 = idt k1" "k_random_next k6 = of_nat (early P)"
    using h5 k6(2) by (simp_all add: same_gates_def)
  moreover have "idt ?k0 = idt (kern s)" using k0 by (simp add: same_kernel_def)
  ultimately show ?thesis using k6(3) unfolding k1(3) by (intro exI [of _ k6]) (simp cong: if_cong)
qed

text \<open>
  C16. Start-up of the kernel: when enough timer interrupts arrive, \<^verbatim>\<open>init_kernel\<close> returns, although it waits in \<^verbatim>\<open>k_sleep\<close>
  for 500 ticks.  Then every gate of the descriptor table leads to its entry stub, the timer handler is
  installed, interrupts are enabled, the arena of \<^verbatim>\<open>malloc\<close> is set up, the random seed is the tick count it
  found, and at least 500 ticks more have passed.
\<close>

theorem init_kernel_starts:
  assumes "timer_ok P" and "head (arena s) = 0" and "global_tick (kern s) = 0"
    and due: "mono (due P)" "1 \<le> i" "due P 0 + 500 \<le> due P i" "early P + due P i + 500 < 4294967296"
  shows "\<exists>t. init_kernel P s = Some (Some t) \<and> t = s\<lparr>kern := kern t, arena := k_init_mem (arena s)\<rparr> \<and>
    int_flag (kern t) \<and> interrupt_handlers (kern t) 32 = timer_address P \<and>
    (\<forall>n. (n < 32 \<longrightarrow> gate_target (idt (kern t) n) = isr_stub P n) \<and> (n < 16 \<longrightarrow> gate_target (idt (kern t) (32 + n)) = irq_stub P n)) \<and>
    k_random_next (kern t) = of_nat (early P) \<and> early P + due P 0 + 500 \<le> unat (global_tick (kern t))"
proof -
  obtain k where k: "init_kernel P s = Some (Some (s\<lparr>kern := k, arena := k_init_mem (arena s)\<rparr>))"
    "int_flag k" "interrupt_handlers k 32 = timer_address P"
    "idt k = (\<lambda>n. if n < 32 then gate_for (isr_stub P n) else if n < 48 then gate_for (irq_stub P (n - 32)) else idt (kern s) n)"
    "k_random_next k = of_nat (early P)" "early P + due P 0 + 500 \<le> unat (global_tick k)"
    using init_kernel_result [OF assms] by blast
  then show ?thesis by (intro exI [of _ "s\<lparr>kern := k, arena := k_init_mem (arena s)\<rparr>"]) simp
qed

text \<open>A machine with 600 timer interrupts between two reads of the clock.\<close>

definition demo_platform :: platform where
  "demo_platform = \<lparr>isr_stub = \<lambda>n. 0x1000 + of_nat n, irq_stub = \<lambda>n. 0x2000 + of_nat n, idt_address = 0x9000,
     timer_address = 0x5000, handler_code = \<lambda>_. timer_callback, timer_regs = demo_regs 32, early = 7, due = \<lambda>i. 600 * i\<rparr>"

definition demo_os :: os where
  "demo_os = system.extend \<lparr>kern = demo_kernel, arena = kmem_image,
     font_tab = \<lparr>af_font = (\<lambda>_ _. 0), af_invfont = (\<lambda>_ _. 0)\<rparr>, apple = machine_image\<rparr> \<lparr>frame = 0\<rparr>"

lemma demo_os_sel [simp]:
  "kern demo_os = demo_kernel" "arena demo_os = kmem_image" "apple demo_os = machine_image" "frame demo_os = 0"
  by (simp_all add: demo_os_def system.defs)

lemma demo_platform_ok:
  "timer_ok demo_platform" "head (arena demo_os) = 0" "global_tick (kern demo_os) = 0" "mono (due demo_platform)"
  "due demo_platform 0 + 500 \<le> due demo_platform 1" "early demo_platform + due demo_platform 1 + 500 < 4294967296"
  by (simp_all add: timer_ok_def demo_platform_def demo_regs_def kmem_image_def demo_kernel_def console.defs mono_def)

theorem init_kernel_starts_witness:
  "\<exists>t. init_kernel demo_platform demo_os = Some (Some t) \<and> gate_target (idt (kern t) 14) = 0x100E \<and>
     k_random_next (kern t) = 7 \<and> 507 \<le> unat (global_tick (kern t))"
proof -
  obtain t where t: "init_kernel demo_platform demo_os = Some (Some t)"
    "\<And>n. n < 32 \<Longrightarrow> gate_target (idt (kern t) n) = isr_stub demo_platform n" "k_random_next (kern t) = of_nat (early demo_platform)"
    "early demo_platform + due demo_platform 0 + 500 \<le> unat (global_tick (kern t))"
    using init_kernel_starts [OF demo_platform_ok(1-4) order.refl demo_platform_ok(5,6)] by blast
  show ?thesis using t(1,3,4) t(2) [of 14] by (simp add: demo_platform_def)
qed

subsection \<open>The main loop\<close>

text \<open>The invariant of the main loop: ROM and disk PROM hold their images, the drive is in its invariant, the
  display page is valid, and the frame number is within its cycle.\<close>

definition machine_ok :: "bytes \<Rightarrow> bytes \<Rightarrow> machine \<Rightarrow> bool" where
  "machine_ok R D m \<longleftrightarrow> (\<forall>i < ROMSIZE. rom (mem m) i = R i) \<and> (\<forall>i < SL6SIZE. sl6 (mem m) i = D i) \<and>
     drive_ok (dev m) \<and> page_ok m \<and> rwidth (pixelGR (dev m)) = 7 \<and> rheight (pixelGR (dev m)) = 4 \<and>
     (\<forall>line < 192. previousBit (dev m) line 0 = 0) \<and> flashCycle (dev m) < 30"

definition os_ok :: "bytes \<Rightarrow> bytes \<Rightarrow> os \<Rightarrow> bool" where
  "os_ok R D s \<longleftrightarrow> machine_ok R D (apple s) \<and> 0 \<le> frame s \<and> frame s \<le> TARGET_FRAME + 1"

lemma machine_Run_ok:
  assumes "machine_ok R D m" and "machine_Run n m = Some (Some m')"
  shows "machine_ok R D m'"
  using assms(1) romm.keeps_machine_Run [OF assms(2)] drvm.keeps_machine_Run [OF assms(2)] pagem.keeps_machine_Run [OF assms(2)]
  by (simp add: machine_ok_def same_rom_def keeps_drive_def keeps_page_def)

lemma frame_rest_drive: "frame_rest m m' \<Longrightarrow> drive_ok (dev m) \<Longrightarrow> drive_ok (dev m')"
proof -
  assume r: "frame_rest m m'" and d: "drive_ok (dev m)"
  have "drive_ok (no_video (d\<lparr>flashCycle := 0\<rparr>)) = drive_ok d" for d by (simp add: drive_ok_def no_video_def)
  with r d show "drive_ok (dev m')" unfolding frame_rest_def by metis
qed

lemma frame_rest_page: "frame_rest m m' \<Longrightarrow> page_ok m' = page_ok m"
proof -
  assume r: "frame_rest m m'"
  have "videoPage (no_video (d\<lparr>flashCycle := 0\<rparr>)) = videoPage d" for d by (simp add: no_video_def)
  with r show "page_ok m' = page_ok m" unfolding frame_rest_def page_ok_def by metis
qed

lemma render_ok:
  assumes "machine_ok R D m"
  shows "\<exists>m'. ad_Render F f m = Some m' \<and> machine_ok R D m'"
proof -
  obtain m' where m': "ad_Render F f m = Some m'" "frame_rest m m'" "rwidth (pixelGR (dev m')) = 7" "rheight (pixelGR (dev m')) = 4"
    "\<forall>l. previousBit (dev m') l 0 = previousBit (dev m) l 0"
    "flashCycle (dev m') = (if flashCycle (dev m) = 29 then 0 else flashCycle (dev m) + 1)"
    using ad_Render_total [of m F f] assms by (auto simp: machine_ok_def)
  have "f < 30 \<Longrightarrow> f \<noteq> 29 \<Longrightarrow> f + 1 < 30" for f :: u8 by unat_arith
  then have "flashCycle (dev m') < 30" using assms m'(6) by (simp add: machine_ok_def)
  moreover have "mem m' = mem m" using m'(2) by (simp add: frame_rest_def)
  ultimately have "machine_ok R D m'"
    using assms m' frame_rest_drive [OF m'(2)] frame_rest_page [OF m'(2)] by (simp add: machine_ok_def)
  with m'(1) show ?thesis by blast
qed

lemma report_result: 
  assumes "str = ''Update Loop %d'' \<or> str = ''Render Loop %d''"
  shows "\<exists>k. report str s = Some (s\<lparr>kern := k\<rparr>)"
  using assms reports(2,3) [of "\<lambda>_. of_int (frame s)" "kern s"] by (auto simp: report_def on_kern_def)

text \<open>One round: it does not return, stops because \<^verbatim>\<open>machine_Run\<close> leaves an array, or ends well.\<close>

lemma kernel_loop_cases:
  assumes "machine_ok R D (apple s)" and "kernel_loop s = Some r"
  shows "(r = None \<and> machine_Run 3050 (apple s) = Some None) \<or>
    (\<exists>t m. r = Some t \<and> machine_ok R D (apple t) \<and> font_tab t = font_tab s \<and> arena t = arena s \<and>
       frame t = (if frame s > 60 then 0 else frame s + 1) \<and>
       machine_Run 3050 (apple s) = Some (Some m) \<and> ad_Render (font_tab s) (frame s) m = Some (apple t))"
proof -
  obtain r1 where r1: "machine_Run 3050 (apple s) = Some r1" using assms(2) by (auto simp: kernel_loop_def)
  show ?thesis
  proof (cases r1)
    case None
    with r1 assms(2) show ?thesis by (simp add: kernel_loop_def)
  next
    case (Some m)
    have "machine_ok R D m" using machine_Run_ok [OF assms(1)] r1 Some by blast
    then obtain m' where m': "ad_Render (font_tab s) (frame s) m = Some m'" "machine_ok R D m'" using render_ok by blast
    obtain k where k: "report ''Update Loop %d'' (s\<lparr>apple := m\<rparr>) = Some (s\<lparr>apple := m, kern := k\<rparr>)"
      using report_result [of "''Update Loop %d''" "s\<lparr>apple := m\<rparr>"] by auto
    let ?t = "if frame s > 60 then s\<lparr>kern := k, apple := m', frame := 0\<rparr> else s\<lparr>kern := k, apple := m', frame := frame s + 1\<rparr>"
    obtain k' where k': "report ''Render Loop %d'' ?t = Some (?t\<lparr>kern := k'\<rparr>)"
      using report_result by blast
    have "kernel_loop s = Some (Some (?t\<lparr>kern := k'\<rparr>))"
      using k' m'(1) by (cases "frame s > 60") (simp_all add: kernel_loop_def r1 Some k machine_Render_def on_apple_def TARGET_FRAME_def Let_def)
    with assms(2) m' r1 Some show ?thesis by (intro disjI2 exI [of _ "?t\<lparr>kern := k'\<rparr>"] exI [of _ m]) auto
  qed
qed

text \<open>A frame of the refresh shows the memory of the machine it leaves.\<close>

lemma refresh_picture:
  assumes "machine_ok R D m" and "flashCycle (dev m) = 0" and "ad_Render F f m = Some m'"
  shows "\<forall>x < 280. \<forall>y < 192. colorbuffer (dev m') (y * 280 + x) = screen_pixel F f m' x y"
proof -
  have "lores_ready (dev m)" "hires_ready (dev m)"
    using assms(1,2) by (simp_all add: machine_ok_def lores_ready_def hires_ready_def ready_line_def)
  moreover have "screen_pixel F f m' = screen_pixel F f m"
  proof (rule screen_pixel_cong)
    have r: "frame_rest m m'" using ad_Render_total [of m F f] assms(1,3) by (auto simp: machine_ok_def)
    then show "mem m' = mem m" by (simp add: frame_rest_def)
    have e: "no_video ((dev m')\<lparr>flashCycle := 0\<rparr>) = no_video ((dev m)\<lparr>flashCycle := 0\<rparr>)"
      using r by (simp add: frame_rest_def)
    show "videoPage (dev m') = videoPage (dev m)" "textMode (dev m') = textMode (dev m)"
      "mixedMode (dev m') = mixedMode (dev m)" "hires_Mode (dev m') = hires_Mode (dev m)"
      using arg_cong [OF e, of videoPage] arg_cong [OF e, of textMode] arg_cong [OF e, of mixedMode]
        arg_cong [OF e, of hires_Mode] by (simp_all add: no_video_def)
  qed
  ultimately show ?thesis
    using ad_Render_picture [of m F f] assms(1,3) by (auto simp: machine_ok_def)
qed

lemma kernel_loop_flash:
  assumes "machine_ok R D (apple t)" and "kernel_loop t = Some (Some u)"
  shows "flashCycle (dev (apple u)) = (if flashCycle (dev (apple t)) = 29 then 0 else flashCycle (dev (apple t)) + 1) \<and>
    (flashCycle (dev (apple t)) = 0 \<longrightarrow> (\<forall>x < 280. \<forall>y < 192.
       colorbuffer (dev (apple u)) (y * 280 + x) = screen_pixel (font_tab t) (frame t) (apple u) x y))"
proof -
  obtain m where m: "machine_Run 3050 (apple t) = Some (Some m)" "ad_Render (font_tab t) (frame t) m = Some (apple u)"
    using kernel_loop_cases [OF assms] by auto
  have ok: "machine_ok R D m" using machine_Run_ok [OF assms(1) m(1)] .
  have fl: "flashCycle (dev m) = flashCycle (dev (apple t))"
    using pagem.keeps_machine_Run [OF m(1)] by (simp add: keeps_page_def)
  have "flashCycle (dev (apple u)) = (if flashCycle (dev m) = 29 then 0 else flashCycle (dev m) + 1)"
    using ad_Render_total [of m "font_tab t" "frame t"] ok m(2) by (auto simp: machine_ok_def)
  with refresh_picture [OF ok _ m(2)] fl show ?thesis by auto
qed

lemma machine_InitMachine_ok:
  assumes "machine_InitMachine R D raw s = Some u"
  shows "machine_ok R D (apple u) \<and> frame u = frame s"
proof -
  obtain F h p h' where ex: "af_Create (font_tab s) (arena s) = Some (F, h)" "malloc 53760 h = Some (p, h')" "p \<noteq> 0"
    using assms by (auto simp: machine_InitMachine_def on_kern_def on_apple_def ad_Create_def bind_eq_Some_conv
        SCREENSIZE_X_def SCREENSIZE_Y_def Let_def split: if_splits)
  obtain k d m where m: "u = s\<lparr>kern := k, font_tab := F, arena := h', apple := m\<rparr>"
    "booted R D m" "dev m = ad_Reset (snd (ad_InsertFloppy raw 0 d))"
    using machine_InitMachine_result [OF ex, of R D raw] assms by auto
  then show ?thesis
    using drive_ok_inserted [of raw d] by (simp add: machine_ok_def booted_def) (simp add: ad_Reset_def)
qed

lemma kmain_ok:
  assumes "kmain P R D raw s t" and "0 \<le> frame s" and "frame s \<le> TARGET_FRAME + 1"
  shows "os_ok R D t"
  using assms
proof (induction rule: kmain.induct)
  case (start t u)
  have "frame t = frame s"
    using start(1) by (auto simp: init_kernel_def Let_def split: option.splits)
  with machine_InitMachine_ok [OF start(2) [unfolded init_A2_def]] start(3,4) show ?case by (simp add: os_ok_def)
next
  case (again t u)
  then have "machine_ok R D (apple t)" "0 \<le> frame t" "frame t \<le> 61" by (simp_all add: os_ok_def TARGET_FRAME_def)
  with kernel_loop_cases [OF _ again(2)] show ?case by (auto simp: os_ok_def TARGET_FRAME_def)
qed

lemma demo_boot:
  "\<exists>t d. kmain demo_platform R D raw demo_os t \<and> booted R D (apple t) \<and> dev (apple t) = ad_Reset (snd (ad_InsertFloppy raw 0 d))"
proof -
  obtain k where k: "init_kernel demo_platform demo_os = Some (Some (demo_os\<lparr>kern := k, arena := k_init_mem kmem_image\<rparr>))"
    using init_kernel_result [OF demo_platform_ok(1-4) order.refl demo_platform_ok(5,6)] by auto
  let ?t = "demo_os\<lparr>kern := k, arena := k_init_mem kmem_image\<rparr>"
  obtain F where F: "af_Create (font_tab ?t) (arena ?t) = Some (F, font_heap (hd4 0 0 0x9FFFF0 False) (hd4 0x100000 0 0x9FE3E0 False) (hd4 0x101C10 0 0x9FE050 False))"
    using font_boot [of "font_tab ?t"] by auto
  obtain h where h: "malloc 53760 (font_heap (hd4 0 0 0x9FFFF0 False) (hd4 0x100000 0 0x9FE3E0 False) (hd4 0x101C10 0 0x9FE050 False)) = Some (0x100010, h)"
    using font_4 by blast
  have z: "(0x100010 :: u32) \<noteq> 0" by simp
  obtain u d where u: "machine_InitMachine R D raw ?t = Some u" "booted R D (apple u)"
    "dev (apple u) = ad_Reset (snd (ad_InsertFloppy raw 0 d))"
    using machine_InitMachine_result [OF F h z, of R D raw] by auto
  then show ?thesis using kmain.start [OF k] unfolding init_A2_def by blast
qed

text \<open>
  C4. The state at every turn of the main loop of \<^verbatim>\<open>kmain\<close>, whatever the ROM, the disk and the programs on it do:
  ROM and disk PROM are intact, the drive and the display are in their invariants, so every frame can be drawn,
  and the frame number stays between 0 and 61.
\<close>

theorem kmain_invariant:
  assumes "kmain P R D raw s t" and "0 \<le> frame s" and "frame s \<le> TARGET_FRAME + 1"
  shows "os_ok R D t"
  by (rule kmain_ok [OF assms])

theorem kmain_invariant_witness:
  "\<exists>t. kmain demo_platform (\<lambda>_. 0xEA) (\<lambda>_. 0x60) (\<lambda>_. 0xFF) demo_os t \<and> os_ok (\<lambda>_. 0xEA) (\<lambda>_. 0x60) t"
proof -
  obtain t where t: "kmain demo_platform (\<lambda>_. 0xEA) (\<lambda>_. 0x60) (\<lambda>_. 0xFF) demo_os t" using demo_boot by blast
  with kmain_invariant [OF t] show ?thesis by (auto simp: TARGET_FRAME_def)
qed

subsection \<open>What is on the screen\<close>

text \<open>A ROM whose reset vector leads to a jump to itself: with it the machine runs for ever, and every round returns.\<close>

definition spin_rom :: bytes where
  "spin_rom i = (if i = 0 then JMP_ABS else if i = 2 \<or> i = 0x2FFD then 0xD0 else 0)"

definition spinning :: "machine \<Rightarrow> bool" where
  "spinning m \<longleftrightarrow> PC (cpu m) = 0xD000 \<and> \<not> LCReadable (mem m) \<and> (\<forall>i < ROMSIZE. rom (mem m) i = spin_rom i)"

lemma spin_step: "spinning m \<Longrightarrow> ac_step m = Some (m\<lparr>cpu := cpu m\<lparr>cycle := cycle (cpu m) - 2\<rparr>\<rparr>)"
  by (simp add: spinning_def ac_step_def ac_Fetch_def read_high ROMSTART_def ROMSIZE_def spin_rom_def demo_dispatch
      op_JMP_ABS_def ac_addr_mode_ABS_def ac_FetchWord_def mk_word_def spend_def)

lemma spin_run:
  assumes "spinning m"
  shows "\<exists>c. ac_Run n m = Some (Some (m\<lparr>cpu := cpu m\<lparr>cycle := c\<rparr>\<rparr>))"
proof -
  let ?P = "\<lambda>x. \<exists>c. x = m\<lparr>cpu := cpu m\<lparr>cycle := c\<rparr>\<rparr>"
  have step: "\<exists>y. ac_step x = Some y \<and> ?P y \<and> cycle (cpu y) \<noteq> cycle (cpu x)" if x: "?P x" for x
  proof -
    from x obtain c where c: "x = m\<lparr>cpu := cpu m\<lparr>cycle := c\<rparr>\<rparr>" by blast
    then have "spinning x" using assms by (simp add: spinning_def)
    with spin_step [OF this] show ?thesis by (auto simp: c)
  qed
  then have "?P y \<and> cycle (cpu y) \<noteq> cycle (cpu x)" if "?P x" "ac_step x = Some y" for x y using that by fastforce
  then obtain r where r: "ac_Run_loop (m\<lparr>cpu := cpu m\<lparr>cycle := n\<rparr>\<rparr>) = Some r"
    using loop_returns [of ?P] by blast
  have "\<exists>y. r = Some y \<and> ?P y" using step by (intro loop_safe [OF _ r]) blast+
  with r show ?thesis by (auto simp: ac_Run_def)
qed

lemma spin_round:
  assumes "machine_ok R D (apple t)" and "spinning (apple t)" and "\<not> motorOn (cur (dev (apple t)))"
  shows "\<exists>u. kernel_loop t = Some (Some u)"
proof -
  obtain c where "ac_Run 3050 (apple t) = Some (Some ((apple t)\<lparr>cpu := cpu (apple t)\<lparr>cycle := c\<rparr>\<rparr>))"
    using spin_run [OF assms(2)] by blast
  then have "machine_Run 3050 (apple t) = Some (Some ((apple t)\<lparr>cpu := cpu (apple t)\<lparr>cycle := c\<rparr>\<rparr>))"
    using assms(3) by (simp add: machine_Run_def floppy_loop_idle)
  moreover from this obtain r where "kernel_loop t = Some r" by (simp add: kernel_loop_def)
  ultimately show ?thesis using kernel_loop_cases [OF assms(1)] by auto
qed

text \<open>
  C2. What the user sees: every round of the main loop advances the flash counter through its cycle of 30, and the
  round that starts with the counter at 0 redraws the whole screen.  After that round every pixel of the colour
  buffer is the one the mode switches and the video memory of the machine call for, in all modes, whatever was
  on the screen before and whatever modes, pages and caches the program had gone through.
\<close>

theorem kmain_refreshes_screen:
  assumes "kmain P R D raw s t" and "0 \<le> frame s" and "frame s \<le> TARGET_FRAME + 1" and "kernel_loop t = Some (Some u)"
  shows "flashCycle (dev (apple u)) = (if flashCycle (dev (apple t)) = 29 then 0 else flashCycle (dev (apple t)) + 1) \<and>
    (flashCycle (dev (apple t)) = 0 \<longrightarrow> (\<forall>x < 280. \<forall>y < 192.
       colorbuffer (dev (apple u)) (y * 280 + x) = screen_pixel (font_tab t) (frame t) (apple u) x y))"
  using kernel_loop_flash [of R D t u] kmain_ok [OF assms(1-3)] assms(4) by (simp add: os_ok_def)

theorem kmain_refreshes_screen_witness:
  "\<exists>t u. kmain demo_platform spin_rom (\<lambda>_. 0x60) (\<lambda>_. 0xFF) demo_os t \<and> kernel_loop t = Some (Some u) \<and>
     flashCycle (dev (apple u)) = 1 \<and>
     colorbuffer (dev (apple u)) (100 * 280 + 50) = screen_pixel (font_tab t) (frame t) (apple u) 50 100"
proof -
  obtain t d where t: "kmain demo_platform spin_rom (\<lambda>_. 0x60) (\<lambda>_. 0xFF) demo_os t" "booted spin_rom (\<lambda>_. 0x60) (apple t)"
    "dev (apple t) = ad_Reset (snd (ad_InsertFloppy (\<lambda>_. 0xFF) 0 d))" using demo_boot by blast
  have f: "0 \<le> frame demo_os" "frame demo_os \<le> TARGET_FRAME + 1" by (simp_all add: TARGET_FRAME_def)
  have "spinning (apple t)" using t(2) by (simp add: booted_def spinning_def) (simp add: spin_rom_def mk_word_def)
  moreover have "\<not> motorOn (cur (dev (apple t)))"
    by (simp add: t(3) ad_Reset_def ad_InsertFloppy_def Let_def cur_def zero_drive_def)
  ultimately obtain u where u: "kernel_loop t = Some (Some u)"
    using spin_round [of spin_rom "\<lambda>_. 0x60" t] kmain_ok [OF t(1) f] by (auto simp: os_ok_def)
  have "flashCycle (dev (apple t)) = 0" by (simp add: t(3) ad_Reset_def)
  with kmain_refreshes_screen [OF t(1) f u] have px: "flashCycle (dev (apple u)) = 1" "\<forall>x < 280. \<forall>y < 192.
    colorbuffer (dev (apple u)) (y * 280 + x) = screen_pixel (font_tab t) (frame t) (apple u) x y" by simp_all
  show ?thesis using t(1) u px(1) px(2) [rule_format, of 50 100] by auto
qed

text \<open>
  C11. The only ways the main loop can stop: when a round faults it is \<^verbatim>\<open>machine_Run\<close> that does, never rendering or printing,
  and the emulated program has executed its way, instruction by instruction, to a state whose next instruction faults: either
  its opcode is one of the eight of the mode \<^verbatim>\<open>($zp,X)\<close>, or it has moved the head of a drive to within six tracks of the end
  of the 35 tracks of the image or past it (an instruction makes at most six bus accesses, and the latch is read or written
  past the end by one of them).
\<close>

theorem kernel_loop_stops:
  assumes "os_ok R D t" and "kernel_loop t = Some None"
  shows "machine_Run 3050 (apple t) = Some None \<and>
    (\<exists>m. execution (apple t) m \<and> ac_step m = None \<and> drive_ok (dev m) \<and> (at_indx m \<or> (\<exists>c < 2. 29 \<le> head_track (dev m) c)))"
proof -
  have ok: "machine_ok R D (apple t)" using assms(1) by (simp add: os_ok_def)
  then have "machine_Run 3050 (apple t) = Some None"
    using kernel_loop_cases [OF ok assms(2)] by simp
  then show ?thesis using machine_Run_fault_cause ok by (simp add: machine_ok_def)
qed

text \<open>\<^verbatim>\<open>LDA $C0EC\<close> on a reset machine with the head on track 35.\<close>

definition stuck_os :: os where
  "stuck_os = demo_os\<lparr>apple := program [LDA_ABS, 0xEC, 0xC0]
     \<lparr>dev := (ad_Reset dev_image)\<lparr>disk := (\<lambda>_. zero_drive\<lparr>track := 35\<rparr>)\<rparr>\<rparr>\<rparr>"

lemma stuck_loop: "kernel_loop stuck_os = Some None"
proof -
  let ?m = "apple stuck_os"
  have "ac_step (?m\<lparr>cpu := cpu ?m\<lparr>cycle := 3050\<rparr>\<rparr>) = None"
    by (simp add: stuck_os_def demo_defs op_LDA_def rd_def ac_ReadByte_def mem_ReadByte_def with_val_def
        ad_SoftSwitch_None bind_eq_None_conv head_index_def cur_def ad_Reset_def zero_drive_def DISKSIZE_def)
  then have "machine_Run 3050 ?m = Some None" by (simp add: machine_Run_def ac_Run_def run_fault)
  then show ?thesis by (simp add: kernel_loop_def)
qed

theorem kernel_loop_stops_witness:
  "\<exists>m. execution (apple stuck_os) m \<and> ac_step m = None \<and> (at_indx m \<or> (\<exists>c < 2. 29 \<le> head_track (dev m) c))"
proof -
  have "os_ok (\<lambda>_. 0) (\<lambda>_. 0) stuck_os"
    by (simp add: os_ok_def machine_ok_def stuck_os_def program_def mem_image_def drive_ok_def ad_Reset_def zero_drive_def
        page_ok_def TARGET_FRAME_def)
  from kernel_loop_stops [OF this stuck_loop] show ?thesis by blast
qed

end
