(* ===== verification/Kmem_Stack.thy ===== *)
theory Kmem_Stack
  imports Kmem
begin

text \<open>
  \<^verbatim>\<open>malloc\<close> and \<^verbatim>\<open>free\<close> of \<^verbatim>\<open>Src/memory.c\<close> together.  Where a block returned by \<^verbatim>\<open>malloc\<close> lies, and the discipline under which
  the forgotten back link of \<^verbatim>\<open>malloc\<close> does no harm: blocks freed in the reverse order of their allocation.
\<close>

subsection \<open>The place of a block\<close>

lemma block_place:
  assumes "heap_list s ps" and "p \<in> set ps"
  shows "unat (head s) \<le> unat p" and "unat (p + 16) = unat p + 16" and "unat p + 16 + unat (len s p) \<le> heap_end"
    and "4 dvd unat p"
proof -
  have sg: "seg (nxt s) (len s) ps 0 heap_end" using assms(1) by (simp add: heap_list_def)
  then show e: "unat p + 16 + unat (len s p) \<le> heap_end" using seg_bounds [OF sg assms(2)] by simp
  then show "unat (p + 16) = unat p + 16" using heap_end_le by (simp add: unat_word_ariths)
  show "unat (head s) \<le> unat p" "4 dvd unat p"
    using seg_bounds [OF sg assms(2)] assms by (simp_all add: heap_list_def)
qed

lemma malloc_place:
  assumes "heap_list s ps" and "unat n \<le> 0xFFFFFFFC" and "malloc n s = Some (r, s')" and "r \<noteq> 0"
  shows "unat (head s) + 16 \<le> unat r \<and> unat r + unat n \<le> heap_end \<and> 4 dvd unat r"
proof -
  have "n \<noteq> 0" using assms(3,4) by (auto simp: malloc_def)
  with assms(1) show ?thesis
  proof (cases rule: malloc_result)
    case full
    with assms(3,4) show ?thesis by simp
  next
    case (taken as p bs)
    have r: "r = p + 16" using taken(4) assms(3) by simp
    have p: "p \<in> set ps" using taken(1) by simp
    note b = block_place [OF assms(1) p]
    have "unat n \<le> unat (len s p)"
      using taken(2) round4_ge [OF assms(2)] by (auto simp: fits_def word_le_nat_alt)
    moreover have "4 dvd unat p + 16" using b(4) by simp
    ultimately show ?thesis using b unfolding r by simp
  qed
qed

subsection \<open>Last in, first out\<close>

text \<open>\<open>tail_free s as p\<close>: the blocks \<open>as\<close> are in use, the last block \<open>p\<close> is free.\<close>

definition tail_free :: "kmem \<Rightarrow> u32 list \<Rightarrow> u32 \<Rightarrow> bool" where
  "tail_free s as p \<longleftrightarrow> heap_list s (as @ [p]) \<and> back_links s (as @ [p]) \<and>
     (\<forall>a \<in> set as. hused (hdr s a)) \<and> \<not> hused (hdr s p)"

definition all_used :: "kmem \<Rightarrow> u32 list \<Rightarrow> bool" where
  "all_used s ps \<longleftrightarrow> heap_list s ps \<and> back_links s ps \<and> (\<forall>a \<in> set ps. hused (hdr s a))"

lemma release_used:
  "(\<forall>x \<in> set xs. snd (snd x)) \<Longrightarrow> p \<notin> fst ` set xs \<Longrightarrow> release p (xs @ (p, l, u) # bs) = xs @ absorb (p, l, False) bs"
  by (induction xs) auto

lemma malloc_full:
  assumes "all_used s ps" and "malloc n s = Some (r, s')"
  shows "r = 0"
proof (cases "n = 0")
  case True
  then show ?thesis using assms(2) by (simp add: malloc_def)
next
  case False
  have "heap_list s ps" using assms(1) by (simp add: all_used_def)
  from this False show ?thesis
    by (cases rule: malloc_result) (use assms in \<open>auto simp: all_used_def fits_def\<close>)
qed

lemma malloc_last:
  assumes "tail_free s as p" and "malloc n s = Some (r, s')" and "r \<noteq> 0"
  shows "r = p + 16 \<and>
    ((\<exists>q. tail_free s' (as @ [p]) q \<and> release p (blocks s' (as @ [p, q])) = blocks s (as @ [p])) \<or>
     (all_used s' (as @ [p]) \<and> release p (blocks s' (as @ [p])) = blocks s (as @ [p])))"
proof -
  have hl: "heap_list s (as @ [p])" and bl: "back_links s (as @ [p])" and used: "\<forall>a \<in> set as. hused (hdr s a)" "\<not> hused (hdr s p)"
    using assms(1) by (auto simp: tail_free_def)
  have d: "p \<notin> set as" "distinct as" using hl seg_distinct unfolding heap_list_def by fastforce+
  have "n \<noteq> 0" using assms(2,3) by (auto simp: malloc_def)
  with hl show ?thesis
  proof (cases rule: malloc_result)
    case full
    with assms(2,3) show ?thesis by simp
  next
    case (taken as' p' bs)
    have p': "p' = p" "as' = as" "bs = []"
    proof -
      show "p' = p"
      proof (rule ccontr)
        assume "p' \<noteq> p"
        moreover have "p' \<in> set (as @ [p])" unfolding taken(1) by simp
        ultimately have "p' \<in> set as" by simp
        with used(1) taken(2) show False by (simp add: fits_def)
      qed
      with taken(1) d(1) show "as' = as" "bs = []"
        by (auto simp: append_eq_append_conv2 append_eq_Cons_conv Cons_eq_append_conv)
    qed
    let ?n = "round4 n"
    have r: "r = p + 16" "s' = take_block ?n p s" using taken(4) assms(2) p' by auto
    have fit: "?n \<le> len s p" using taken(2) p' by (simp add: fits_def)
    have keep: "blocks t as = blocks s as" if "\<And>a. a \<in> set as \<Longrightarrow> hdr t a = hdr s a" for t
      using that by (simp add: blocks_def)
    have all: "\<forall>x \<in> set (blocks s as). snd (snd x)" using used(1) by (auto simp: blocks_def)
    have nx: "nxt s p = 0" using hl by (simp add: heap_list_def seg_append)
    show ?thesis
    proof (cases "unat ?n + 16 \<le> unat (len s p)")
      case True
      define q where "q = p + 16 + ?n"
      note cut = take_block_cut [OF hl [unfolded append_Cons append_Nil] True round4_dvd, folded q_def r(2)]
      have q: "q \<noteq> p" "q \<notin> set as" using cut(3) by auto
      have same: "hdr s' a = hdr s a" if "a \<in> set as" for a using that d q by (auto simp: cut(2))
      have "prev_chain (\<lambda>p. hprev (hdr s' p)) 0 (as @ [p]) = prev_chain (\<lambda>p. hprev (hdr s p)) 0 (as @ [p])"
        using q by (intro prev_chain_cong) (auto simp: cut(2))
      moreover have "hprev (hdr s' q) = p" using q by (simp add: cut(2))
      ultimately have "back_links s' ((as @ [p]) @ [q])"
        using bl unfolding back_links_def prev_chain_append [of _ _ "as @ [p]"] by simp
      then have "tail_free s' (as @ [p]) q"
        using cut(1) used q same by (auto simp: tail_free_def cut(2))
      moreover have "blocks s' (as @ [p, q]) = blocks s as @ (p, ?n, True) # [(q, len s p - ?n - 16, False)]"
        using q keep [OF same] by (simp add: blocks_append blocks_Cons) (simp add: blocks_def cut(2))
      then have "release p (blocks s' (as @ [p, q])) = blocks s (as @ [p])"
        using release_used [OF all, of p ?n True "[(q, len s p - ?n - 16, False)]"] d used(2)
        by (simp add: blocks_append blocks_Cons) (simp add: blocks_def)
      ultimately show ?thesis using r by blast
    next
      case False
      note whole = take_block_whole [OF hl [unfolded append_Cons append_Nil] fit False, folded r(2)]
      have same: "hdr s' a = hdr s a" if "a \<in> set as" for a using that d by (auto simp: whole(2))
      have "back_links s' (as @ [p])"
        using bl prev_chain_cong [of "as @ [p]" "\<lambda>p. hprev (hdr s' p)" "\<lambda>p. hprev (hdr s p)"]
        by (simp add: back_links_def whole(2))
      then have "all_used s' (as @ [p])" using whole(1) used(1) same by (auto simp: all_used_def whole(2))
      moreover have "blocks s' (as @ [p]) = blocks s as @ [(p, len s p, True)]"
        using keep [OF same] by (simp add: blocks_append blocks_Cons) (simp add: blocks_def whole(2))
      then have "release p (blocks s' (as @ [p])) = blocks s (as @ [p])"
        using release_used [OF all, of p "len s p" True "[]"] d used(2)
        by (simp add: blocks_append blocks_Cons) (simp add: blocks_def)
      ultimately show ?thesis using r by blast
    qed
  qed
qed

text \<open>What a heap looks like through its blocks, and one release in that view.\<close>

definition looks :: "kmem \<Rightarrow> (u32 \<times> u32 \<times> bool) list \<Rightarrow> bool" where
  "looks s bs \<longleftrightarrow> (\<exists>ps. heap_list s ps \<and> back_links s ps \<and> blocks s ps = bs)"

lemma looks_free: "looks s bs \<Longrightarrow> p \<in> fst ` set bs \<Longrightarrow> looks (free (p + 16) s) (release p bs)"
  using free_blocks unfolding looks_def by (metis fst_blocks)

lemma looks_tail: "tail_free s as p \<Longrightarrow> looks s (blocks s (as @ [p]))" "all_used s ps \<Longrightarrow> looks s (blocks s ps)"
  by (auto simp: looks_def tail_free_def all_used_def)

lemma allocs_free_all:
  assumes "tail_free s as p" and "allocs malloc ns s = Some (rs, s')" and "0 \<notin> set rs"
  shows "looks (fold free (rev rs) s') (blocks s (as @ [p]))"
  using assms
proof (induction ns arbitrary: s as p rs)
  case Nil
  then show ?case using looks_tail by auto
next
  case (Cons n ns)
  then obtain r s1 rs1 where m: "malloc n s = Some (r, s1)" "allocs malloc ns s1 = Some (rs1, s')" "rs = r # rs1"
    by (auto simp: bind_eq_Some_conv)
  have nz: "r \<noteq> 0" "0 \<notin> set rs1" using Cons.prems(3) m(3) by auto
  consider (cut) q where "tail_free s1 (as @ [p]) q" "release p (blocks s1 (as @ [p, q])) = blocks s (as @ [p])"
    | (whole) "all_used s1 (as @ [p])" "release p (blocks s1 (as @ [p])) = blocks s (as @ [p])"
    using malloc_last [OF Cons.prems(1) m(1) nz(1)] by blast
  then obtain bs where bs: "looks (fold free (rev rs1) s') bs" "release p bs = blocks s (as @ [p])" "p \<in> fst ` set bs"
  proof cases
    case cut
    then show ?thesis using that [of "blocks s1 (as @ [p, q])"] Cons.IH [OF cut(1) m(2) nz(2)] by simp
  next
    case whole
    have "rs1 = [] \<and> s' = s1"
    proof (cases ns)
      case Nil
      then show ?thesis using m(2) by simp
    next
      case (Cons n' ns')
      then obtain r' s2 where "malloc n' s1 = Some (r', s2)" "r' \<in> set rs1" using m(2) by (auto simp: bind_eq_Some_conv)
      with malloc_full [OF whole(1)] nz(2) show ?thesis by auto
    qed
    with that [of "blocks s1 (as @ [p])"] whole looks_tail(2) show ?thesis by simp
  qed
  have "r = p + 16" using malloc_last [OF Cons.prems(1) m(1) nz(1)] by blast
  with looks_free [OF bs(1,3)] bs(2) show ?case by (simp add: m(3))
qed

lemma allocs_return: "heap_inv s \<Longrightarrow> \<exists>rs s'. allocs malloc ns s = Some (rs, s')"
proof (induction ns arbitrary: s)
  case (Cons n ns)
  then obtain ps where "heap_list s ps" by (auto simp: heap_inv_def)
  then obtain r s1 where r: "malloc n s = Some (r, s1)"
    using malloc_first_fit [of s ps n] by (cases "n = 0") (auto simp: malloc_def)
  then have "heap_inv s1" using malloc_fresh [OF \<open>heap_list s ps\<close>] by blast
  with Cons.IH r show ?case by fastforce
qed simp

subsection \<open>Properties\<close>

lemma fresh_heap: "heap_list (k_init_mem kmem_image) [g_memory]" "tail_free (k_init_mem kmem_image) [] g_memory"
proof -
  show "heap_list (k_init_mem kmem_image) [g_memory]" using init_heap_list [of kmem_image] by (simp add: kmem_image_def)
  then show "tail_free (k_init_mem kmem_image) [] g_memory"
    using init_heap_list [of kmem_image] unfolding tail_free_def demo_init by (simp add: kmem_image_def demo_heap_def g_memory_def)
qed

text \<open>
  C9. A block that \<^verbatim>\<open>malloc\<close> returns lies in the arena, behind the header of the first block and before the end of the
  ten megabytes, all its bytes included, and its address is a multiple of four, for requests of at most \<open>0xFFFFFFFC\<close> bytes.
\<close>

theorem malloc_in_arena:
  assumes "heap_list s ps" and "unat n \<le> 0xFFFFFFFC" and "malloc n s = Some (r, s')" and "r \<noteq> 0"
  shows "unat (head s) + 16 \<le> unat r \<and> unat r + unat n \<le> unat g_memory + 10 * 1024 * 1024 \<and> 4 dvd unat r"
  using malloc_place [OF assms] by (simp add: heap_end_def MAX_MEM_SIZE_def)

theorem malloc_in_arena_witness:
  "unat (0x100010 :: u32) + unat (100 :: u32) \<le> unat g_memory + 10 * 1024 * 1024 \<and> 4 dvd unat (0x100010 :: u32)"
  using malloc_in_arena [OF fresh_heap(1) _ demo_1 [folded demo_init]] by simp

text \<open>
  C8. Last in, first out.  When all free space is the last block, any number of calls of \<^verbatim>\<open>malloc\<close> return, and if none of
  them fails then freeing their results in the reverse order gives back the heap as it was: the same blocks with the same
  lengths and uses, tiled and with right back links.  The back link that \<^verbatim>\<open>malloc\<close> forgets does no harm in this order.
\<close>

theorem malloc_free_lifo:
  assumes "tail_free s as p"
  shows "\<exists>rs s'. allocs malloc ns s = Some (rs, s') \<and>
    (0 \<in> set rs \<or> (\<exists>ps. heap_list (fold free (rev rs) s') ps \<and> back_links (fold free (rev rs) s') ps \<and>
       blocks (fold free (rev rs) s') ps = blocks s (as @ [p])))"
proof -
  have "heap_inv s" using assms by (auto simp: tail_free_def heap_inv_def)
  then obtain rs s' where r: "allocs malloc ns s = Some (rs, s')" using allocs_return by blast
  then show ?thesis using allocs_free_all [OF assms r] unfolding looks_def by blast
qed

theorem malloc_free_lifo_witness:
  "\<exists>ps. let h = demo_heap (hd4 0 0x100074 100 True) (hd4 0x100000 0x1000E8 100 True) (hd4 0x100074 0 0x9FFF08 False) (hd4 0 0 0 False)
    in blocks (free 0x100010 (free 0x100084 h)) ps = [(g_memory, 0x9FFFF0, False)]"
proof -
  have r: "allocs malloc [100, 100] (k_init_mem kmem_image) = Some ([0x100010, 0x100084], demo_heap (hd4 0 0x100074 100 True) (hd4 0x100000 0x1000E8 100 True) (hd4 0x100074 0 0x9FFF08 False) (hd4 0 0 0 False))"
    by (simp add: demo_init demo_1 demo_2)
  have "blocks (k_init_mem kmem_image) [g_memory] = [(g_memory, 0x9FFFF0, False)]"
    by (simp add: blocks_def demo_init demo_heap_def g_memory_def)
  with malloc_free_lifo [OF fresh_heap(2), of "[100, 100]"] r show ?thesis by auto
qed

end
