(* ===== verification/Kernel_Test.thy ===== *)
theory Kernel_Test
  imports Kernel Kmem_Stack
begin

text \<open>
  \<^verbatim>\<open>malloctest\<close> of \<^verbatim>\<open>Src/kernel.c\<close>, the composition of the random numbers, the allocator, the console and the clock: a
  hundred rounds of allocating a block of random size, freeing it and sleeping twice.
\<close>

subsection \<open>One block of free memory\<close>

lemma looks_one:
  assumes "looks t [(p, l, False)]"
  shows "tail_free t [] p \<and> blocks t [p] = [(p, l, False)]"
proof -
  obtain ps where ps: "heap_list t ps" "back_links t ps" "blocks t ps = [(p, l, False)]" using assms by (auto simp: looks_def)
  then have "ps = [p]" by (auto simp: blocks_def)
  with ps show ?thesis by (auto simp: tail_free_def blocks_def)
qed

lemma malloc_free_one:
  assumes "tail_free h [] p"
  shows "\<exists>r h'. malloc n h = Some (r, h') \<and> tail_free (free r h') [] p \<and> blocks (free r h') [p] = blocks h [p]"
proof -
  have one: "blocks h [p] = [(p, len h p, False)]" using assms by (simp add: tail_free_def blocks_def)
  have "heap_inv h" using assms by (auto simp: tail_free_def heap_inv_def)
  then obtain r h' where m: "malloc n h = Some (r, h')" using allocs_return [of h "[n]"] by (auto simp: bind_eq_Some_conv)
  show ?thesis
  proof (cases "r = 0")
    case False
    have "allocs malloc [n] h = Some ([r], h')" using m by simp
    then have "looks (fold free (rev [r]) h') (blocks h ([] @ [p]))" using False by (intro allocs_free_all [OF assms \<open>allocs malloc [n] h = Some ([r], h')\<close>]) simp
    then have "looks (free r h') [(p, len h p, False)]" by (simp add: one)
    then show ?thesis using looks_one one m by force
  next
    case True
    have hl: "heap_list h [p]" using assms by (simp add: tail_free_def)
    have "h' = h"
    proof (cases "n = 0")
      case False
      with hl show ?thesis
      proof (cases rule: malloc_result)
        case (taken as q bs)
        then show ?thesis using m True seg_bounds(1) hl block_place(2) [OF hl, of p]
          by (cases as) (auto simp: unat_0_iff [symmetric])
      qed (use m in simp)
    qed (use m in \<open>simp add: malloc_def\<close>)
    then show ?thesis using m True assms by (simp add: free_def)
  qed
qed

subsection \<open>One round\<close>

text \<open>The schedule of a sleep that ends: at some reading of the clock, the \<open>i\<close>-th round of the loop of \<^verbatim>\<open>k_sleep\<close> for any
  \<open>i\<close>, a hundred interrupts have arrived since the first, and at most \<open>T\<close> in all.\<close>

definition wakes :: "nat \<Rightarrow> u32 \<Rightarrow> platform \<Rightarrow> bool" where
  "wakes T a P \<longleftrightarrow> timer_ok P \<and> timer_address P = a \<and> mono (due P) \<and>
     (\<exists>i \<ge> 1. due P 0 + 100 \<le> due P i \<and> due P i \<le> T)"

lemma wakes_sleep:
  assumes "wakes T (interrupt_handlers k 32) P" and "unat (global_tick k) + T + 100 < 4294967296"
  shows "\<exists>k'. sleep_on P 100 k = Some (Some k') \<and> interrupt_handlers k' = interrupt_handlers k \<and>
    unat (global_tick k) + 100 \<le> unat (global_tick k') \<and> unat (global_tick k') \<le> unat (global_tick k) + T"
proof -
  obtain i where i: "1 \<le> i" "due P 0 + 100 \<le> due P i" "due P i \<le> T" using assms(1) by (auto simp: wakes_def)
  have "\<exists>k'. sleep_on P 100 k = Some (Some k') \<and> same_gates k k' \<and>
      unat (global_tick k) + due P 0 + unat (100 :: u32) \<le> unat (global_tick k') \<and>
      unat (global_tick k') \<le> unat (global_tick k) + due P i"
    using assms i by (intro sleep_on_until) (auto simp: wakes_def)
  then obtain k' where "sleep_on P 100 k = Some (Some k')" "same_gates k k'"
    "unat (global_tick k) + due P 0 + 100 \<le> unat (global_tick k')" "unat (global_tick k') \<le> unat (global_tick k) + due P i"
    by auto
  then show ?thesis using assms(1) i(3) by (intro exI [of _ k']) (simp add: wakes_def same_gates_def)
qed

lemma message_same: "message str k = Some k' \<Longrightarrow> same_kernel k' k" for k :: kernel
  by (simp add: message_def same_kernel_printf)

lemma messages_return: "\<exists>k' :: kernel. message ''MALLOC'' k = Some k'" "\<exists>k' :: kernel. message ''FREE'' k = Some k'"
  by (simp_all add: message_def printf_pieces cstr_def)

lemma round_returns:
  assumes "wakes T (interrupt_handlers k 32) (Ps (2 * i))" and "wakes T (interrupt_handlers k 32) (Ps (2 * i + 1))"
    and "tail_free h [] p" and "unat (global_tick k) + 2 * T + 100 < 4294967296"
  shows "\<exists>k' h'. malloctest_round Ps i (k, h) = Some (Some (k', h')) \<and> tail_free h' [] p \<and> blocks h' [p] = blocks h [p] \<and>
    interrupt_handlers k' = interrupt_handlers k \<and> unat (global_tick k) + 200 \<le> unat (global_tick k') \<and>
    unat (global_tick k') \<le> unat (global_tick k) + 2 * T"
proof -
  obtain r k0 where r: "k_rand k = (r, k0)" "interrupt_handlers k0 = interrupt_handlers k" "global_tick k0 = global_tick k"
    by (simp add: k_rand_def Let_def)
  obtain q h' where h': "malloc (r mod 1000) h = Some (q, h')" "tail_free (free q h') [] p" "blocks (free q h') [p] = blocks h [p]"
    using malloc_free_one [OF assms(3)] by blast
  obtain k1 where k1: "message ''MALLOC'' k0 = Some k1" "same_kernel k1 k0" using messages_return message_same by blast
  obtain k2 where k2: "sleep_on (Ps (2 * i)) 100 k1 = Some (Some k2)" "interrupt_handlers k2 = interrupt_handlers k1"
    "unat (global_tick k1) + 100 \<le> unat (global_tick k2)" "unat (global_tick k2) \<le> unat (global_tick k1) + T"
    using wakes_sleep [of T k1 "Ps (2 * i)"] assms k1(2) r by (auto simp: same_kernel_def)
  obtain k3 where k3: "message ''FREE'' k2 = Some k3" "same_kernel k3 k2" using messages_return message_same by blast
  obtain k4 where k4: "sleep_on (Ps (2 * i + 1)) 100 k3 = Some (Some k4)" "interrupt_handlers k4 = interrupt_handlers k3"
    "unat (global_tick k3) + 100 \<le> unat (global_tick k4)" "unat (global_tick k4) \<le> unat (global_tick k3) + T"
    using wakes_sleep [of T k3 "Ps (2 * i + 1)"] assms k1(2) k2 k3(2) r by (auto simp: same_kernel_def)
  have "malloctest_round Ps i (k, h) = Some (Some (k4, free q h'))"
    using r(1) h'(1) k1(1) k2(1) k3(1) k4(1) by (simp add: malloctest_round_def say_and_sleep_def)
  then show ?thesis using h' r k1(2) k2 k3(2) k4 by (auto simp: same_kernel_def)
qed

lemma rounds_return:
  assumes "\<forall>j < 2 * n. wakes T (interrupt_handlers k 32) (Ps j)" and "tail_free h [] p"
    and "unat (global_tick k) + 2 * T * n + 100 < 4294967296"
  shows "\<exists>k' h'. malloctest_rounds Ps n (k, h) = Some (Some (k', h')) \<and> tail_free h' [] p \<and> blocks h' [p] = blocks h [p] \<and>
    interrupt_handlers k' = interrupt_handlers k \<and> unat (global_tick k) + 200 * n \<le> unat (global_tick k') \<and>
    unat (global_tick k') \<le> unat (global_tick k) + 2 * T * n"
  using assms
proof (induction n)
  case (Suc n)
  then obtain k1 h1 where k1: "malloctest_rounds Ps n (k, h) = Some (Some (k1, h1))" "tail_free h1 [] p" "blocks h1 [p] = blocks h [p]"
    "interrupt_handlers k1 = interrupt_handlers k" "unat (global_tick k) + 200 * n \<le> unat (global_tick k1)"
    "unat (global_tick k1) \<le> unat (global_tick k) + 2 * T * n" by fastforce
  have "\<exists>k' h'. malloctest_round Ps n (k1, h1) = Some (Some (k', h')) \<and> tail_free h' [] p \<and> blocks h' [p] = blocks h1 [p] \<and>
    interrupt_handlers k' = interrupt_handlers k1 \<and> unat (global_tick k1) + 200 \<le> unat (global_tick k') \<and>
    unat (global_tick k') \<le> unat (global_tick k1) + 2 * T"
    using Suc.prems k1 by (intro round_returns) (simp_all add: algebra_simps)
  then show ?case using k1 by (fastforce simp: algebra_simps)
qed simp

subsection \<open>The test\<close>

text \<open>
  C17. The allocator test ends and leaves the allocator as it found it: when the arena is one free block, every one of the two
  hundred sleeps has a timer schedule that ends it after at most \<open>T\<close> interrupts, and the clock has room for all of them,
  then \<^verbatim>\<open>malloctest\<close> returns whatever sizes the random numbers ask for, size 0 included; the arena is again one free block of
  the same length, the handlers are unchanged, and between 20000 and \<open>200 * T\<close> ticks have passed.
\<close>

theorem malloctest_restores_heap:
  assumes "tail_free h [] p" and "\<forall>j < 200. wakes T (interrupt_handlers k 32) (Ps j)"
    and "unat (global_tick k) + 200 * T + 100 < 4294967296"
  shows "\<exists>k' h'. malloctest Ps (k, h) = Some (Some (k', h')) \<and> tail_free h' [] p \<and> len h' p = len h p \<and>
    interrupt_handlers k' = interrupt_handlers k \<and> unat (global_tick k) + 20000 \<le> unat (global_tick k') \<and>
    unat (global_tick k') \<le> unat (global_tick k) + 200 * T"
  using rounds_return [of 100 T k Ps h p] assms by (auto simp: malloctest_def blocks_def)

text \<open>Thirty interrupts arrive between two readings of the clock, so each sleep goes round its loop four times.\<close>

theorem malloctest_restores_heap_witness:
  "\<exists>k' h'. malloctest (\<lambda>_. demo_platform\<lparr>due := \<lambda>i. 30 * i\<rparr>) (demo_kernel\<lparr>interrupt_handlers := \<lambda>_. 0x5000\<rparr>, k_init_mem kmem_image) =
     Some (Some (k', h')) \<and> len h' g_memory = 0x9FFFF0 \<and> unat (global_tick k') \<le> 24000"
proof -
  let ?k = "demo_kernel\<lparr>interrupt_handlers := \<lambda>_. 0x5000\<rparr>" and ?P = "demo_platform\<lparr>due := \<lambda>i. 30 * i\<rparr>"
  have "wakes 120 0x5000 ?P"
    using demo_platform_ok(1) by (auto simp: wakes_def timer_ok_def mono_def demo_platform_def intro!: exI [of _ 4])
  then have "\<forall>j < 200. wakes 120 (interrupt_handlers ?k 32) ((\<lambda>_. ?P) (j :: nat))" by simp
  moreover have t: "unat (global_tick ?k) = 0" using demo_platform_ok(3) by simp
  moreover have "len (k_init_mem kmem_image) g_memory = 0x9FFFF0" by (simp add: demo_init demo_heap_def g_memory_def)
  ultimately show ?thesis using malloctest_restores_heap [OF fresh_heap(2), of 120 ?k "\<lambda>_. ?P"] by auto
qed

end
