(* ===== verification/Kheap.thy ===== *)
theory Kheap
  imports Block_List Mem_Ops
begin

text \<open>
  \<^verbatim>\<open>Src/memory/heap.c\<close>: the second allocator of the kernel, with aligned allocation.  Headers are kept
  in a store keyed by address, as in the theory \<open>Kmem\<close>; a \<^verbatim>\<open>Block\<close> takes 16 bytes.  The loop of
  \<^verbatim>\<open>heap_alloc\<close> can end in four ways: with a pointer, in \<^verbatim>\<open>panic\<close> (which halts the machine), by
  dereferencing a null \<^verbatim>\<open>next\<close> pointer, or by dividing by a zero alignment.
\<close>

record Block =
  bnext :: u32
  bprev :: u32
  bsz :: u32
  bfree :: bool

record kheap =
  bhdr :: "u32 \<Rightarrow> Block"
  hbytes :: bytes

datatype alloc_end = Ptr u32 | Panic | Null_Deref | Div_Zero

definition HEAP_START :: u32 where "HEAP_START = 0xA00000"
definition HEAP_SIZE :: u32 where "HEAP_SIZE = 0x3200000"
definition sizeof_Block :: u32 where "sizeof_Block = 16"

definition zero_block :: Block where
  "zero_block = \<lparr>bnext = 0, bprev = 0, bsz = 0, bfree = False\<rparr>"

subsection \<open>Operations\<close>

definition upd_blk :: "u32 \<Rightarrow> (Block \<Rightarrow> Block) \<Rightarrow> kheap \<Rightarrow> kheap" where
  "upd_blk p f s = s\<lparr>bhdr := (bhdr s)(p := f (bhdr s p))\<rparr>"

definition HEADER_TO_PTR :: "u32 \<Rightarrow> u32" where
  "HEADER_TO_PTR blk = blk + sizeof_Block"

text \<open>\<^verbatim>\<open>memset\<close> over the arena clears payload bytes and whatever headers lie in it.\<close>

definition heap_init :: "kheap \<Rightarrow> kheap" where
  "heap_init s =
     (let s = s\<lparr>hbytes := memset (hbytes s) (unat HEAP_START) 0 (unat HEAP_SIZE),
                bhdr := (\<lambda>p. if HEAP_START \<le> p \<and> p < HEAP_START + HEAP_SIZE then zero_block else bhdr s p)\<rparr>
      in upd_blk HEAP_START
           (\<lambda>_. \<lparr>bnext = 0, bprev = 0, bsz = HEAP_SIZE - sizeof_Block, bfree = True\<rparr>) s)"

text \<open>Moving a header forward by \<open>pad\<close> bytes, with the neighbours' links and size.\<close>

definition move_block :: "u32 \<Rightarrow> u32 \<Rightarrow> kheap \<Rightarrow> kheap" where
  "move_block blk pad s =
     (let tmp = bhdr s blk;
          s = upd_blk blk (\<lambda>_. zero_block) s;
          blk = blk + pad;
          s = upd_blk blk (\<lambda>_. tmp) s;
          s = upd_blk blk (\<lambda>b. b\<lparr>bsz := bsz b - pad\<rparr>) s;
          s = (if bprev (bhdr s blk) \<noteq> 0 then
                 let s = upd_blk (bprev (bhdr s blk)) (\<lambda>b. b\<lparr>bsz := bsz b + pad\<rparr>) s
                 in upd_blk (bprev (bhdr s blk)) (\<lambda>b. b\<lparr>bnext := blk\<rparr>) s
               else s)
      in if bnext (bhdr s blk) \<noteq> 0
         then upd_blk (bnext (bhdr s blk)) (\<lambda>b. b\<lparr>bprev := blk\<rparr>) s else s)"

definition carve :: "u32 \<Rightarrow> u32 \<Rightarrow> kheap \<Rightarrow> kheap" where
  "carve sz blk s =
     (let new_blk = HEADER_TO_PTR blk + sz;
          s = upd_blk new_blk (\<lambda>_. \<lparr>bnext = bnext (bhdr s blk), bprev = blk,
                bsz = bsz (bhdr s blk) - sz - sizeof_Block, bfree = True\<rparr>) s;
          s = upd_blk blk (\<lambda>b. b\<lparr>bnext := new_blk\<rparr>) s;
          s = upd_blk blk (\<lambda>b. b\<lparr>bsz := sz\<rparr>) s
      in upd_blk blk (\<lambda>b. b\<lparr>bfree := False\<rparr>) s)"

text \<open>
  The \<^verbatim>\<open>for\<close> loop.  The first \<^verbatim>\<open>continue\<close> is guarded against the end of the list, the second (not enough
  room after padding) is not: it takes \<^verbatim>\<open>blk->next\<close> whatever it is.
\<close>

partial_function (option) heap_alloc_loop ::
  "u32 \<Rightarrow> u32 \<Rightarrow> u32 \<Rightarrow> kheap \<Rightarrow> (alloc_end \<times> kheap) option" where
  "heap_alloc_loop sz align blk s =
     (if blk = 0 then Some (Null_Deref, s)
      else if \<not> bfree (bhdr s blk) \<or> bsz (bhdr s blk) < sz + sizeof_Block then
        if bnext (bhdr s blk) = 0 then Some (Panic, s)
        else heap_alloc_loop sz align (bnext (bhdr s blk)) s
      else if align = 0 then Some (Div_Zero, s)
      else
        let rest = HEADER_TO_PTR blk mod align in
        if rest = 0 then Some (Ptr (HEADER_TO_PTR blk), carve sz blk s)
        else
          let sz_pad = align - rest in
          if bsz (bhdr s blk) - sz_pad < sz then heap_alloc_loop sz align (bnext (bhdr s blk)) s
          else Some (Ptr (HEADER_TO_PTR (blk + sz_pad)), carve sz (blk + sz_pad) (move_block blk sz_pad s)))"

definition heap_alloc :: "u32 \<Rightarrow> u32 \<Rightarrow> kheap \<Rightarrow> (alloc_end \<times> kheap) option" where
  "heap_alloc sz align s = heap_alloc_loop sz align HEAP_START s"

definition heap_free :: "u32 \<Rightarrow> kheap \<Rightarrow> kheap" where
  "heap_free p s =
     (if p = 0 then s
      else
        let blk = p - sizeof_Block; h = bhdr s; nx = bnext (h blk);
            s = (if nx \<noteq> 0 \<and> bfree (h nx) then
                   let s = upd_blk blk (\<lambda>b. b\<lparr>bsz := bsz b + (sizeof_Block + bsz (h nx))\<rparr>) s;
                       s = (if bnext (bhdr s nx) \<noteq> 0
                            then upd_blk (bnext (bhdr s nx)) (\<lambda>b. b\<lparr>bprev := blk\<rparr>) s else s)
                   in upd_blk blk (\<lambda>b. b\<lparr>bnext := bnext (bhdr s nx)\<rparr>) s
                 else s);
            h = bhdr s; pv = bprev (h blk)
        in if pv \<noteq> 0 \<and> bfree (h pv) then
             let s = upd_blk pv (\<lambda>b. b\<lparr>bsz := bsz b + (sizeof_Block + bsz (h blk))\<rparr>) s;
                 s = (if bnext (bhdr s blk) \<noteq> 0
                      then upd_blk (bnext (bhdr s blk)) (\<lambda>b. b\<lparr>bprev := pv\<rparr>) s else s);
                 s = upd_blk pv (\<lambda>b. b\<lparr>bnext := bnext (bhdr s blk)\<rparr>) s
             in upd_blk pv (\<lambda>b. b\<lparr>bfree := True\<rparr>) s
           else upd_blk blk (\<lambda>b. b\<lparr>bfree := True\<rparr>) s)"

text \<open>\<^verbatim>\<open>heap_calloc\<close> clears by items of 2 or 4 bytes or byte by byte, according to the item size.\<close>

definition heap_calloc :: "u32 \<Rightarrow> u32 \<Rightarrow> u32 \<Rightarrow> kheap \<Rightarrow> (alloc_end \<times> kheap) option" where
  "heap_calloc item_n item_sz align s = do {
     (r, s) \<leftarrow> heap_alloc (item_n * item_sz) align s;
     Some (r, case r of
         Ptr p \<Rightarrow> s\<lparr>hbytes := memset (hbytes s) (unat p) 0
           (if item_sz = 2 then 2 * unat item_n else if item_sz = 4 then 4 * unat item_n
            else unat (item_n * item_sz))\<rparr>
       | _ \<Rightarrow> s) }"

subsection \<open>Invariant\<close>

definition heap_limit :: nat where "heap_limit = unat HEAP_START + unat HEAP_SIZE"

abbreviation bnx :: "kheap \<Rightarrow> u32 \<Rightarrow> u32" where "bnx s p \<equiv> bnext (bhdr s p)"
abbreviation bln :: "kheap \<Rightarrow> u32 \<Rightarrow> u32" where "bln s p \<equiv> bsz (bhdr s p)"

definition block_list :: "kheap \<Rightarrow> u32 list \<Rightarrow> bool" where
  "block_list s ps \<longleftrightarrow> ps \<noteq> [] \<and> hd ps = HEAP_START \<and> seg (bnx s) (bln s) ps 0 heap_limit"

definition kheap_inv :: "kheap \<Rightarrow> bool" where
  "kheap_inv s \<longleftrightarrow> (\<exists>ps. block_list s ps)"

definition busy :: "kheap \<Rightarrow> nat set" where
  "busy s = {a. \<exists>ps p. block_list s ps \<and> p \<in> set ps \<and> \<not> bfree (bhdr s p) \<and> a \<in> payload (bln s) p}"

definition roomy :: "u32 \<Rightarrow> kheap \<Rightarrow> u32 \<Rightarrow> bool" where
  "roomy sz s p \<longleftrightarrow> bfree (bhdr s p) \<and> unat sz + 16 \<le> unat (bln s p)"

lemma heap_limit_eq: "heap_limit = 0x3C00000"
  by (simp add: heap_limit_def HEAP_START_def HEAP_SIZE_def)

lemma heap_limit_le: "heap_limit \<le> 2 ^ 32 - 1"
  by (simp add: heap_limit_def HEAP_START_def HEAP_SIZE_def)

lemma block_list_unique: "block_list s ps \<Longrightarrow> block_list s qs \<Longrightarrow> ps = qs"
  by (auto simp: block_list_def intro: seg_unique)

lemma busy_eq: "block_list s ps \<Longrightarrow> busy s = (\<Union>p \<in> {p \<in> set ps. \<not> bfree (bhdr s p)}. payload (bln s) p)"
  unfolding busy_def using block_list_unique by blast

lemma init_block_list: "block_list (heap_init s) [HEAP_START]"
  by (simp add: block_list_def heap_init_def upd_blk_def heap_limit_def HEAP_START_def HEAP_SIZE_def
      sizeof_Block_def Let_def)

subsection \<open>Unpadded allocation\<close>

lemma room_iff:
  "unat sz < 0xFFFFFFF0 \<Longrightarrow> bsz b < sz + sizeof_Block \<longleftrightarrow> \<not> unat sz + 16 \<le> unat (bsz b)"
  by (simp add: sizeof_Block_def word_less_nat_alt unat_word_ariths not_le)

text \<open>The test of the code, with its sum of 32 bits; it means \<open>roomy\<close> as long as the sum does not wrap.\<close>

definition passes :: "u32 \<Rightarrow> kheap \<Rightarrow> u32 \<Rightarrow> bool" where
  "passes sz s p \<longleftrightarrow> bfree (bhdr s p) \<and> \<not> bln s p < sz + sizeof_Block"

lemma passes_roomy: "unat sz < 0xFFFFFFF0 \<Longrightarrow> passes sz s = roomy sz s"
  using room_iff [of sz] by (auto simp: passes_def roomy_def fun_eq_iff)

lemma passes_wrap:
  assumes "0xFFFFFFF0 \<le> unat sz" and "bfree (bhdr s p)" and "15 \<le> unat (bln s p)"
  shows "passes sz s p"
proof -
  have lt: "unat sz < 4294967296" using unsigned_less [of sz] by simp
  have "unat (sz + sizeof_Block) = (unat sz + 16) mod 4294967296" by (simp add: sizeof_Block_def unat_word_ariths)
  also have "\<dots> = unat sz + 16 - 4294967296"
    by (subst le_mod_geq) (use assms(1) lt in \<open>linarith, intro mod_less, linarith\<close>)
  finally have "unat (sz + sizeof_Block) \<le> 15" using lt by linarith
  then show ?thesis using assms(2,3) by (simp add: passes_def word_less_nat_alt not_less)
qed

lemma alloc_loop_find:
  "seg (bnx s) (bln s) ps 0 e \<Longrightarrow> ps \<noteq> [] \<Longrightarrow>
   heap_alloc_loop sz 1 (hd ps) s =
     Some (case find (passes sz s) ps of None \<Rightarrow> (Panic, s) | Some p \<Rightarrow> (Ptr (p + 16), carve sz p s))"
proof (induction ps)
  case (Cons p ps)
  have p: "p \<noteq> 0" "bnx s p = (if ps = [] then 0 else hd ps)" and nz: "ps \<noteq> [] \<Longrightarrow> hd ps \<noteq> 0"
    using Cons.prems(1) by (cases ps; auto)+
  have m1: "HEADER_TO_PTR p mod 1 = 0" by simp
  show ?case
  proof (cases "passes sz s p")
    case True
    then have "\<not> (\<not> bfree (bhdr s p) \<or> bln s p < sz + sizeof_Block)"
      by (simp add: passes_def)
    then show ?thesis
      using p(1) True m1
      by (subst heap_alloc_loop.simps) (simp add: HEADER_TO_PTR_def sizeof_Block_def Let_def)
  next
    case False
    then have c: "\<not> bfree (bhdr s p) \<or> bln s p < sz + sizeof_Block"
      by (auto simp: passes_def)
    show ?thesis
    proof (cases "ps = []")
      case True
      then show ?thesis using False p c by (subst heap_alloc_loop.simps) simp
    next
      case False
      then have "heap_alloc_loop sz 1 (hd (p # ps)) s = heap_alloc_loop sz 1 (hd ps) s"
        using p nz c by (subst heap_alloc_loop.simps) simp
      then show ?thesis
        using Cons.IH Cons.prems False \<open>\<not> passes sz s p\<close> by simp
    qed
  qed
qed simp

lemma heap_alloc_result:
  assumes "block_list s ps" and "unat sz < 0xFFFFFFF0"
  obtains (full) "heap_alloc sz 1 s = Some (Panic, s)" "\<forall>p \<in> set ps. \<not> roomy sz s p"
  | (taken) as p bs where "ps = as @ p # bs" "roomy sz s p" "\<forall>a \<in> set as. \<not> roomy sz s a"
      "heap_alloc sz 1 s = Some (Ptr (p + 16), carve sz p s)"
proof -
  have m: "heap_alloc sz 1 s =
      Some (case find (roomy sz s) ps of None \<Rightarrow> (Panic, s) | Some p \<Rightarrow> (Ptr (p + 16), carve sz p s))"
    using alloc_loop_find [of s ps heap_limit sz] assms by (simp add: heap_alloc_def block_list_def passes_roomy)
  show ?thesis
  proof (cases "find (roomy sz s) ps")
    case None
    then have "heap_alloc sz 1 s = Some (Panic, s)" using m by simp
    with None show ?thesis using full by (simp add: find_None_iff)
  next
    case (Some p)
    then obtain as bs where "ps = as @ p # bs" "roomy sz s p" "\<forall>a \<in> set as. \<not> roomy sz s a"
      using find_split [OF Some] by (elim exE conjE)
    moreover have "heap_alloc sz 1 s = Some (Ptr (p + 16), carve sz p s)"
      unfolding m Some by simp
    ultimately show ?thesis by (rule taken)
  qed
qed

lemma heap_alloc_wraps:
  assumes "block_list s ps" and "0xFFFFFFF0 \<le> unat sz" and "p \<in> set ps" and "bfree (bhdr s p)" and "15 \<le> unat (bln s p)"
  shows "\<exists>p \<in> set ps. bfree (bhdr s p) \<and> unat (bln s p) < unat sz \<and> (\<exists>s'. heap_alloc sz 1 s = Some (Ptr (p + 16), s'))"
proof -
  have sg: "seg (bnx s) (bln s) ps 0 heap_limit" using assms(1) by (simp add: block_list_def)
  have "passes sz s p" by (rule passes_wrap [OF assms(2,4,5)])
  then obtain q where q: "find (passes sz s) ps = Some q" "q \<in> set ps" "passes sz s q"
    using assms(3) by (cases "find (passes sz s) ps") (auto simp: find_None_iff find_Some_iff)
  have "heap_alloc sz 1 s = Some (Ptr (q + 16), carve sz q s)"
    using alloc_loop_find [of s ps heap_limit sz] assms(1) q(1) by (simp add: heap_alloc_def block_list_def)
  moreover have "unat (bln s q) < unat sz" using seg_bounds [OF sg q(2)] heap_limit_eq assms(2) by simp
  ultimately show ?thesis using q(2,3) by (auto simp: passes_def)
qed

lemma carve_hdr:
  "p + 16 + sz \<noteq> p \<Longrightarrow> bhdr (carve sz p s) = (bhdr s)
     (p + 16 + sz := \<lparr>bnext = bnx s p, bprev = p, bsz = bln s p - sz - 16, bfree = True\<rparr>,
      p := bhdr s p\<lparr>bnext := p + 16 + sz, bsz := sz, bfree := False\<rparr>)"
  by (simp add: carve_def upd_blk_def HEADER_TO_PTR_def sizeof_Block_def Let_def)

lemma carve_list:
  assumes "block_list s (as @ p # bs)" and "roomy sz s p"
  defines "q \<equiv> p + 16 + sz" and "s' \<equiv> carve sz p s"
  shows "block_list s' (as @ p # q # bs)" and "busy s' = busy s \<union> payload (bln s') p"
    and "bln s' p = sz" and "payload (bln s') p \<inter> busy s = {}"
proof -
  have sg: "seg (bnx s) (bln s) (as @ p # bs) 0 heap_limit" using assms(1) by (simp add: block_list_def)
  have r: "unat sz + 16 \<le> unat (bln s p)" "bfree (bhdr s p)" using assms(2) by (auto simp: roomy_def)
  note cut = seg_cut [OF sg heap_limit_le r(1), folded q_def]
  have qp: "q \<noteq> p" "q \<notin> set as" "q \<notin> set bs" using cut(3) by auto
  have d: "p \<notin> set as" "p \<notin> set bs" using seg_distinct [OF sg] by auto
  have h: "bhdr s' = (bhdr s)
      (q := \<lparr>bnext = bnx s p, bprev = p, bsz = bln s p - sz - 16, bfree = True\<rparr>,
       p := bhdr s p\<lparr>bnext := q, bsz := sz, bfree := False\<rparr>)"
    using carve_hdr [of p sz s] qp(1) by (simp add: q_def s'_def)
  have "bnx s' = (bnx s)(p := q, q := bnx s p)" "bln s' = (bln s)(q := bln s p - sz - 16, p := sz)"
    using qp(1) by (auto simp: h fun_eq_iff)
  then show l: "block_list s' (as @ p # q # bs)"
    using cut(1) assms(1) by (auto simp: block_list_def hd_append)
  show sz: "bln s' p = sz" by (simp add: h)
  have same: "bhdr s' x = bhdr s x" if "x \<in> set as \<union> set bs" for x
    using that d qp by (auto simp: h)
  have "\<not> bfree (bhdr s' p)" "bfree (bhdr s' q)" using qp(1) by (simp_all add: h)
  then have "{x \<in> set (as @ p # q # bs). \<not> bfree (bhdr s' x)} =
      insert p {x \<in> set (as @ p # bs). \<not> bfree (bhdr s x)}"
    using same r(2) by auto
  moreover have "payload (bln s') x = payload (bln s) x" if "x \<in> {x \<in> set (as @ p # bs). \<not> bfree (bhdr s x)}" for x
    using that same [of x] r(2) by (auto simp: payload_def)
  ultimately show "busy s' = busy s \<union> payload (bln s') p"
    unfolding busy_eq [OF l] busy_eq [OF assms(1)] by auto
  have "payload (bln s') p \<subseteq> payload (bln s) p" using r(1) by (auto simp: payload_def sz)
  then show "payload (bln s') p \<inter> busy s = {}"
    using seg_disjoint [OF sg, of p] r(2) by (force simp: busy_eq [OF assms(1)])
qed

text \<open>\<open>kalloc\<close> is \<^verbatim>\<open>heap_alloc\<close> with alignment 1 as its clients see it: a pointer or a halted machine.\<close>

definition kalloc :: "u32 \<Rightarrow> kheap \<Rightarrow> (u32 \<times> kheap) option" where
  "kalloc sz s = (if unat sz < 0xFFFFFFF0
     then case heap_alloc sz 1 s of Some (Ptr r, s') \<Rightarrow> Some (r, s') | _ \<Rightarrow> None else None)"

lemma kalloc_fresh:
  assumes "block_list s ps" and "kalloc n s = Some (r, s')"
  shows "kheap_inv s' \<and> busy s \<subseteq> busy s' \<and> region r n \<inter> busy s = {} \<and> region r n \<subseteq> busy s'"
proof -
  have n: "unat n < 0xFFFFFFF0" using assms(2) by (auto simp: kalloc_def split: if_splits)
  with assms(1) show ?thesis
  proof (cases rule: heap_alloc_result)
    case full
    with assms(2) show ?thesis by (simp add: kalloc_def split: if_splits)
  next
    case (taken as p bs)
    have r: "r = p + 16" "s' = carve n p s" using assms(2) taken(4) n by (auto simp: kalloc_def)
    note c = carve_list [OF assms(1) [unfolded taken(1)] taken(2), folded r(2)]
    have "unat p + 16 + unat (bln s p) \<le> heap_limit"
      using assms(1) taken(1) seg_bounds [of "bnx s" "bln s" ps 0 heap_limit p] by (auto simp: block_list_def)
    then have "unat (p + 16) = unat p + 16" using heap_limit_le by (simp add: unat_word_ariths)
    then have "region r n \<subseteq> payload (bln s') p"
      by (auto simp: region_def payload_def r(1) c(3))
    with c show ?thesis by (auto simp: kheap_inv_def)
  qed
qed

interpretation khp: allocator kalloc "\<lambda>n. unat n < 0xFFFFFFF0" kheap_inv busy
  by unfold_locales (auto simp: kheap_inv_def dest: kalloc_fresh)

subsection \<open>Alignment\<close>

lemma pad_aligns:
  fixes p a :: u32
  assumes a: "a \<noteq> 0" and "unat p + unat a < 2 ^ 32"
  shows "unat a dvd unat (p + (a - p mod a))"
proof -
  have m: "unat (p mod a) = unat p mod unat a" by (simp add: unat_mod)
  have lt: "unat p mod unat a < unat a" using a by (simp add: unat_gt_0)
  have s: "unat (a - p mod a) = unat a - unat p mod unat a"
    using lt m by (simp add: unat_sub word_le_nat_alt)
  then have "unat (p + (a - p mod a)) = unat p + (unat a - unat p mod unat a)"
    using assms(2) lt by (simp add: unat_word_ariths)
  also have "\<dots> = unat a * (unat p div unat a + 1)"
    using lt by (simp add: algebra_simps minus_mod_eq_mult_div [symmetric])
  finally show ?thesis by simp
qed

lemma alloc_loop_aligned:
  "seg (bnx s) (bln s) ps 0 heap_limit \<Longrightarrow> ps \<noteq> [] \<Longrightarrow> align \<noteq> 0 \<Longrightarrow> unat align \<le> 2 ^ 31 \<Longrightarrow>
   \<exists>r s'. heap_alloc_loop sz align (hd ps) s = Some (r, s') \<and> (\<forall>a. r = Ptr a \<longrightarrow> unat align dvd unat a)"
proof (induction ps)
  case (Cons p ps)
  have p: "p \<noteq> 0" "bnx s p = (if ps = [] then 0 else hd ps)"
    using Cons.prems(1) by auto
  have next_ok: "\<exists>r s'. heap_alloc_loop sz align (bnx s p) s = Some (r, s') \<and> (\<forall>a. r = Ptr a \<longrightarrow> unat align dvd unat a)"
  proof (cases "ps = []")
    case True
    then show ?thesis using p(2) by (subst heap_alloc_loop.simps) simp
  next
    case False
    then show ?thesis using Cons p(2) by simp
  qed
  have b: "unat p + 16 \<le> heap_limit" using seg_bounds [OF Cons.prems(1), of p] by simp
  then have h: "unat (HEADER_TO_PTR p) = unat p + 16"
    using heap_limit_le by (simp add: HEADER_TO_PTR_def sizeof_Block_def unat_word_ariths)
  have al: "HEADER_TO_PTR p mod align = 0 \<Longrightarrow> unat align dvd unat (HEADER_TO_PTR p)"
    by (metis dvd_eq_mod_eq_0 unat_mod unsigned_0)
  have "unat (HEADER_TO_PTR p) + unat align < 2 ^ 32"
    using h b Cons.prems(4) by (simp add: heap_limit_eq)
  then have pad: "unat align dvd unat (HEADER_TO_PTR (p + (align - HEADER_TO_PTR p mod align)))"
    using pad_aligns [OF Cons.prems(3), of "HEADER_TO_PTR p"]
    by (simp add: HEADER_TO_PTR_def [of "p + _"]) (simp add: HEADER_TO_PTR_def algebra_simps)
  show ?case
    using next_ok al pad p(1) Cons.prems(3)
    by (subst heap_alloc_loop.simps) (auto simp: Let_def)
qed simp

subsection \<open>A padded first block\<close>

lemma init_first:
  "bhdr (heap_init s) 0xA00000 = \<lparr>bnext = 0, bprev = 0, bsz = 0x31FFFF0, bfree = True\<rparr>"
  by (simp add: heap_init_def upd_blk_def HEAP_START_def HEAP_SIZE_def sizeof_Block_def Let_def)

lemma first_page_alloc:
  assumes "unat sz \<le> 0x31FF000"
  shows "heap_alloc sz 4096 (heap_init s) =
    Some (Ptr 0xA01000, carve sz 0xA00FF0 (move_block 0xA00000 0xFF0 (heap_init s)))"
proof -
  have "\<not> (0x31FFFF0 :: u32) < sz + 16" "\<not> (0x31FF000 :: u32) < sz"
    using assms by (simp_all add: word_less_nat_alt unat_word_ariths)
  then show ?thesis
    unfolding heap_alloc_def HEAP_START_def
    by (subst heap_alloc_loop.simps) (simp add: init_first sizeof_Block_def HEADER_TO_PTR_def Let_def)
qed

lemma first_page_lost:
  assumes "unat sz \<le> 0x31FF000"
  shows "bhdr (carve sz 0xA00FF0 (move_block 0xA00000 0xFF0 (heap_init s))) 0xA00000 = zero_block"
proof -
  have "(0xA01000 :: u32) + sz \<noteq> 0xA00000"
  proof
    assume "(0xA01000 :: u32) + sz = 0xA00000"
    then have "unat ((0xA01000 :: u32) + sz) = unat (0xA00000 :: u32)" by (rule arg_cong)
    with assms show False by (simp add: unat_word_ariths)
  qed
  then show ?thesis
    by (simp add: carve_def move_block_def upd_blk_def init_first HEADER_TO_PTR_def sizeof_Block_def Let_def)
qed

subsection \<open>A fresh heap\<close>

definition demo_kheap :: kheap where
  "demo_kheap = \<lparr>bhdr = (\<lambda>_. zero_block), hbytes = (\<lambda>_. 0)\<rparr>"

lemma demo_kalloc:
  "kalloc 100 (heap_init demo_kheap) = Some (0xA00010, carve 100 0xA00000 (heap_init demo_kheap))"
  "\<exists>s. kalloc 100 (carve 100 0xA00000 (heap_init demo_kheap)) = Some (0xA00084, s)"
  unfolding kalloc_def heap_alloc_def HEAP_START_def
  by (subst heap_alloc_loop.simps, simp add: init_first sizeof_Block_def HEADER_TO_PTR_def Let_def)
     (subst heap_alloc_loop.simps, simp add: carve_def upd_blk_def init_first sizeof_Block_def HEADER_TO_PTR_def Let_def,
      subst heap_alloc_loop.simps, simp add: sizeof_Block_def HEADER_TO_PTR_def Let_def)

subsection \<open>Properties\<close>

text \<open>
  C33. Unpadded \<^verbatim>\<open>heap_alloc\<close> always ends.  For requests below \<open>0xFFFFFFF0\<close> bytes, on a heap whose headers tile the arena it
  takes the first free block with room for the request and a new header, cuts it, and keeps the tiling; it panics exactly
  when there is no such block.  From \<open>0xFFFFFFF0\<close> on the sum of the request and the header wraps: as soon as there is a
  free block of 15 bytes the call succeeds, with a block that is smaller than the request.
\<close>

theorem heap_alloc_first_fit:
  assumes "block_list s ps"
  shows "(unat sz < 0xFFFFFFF0 \<longrightarrow>
      (heap_alloc sz 1 s = Some (Panic, s) \<and> (\<forall>p \<in> set ps. \<not> roomy sz s p)) \<or>
      (\<exists>as p bs s'. ps = as @ p # bs \<and> roomy sz s p \<and> (\<forall>a \<in> set as. \<not> roomy sz s a) \<and>
        heap_alloc sz 1 s = Some (Ptr (p + 16), s') \<and> block_list s' (as @ p # (p + 16 + sz) # bs) \<and>
        bln s' p = sz \<and> busy s' = busy s \<union> payload (bln s') p)) \<and>
    (0xFFFFFFF0 \<le> unat sz \<and> (\<exists>p \<in> set ps. bfree (bhdr s p) \<and> 15 \<le> unat (bln s p)) \<longrightarrow>
      (\<exists>p \<in> set ps. bfree (bhdr s p) \<and> unat (bln s p) < unat sz \<and> (\<exists>s'. heap_alloc sz 1 s = Some (Ptr (p + 16), s'))))"
proof (intro conjI impI)
  assume n: "unat sz < 0xFFFFFFF0"
  from assms n show "(heap_alloc sz 1 s = Some (Panic, s) \<and> (\<forall>p \<in> set ps. \<not> roomy sz s p)) \<or>
      (\<exists>as p bs s'. ps = as @ p # bs \<and> roomy sz s p \<and> (\<forall>a \<in> set as. \<not> roomy sz s a) \<and>
        heap_alloc sz 1 s = Some (Ptr (p + 16), s') \<and> block_list s' (as @ p # (p + 16 + sz) # bs) \<and>
        bln s' p = sz \<and> busy s' = busy s \<union> payload (bln s') p)"
  proof (cases rule: heap_alloc_result)
    case (taken as p bs)
    then show ?thesis using carve_list [OF assms [unfolded taken(1)] taken(2)] by metis
  qed simp
qed (use heap_alloc_wraps [OF assms] in blast)

theorem heap_alloc_first_fit_witness:
  "(\<exists>s'. heap_alloc 100 1 (heap_init demo_kheap) = Some (Ptr 0xA00010, s') \<and> bln s' HEAP_START = 100) \<and>
   (\<exists>s'. heap_alloc 0xFFFFFFFF 1 (heap_init demo_kheap) = Some (Ptr 0xA00010, s'))"
proof -
  have b: "bfree (bhdr (heap_init demo_kheap) HEAP_START)" "unat (bln (heap_init demo_kheap) HEAP_START) = 0x31FFFF0"
    by (simp_all add: heap_init_def upd_blk_def HEAP_START_def HEAP_SIZE_def sizeof_Block_def Let_def)
  then have "roomy 100 (heap_init demo_kheap) HEAP_START" by (simp add: roomy_def)
  then show ?thesis
    using b heap_alloc_first_fit [OF init_block_list [of demo_kheap], of 100] heap_alloc_first_fit [OF init_block_list [of demo_kheap], of "0xFFFFFFFF"]
    by (auto simp: HEAP_START_def Cons_eq_append_conv)
qed

text \<open>
  Blocks handed out by successive unpadded \<^verbatim>\<open>heap_alloc\<close> calls never overlap each other or a block
  already in use.
\<close>

theorem heap_blocks_disjoint:
  assumes "kheap_inv s" and "\<forall>n \<in> set ns. unat n < 0xFFFFFFF0" and "allocs kalloc ns s = Some (rs, s')"
  shows "kheap_inv s' \<and> (\<forall>i < length ns. region (rs ! i) (ns ! i) \<inter> busy s = {} \<and>
      region (rs ! i) (ns ! i) \<subseteq> busy s') \<and>
    (\<forall>j < length ns. \<forall>i < j. region (rs ! i) (ns ! i) \<inter> region (rs ! j) (ns ! j) = {})"
  using khp.allocs_fresh [OF assms] by blast

theorem heap_blocks_disjoint_witness: "region 0xA00010 100 \<inter> region 0xA00084 100 = {}"
proof -
  have "\<exists>s'. allocs kalloc [100, 100] (heap_init demo_kheap) = Some ([0xA00010, 0xA00084], s')"
    using demo_kalloc(2) by (auto simp: demo_kalloc(1))
  moreover have "kheap_inv (heap_init demo_kheap)"
    using init_block_list by (auto simp: kheap_inv_def)
  ultimately show ?thesis
    using heap_blocks_disjoint [of "heap_init demo_kheap" "[100, 100]"] by (force simp: less_Suc_eq)
qed

text \<open>
  C35. \<^verbatim>\<open>heap_alloc\<close> honours its alignment: for any non-zero alignment up to \<open>2^31\<close> it ends, and a pointer
  it returns is a multiple of the alignment.
\<close>

theorem heap_alloc_aligned:
  assumes "block_list s ps" and "align \<noteq> 0" and "unat align \<le> 2 ^ 31"
  shows "\<exists>r s'. heap_alloc sz align s = Some (r, s') \<and> (\<forall>a. r = Ptr a \<longrightarrow> unat align dvd unat a)"
  using alloc_loop_aligned [of s ps align sz] assms by (simp add: heap_alloc_def block_list_def)

theorem heap_alloc_aligned_witness:
  "\<exists>r s'. heap_alloc 100 4096 (heap_init demo_kheap) = Some (r, s') \<and>
     (\<forall>a. r = Ptr a \<longrightarrow> unat (4096 :: u32) dvd unat a)"
  by (rule heap_alloc_aligned [OF init_block_list]) simp_all

text \<open>
  C36. A page-aligned first allocation loses the heap: on a fresh heap it succeeds, but the header at
  the start of the arena is cleared, and every later \<^verbatim>\<open>heap_alloc\<close>, of any size and alignment,
  panics.
\<close>

theorem aligned_first_alloc_loses_heap:
  assumes "unat sz \<le> 0x31FF000"
  shows "\<exists>s'. heap_alloc sz 4096 (heap_init s) = Some (Ptr 0xA01000, s') \<and>
    (\<forall>n align. heap_alloc n align s' = Some (Panic, s'))"
proof -
  let ?s = "carve sz 0xA00FF0 (move_block 0xA00000 0xFF0 (heap_init s))"
  have "heap_alloc n align ?s = Some (Panic, ?s)" for n align
    unfolding heap_alloc_def HEAP_START_def
    by (subst heap_alloc_loop.simps) (simp add: first_page_lost [OF assms] zero_block_def)
  with first_page_alloc [OF assms] show ?thesis by blast
qed

theorem aligned_first_alloc_loses_heap_witness:
  "\<exists>s'. heap_alloc 4096 4096 (heap_init demo_kheap) = Some (Ptr 0xA01000, s') \<and>
     (\<forall>n align. heap_alloc n align s' = Some (Panic, s'))"
  by (rule aligned_first_alloc_loses_heap) simp

end
