(* ===== verification/Kheap_Release.thy ===== *)
theory Kheap_Release
  imports Kheap
begin

text \<open>
  \<^verbatim>\<open>heap_free\<close> of the page-aligned heap refines the abstract release that \<^verbatim>\<open>free\<close> of the kernel
  allocator refines too: the block becomes free and joins its free neighbours on both sides.
\<close>

subsection \<open>The three stages\<close>

definition bjoin :: "u32 \<Rightarrow> u32 \<Rightarrow> kheap \<Rightarrow> kheap" where
  "bjoin p q s =
     (let s = upd_blk p (\<lambda>b. b\<lparr>bsz := bsz b + (16 + bln s q)\<rparr>) s;
          s = (if bnx s q \<noteq> 0 then upd_blk (bnx s q) (\<lambda>b. b\<lparr>bprev := p\<rparr>) s else s)
      in upd_blk p (\<lambda>b. b\<lparr>bnext := bnx s q\<rparr>) s)"

definition bmark :: "u32 \<Rightarrow> kheap \<Rightarrow> kheap" where
  "bmark p s = upd_blk p (\<lambda>b. b\<lparr>bfree := True\<rparr>) s"

definition join_next :: "u32 \<Rightarrow> kheap \<Rightarrow> kheap" where
  "join_next p s = (if bnx s p \<noteq> 0 \<and> bfree (bhdr s (bnx s p)) then bjoin p (bnx s p) s else s)"

lemma heap_free_stages:
  assumes "p + 16 \<noteq> 0"
  shows "heap_free (p + 16) s = (let s = join_next p s; q = bprev (bhdr s p)
    in if q \<noteq> 0 \<and> bfree (bhdr s q) then bmark q (bjoin q p s) else bmark p s)"
  using assms by (simp add: heap_free_def join_next_def bjoin_def bmark_def sizeof_Block_def Let_def)

subsection \<open>Each stage on the block list\<close>

definition blinks :: "kheap \<Rightarrow> u32 list \<Rightarrow> bool" where
  "blinks s ps \<longleftrightarrow> prev_chain (\<lambda>p. bprev (bhdr s p)) 0 ps"

definition bblocks :: "kheap \<Rightarrow> u32 list \<Rightarrow> (u32 \<times> u32 \<times> bool) list" where
  "bblocks s ps = map (\<lambda>p. (p, bln s p, \<not> bfree (bhdr s p))) ps"

lemma bblocks_simps [simp]:
  "bblocks s [] = []" "bblocks s (p # ps) = (p, bln s p, \<not> bfree (bhdr s p)) # bblocks s ps"
  "bblocks s (ps @ qs) = bblocks s ps @ bblocks s qs" "fst ` set (bblocks s ps) = set ps"
  by (simp_all add: bblocks_def image_image)

lemma bblocks_cong: "(\<And>x. x \<in> set ps \<Longrightarrow> bln s' x = bln s x \<and> bfree (bhdr s' x) = bfree (bhdr s x)) \<Longrightarrow>
    bblocks s' ps = bblocks s ps"
  by (simp add: bblocks_def)

lemma bjoin_hdr:
  assumes "q \<noteq> p" and "bnx s q \<noteq> p" and "bnx s q \<noteq> q"
  shows "bhdr (bjoin p q s) x =
    (if x = p then bhdr s p\<lparr>bsz := bln s p + 16 + bln s q, bnext := bnx s q\<rparr>
     else if x = bnx s q \<and> x \<noteq> 0 then bhdr s x\<lparr>bprev := p\<rparr> else bhdr s x)"
  using assms by (cases "bnx s q = 0") (simp_all add: bjoin_def upd_blk_def Let_def add.assoc)

lemma bjoin_list:
  assumes "block_list s (as @ p # q # bs)" and "blinks s (as @ p # q # bs)"
  defines "s' \<equiv> bjoin p q s"
  shows "block_list s' (as @ p # bs)" and "blinks s' (as @ p # bs)" and "bblocks s' as = bblocks s as"
    and "bblocks s' bs = bblocks s bs" and "bln s' p = bln s p + 16 + bln s q" and "bfree (bhdr s' p) = bfree (bhdr s p)"
proof -
  have sg: "seg (bnx s) (bln s) (as @ p # q # bs) 0 heap_limit" using assms(1) by (simp add: block_list_def)
  have d: "distinct (as @ p # q # bs)" using seg_distinct [OF sg] .
  have n: "bnx s q = (if bs = [] then 0 else hd bs)" using sg by (auto simp: seg_append)
  have nz: "x \<noteq> 0" if "x \<in> set (p # q # bs)" for x using seg_nonzero [OF sg, of x] that by auto
  have ne: "q \<noteq> p" "bnx s q \<noteq> p" "bnx s q \<noteq> q" using d n nz [of p] nz [of q] by (auto split: if_splits)
  note h = bjoin_hdr [OF ne, folded s'_def]
  have "bnx s' = (bnx s)(p := bnx s q)" "bln s' = (bln s)(p := bln s p + 16 + bln s q)" by (auto simp: h fun_eq_iff)
  then have "seg (bnx s') (bln s') (as @ p # bs) 0 heap_limit" using seg_join(1) [OF sg heap_limit_le] by simp
  then show "block_list s' (as @ p # bs)" using assms(1) by (auto simp: block_list_def hd_append)
  show "blinks s' (as @ p # bs)"
    unfolding blinks_def
  proof (rule chain_join [OF sg assms(2) [unfolded blinks_def]])
    show "bprev (bhdr s' x) = bprev (bhdr s x)" if "x \<notin> set (take 1 bs)" for x
      using that n by (cases bs) (auto simp: h)
    show "bprev (bhdr s' (hd bs)) = p" if "bs \<noteq> []"
      using that n nz [of "hd bs"] d by (cases bs) (auto simp: h)
  qed
  show "bblocks s' as = bblocks s as" "bblocks s' bs = bblocks s bs" using d by (auto simp: h split: if_splits intro!: bblocks_cong)
  show "bln s' p = bln s p + 16 + bln s q" "bfree (bhdr s' p) = bfree (bhdr s p)" by (simp_all add: h)
qed

lemma bmark_list:
  assumes "block_list s (as @ p # bs)" and "blinks s (as @ p # bs)"
  defines "s' \<equiv> bmark p s"
  shows "block_list s' (as @ p # bs)" and "blinks s' (as @ p # bs)" and "bblocks s' as = bblocks s as"
    and "bblocks s' bs = bblocks s bs" and "bln s' p = bln s p" and "bfree (bhdr s' p)"
proof -
  have d: "p \<notin> set as" "p \<notin> set bs" using assms(1) seg_distinct unfolding block_list_def by fastforce+
  have f: "bnx s' = bnx s" "bln s' = bln s" "(\<lambda>x. bprev (bhdr s' x)) = (\<lambda>x. bprev (bhdr s x))"
    and u: "bfree (bhdr s' x) = (x = p \<or> bfree (bhdr s x))" for x
    by (auto simp: s'_def bmark_def upd_blk_def fun_eq_iff)
  show "block_list s' (as @ p # bs)" "blinks s' (as @ p # bs)" "bln s' p = bln s p" "bfree (bhdr s' p)"
    using assms(1,2) by (simp_all add: block_list_def blinks_def f u fun_cong [OF f(2)])
  show "bblocks s' as = bblocks s as" "bblocks s' bs = bblocks s bs"
    using d by (auto simp: u fun_cong [OF f(2)] intro!: bblocks_cong)
qed

lemma join_next_list:
  assumes "block_list s (as @ p # bs)" and "blinks s (as @ p # bs)"
  shows "\<exists>bs'. block_list (join_next p s) (as @ p # bs') \<and> blinks (join_next p s) (as @ p # bs') \<and>
    bblocks (join_next p s) as = bblocks s as \<and>
    (p, bln (join_next p s) p, False) # bblocks (join_next p s) bs' = absorb (p, bln s p, False) (bblocks s bs)"
proof -
  have n: "bnx s p = (if bs = [] then 0 else hd bs)" using assms(1) by (auto simp: block_list_def seg_append)
  have z: "bs \<noteq> [] \<Longrightarrow> hd bs \<noteq> 0" using assms(1) seg_nonzero [of "bnx s" "bln s" "as @ p # bs"] by (auto simp: block_list_def)
  show ?thesis
  proof (cases "bs \<noteq> [] \<and> bfree (bhdr s (hd bs))")
    case True
    then obtain q bs' where bs: "bs = q # bs'" by (cases bs) auto
    with True n z have "join_next p s = bjoin p q s" by (simp add: join_next_def)
    with bjoin_list [OF assms [unfolded bs]] True bs show ?thesis by (intro exI [of _ bs']) auto
  next
    case False
    with n have "join_next p s = s" by (auto simp: join_next_def)
    with assms False show ?thesis by (cases bs) (auto intro!: exI [of _ bs])
  qed
qed

lemma heap_free_list:
  assumes "block_list s ps" and "blinks s ps" and "p \<in> set ps"
  shows "\<exists>ps'. block_list (heap_free (p + 16) s) ps' \<and> blinks (heap_free (p + 16) s) ps' \<and>
    bblocks (heap_free (p + 16) s) ps' = release p (bblocks s ps)"
proof -
  obtain as bs where ps: "ps = as @ p # bs" using assms(3) by (auto dest: split_list)
  have sg: "seg (bnx s) (bln s) ps 0 heap_limit" using assms(1) by (simp add: block_list_def)
  have "unat p + 16 \<le> heap_limit" using seg_bounds [OF sg assms(3)] by simp
  then have "unat (p + 16) = unat p + 16" using heap_limit_le by (simp add: unat_word_ariths)
  then have "p + 16 \<noteq> 0" by auto
  note fr = heap_free_stages [OF this, of s]
  define s1 where "s1 = join_next p s"
  obtain bs' where s1: "block_list s1 (as @ p # bs')" "blinks s1 (as @ p # bs')" "bblocks s1 as = bblocks s as"
    "(p, bln s1 p, False) # bblocks s1 bs' = absorb (p, bln s p, False) (bblocks s bs)"
    using join_next_list [OF assms(1,2) [unfolded ps]] unfolding s1_def by blast
  show ?thesis
  proof (cases as rule: rev_cases)
    case Nil
    then have "heap_free (p + 16) s = bmark p s1" using s1(2) by (simp add: fr s1_def [symmetric] Let_def blinks_def)
    with bmark_list [OF s1(1,2)] s1(4) Nil show ?thesis by (intro exI [of _ "p # bs'"]) (simp add: ps)
  next
    case (snoc as' q)
    have q: "bprev (bhdr s1 p) = q" "q \<noteq> 0"
      using s1(2) seg_nonzero [OF sg, of q] by (auto simp: snoc ps blinks_def prev_chain_append)
    have same: "bblocks s1 as' = bblocks s as'" "bln s1 q = bln s q" "bfree (bhdr s1 q) = bfree (bhdr s q)"
      using s1(3) by (auto simp: snoc)
    have rel: "release p (bblocks s ps) = bblocks s as' @ (if bfree (bhdr s q)
        then absorb (q, bln s q, False) ((p, bln s1 p, False) # bblocks s1 bs')
        else (q, bln s q, True) # (p, bln s1 p, False) # bblocks s1 bs')"
      using release_after [of p "bblocks s as'" q] seg_distinct [OF sg] unfolding s1(4) by (simp add: ps snoc)
    show ?thesis
    proof (cases "bfree (bhdr s q)")
      case True
      let ?s2 = "bjoin q p s1"
      have "block_list s1 (as' @ q # p # bs')" "blinks s1 (as' @ q # p # bs')" using s1(1,2) by (simp_all add: snoc)
      note j = bjoin_list [OF this]
      have "heap_free (p + 16) s = bmark q ?s2" using q True same(3) by (simp add: fr s1_def [symmetric] Let_def)
      with bmark_list [OF j(1,2)] j True same rel show ?thesis by (intro exI [of _ "as' @ q # bs'"]) auto
    next
      case False
      then have "heap_free (p + 16) s = bmark p s1" using q same(3) by (simp add: fr s1_def [symmetric] Let_def)
      with bmark_list [OF s1(1,2)] False same rel show ?thesis
        by (intro exI [of _ "as @ p # bs'"]) (auto simp: snoc)
    qed
  qed
qed

lemma busy_blocks:
  "block_list s ps \<Longrightarrow> busy s = (\<Union>(p, l, u) \<in> used_set (bblocks s ps). {unat p + 16 ..< unat p + 16 + unat l})"
  by (auto simp: busy_eq used_set_def bblocks_def payload_def)

lemma heap_free_busy:
  assumes "block_list s ps" and "blinks s ps" and "p \<in> set ps"
  shows "busy (heap_free (p + 16) s) = busy s - payload (bln s) p"
proof -
  obtain ps' where ps': "block_list (heap_free (p + 16) s) ps'" "bblocks (heap_free (p + 16) s) ps' = release p (bblocks s ps)"
    using heap_free_list [OF assms] by blast
  have sg: "seg (bnx s) (bln s) ps 0 heap_limit" using assms(1) by (simp add: block_list_def)
  have "distinct (map fst (bblocks s ps))" using seg_distinct [OF sg] by (simp add: bblocks_def comp_def)
  then have "used_set (release p (bblocks s ps)) = {b \<in> used_set (bblocks s ps). fst b \<noteq> p}" by (rule used_release)
  then have "busy (heap_free (p + 16) s) = (\<Union>q \<in> {q \<in> set ps. \<not> bfree (bhdr s q) \<and> q \<noteq> p}. payload (bln s) q)"
    unfolding busy_blocks [OF ps'(1)] ps'(2) by (auto simp: used_set_def bblocks_def payload_def)
  then show ?thesis
    using seg_disjoint [OF sg assms(3)] unfolding busy_eq [OF assms(1)] by (auto simp: disjoint_iff)
qed

subsection \<open>Properties\<close>

text \<open>
  C34. \<^verbatim>\<open>heap_free\<close> implements the abstract release on every heap whose headers tile the arena with correct back
  links: the block becomes free and is joined with a free block after it and with a free block before it, tiling and
  back links are kept, and exactly the bytes of that block stop being in use.
\<close>

theorem heap_free_refines_release:
  assumes "block_list s ps" and "blinks s ps" and "p \<in> set ps"
  shows "busy (heap_free (p + 16) s) = busy s - payload (bln s) p \<and>
    (\<exists>ps'. block_list (heap_free (p + 16) s) ps' \<and> blinks (heap_free (p + 16) s) ps' \<and>
      bblocks (heap_free (p + 16) s) ps' = release p (bblocks s ps))"
  using heap_free_list [OF assms] heap_free_busy [OF assms] by blast

text \<open>A heap of which the first block is given back: the heap is whole again.\<close>

lemma demo_blinks: "block_list (carve 100 HEAP_START (heap_init demo_kheap)) [0xA00000, 0xA00074]"
  "blinks (carve 100 HEAP_START (heap_init demo_kheap)) [0xA00000, 0xA00074]"
  by (simp_all add: block_list_def blinks_def carve_def heap_init_def upd_blk_def HEAP_START_def HEAP_SIZE_def
      sizeof_Block_def HEADER_TO_PTR_def Let_def heap_limit_eq)

theorem heap_free_refines_release_witness:
  "\<exists>ps'. block_list (heap_free 0xA00010 (carve 100 HEAP_START (heap_init demo_kheap))) ps' \<and>
     bblocks (heap_free 0xA00010 (carve 100 HEAP_START (heap_init demo_kheap))) ps' = [(0xA00000, 0x31FFFF0, False)]"
proof -
  let ?s = "carve 100 HEAP_START (heap_init demo_kheap)"
  have "release 0xA00000 (bblocks ?s [0xA00000, 0xA00074]) = [(0xA00000, 0x31FFFF0, False)]"
    by (simp add: carve_def heap_init_def upd_blk_def HEAP_START_def HEAP_SIZE_def sizeof_Block_def HEADER_TO_PTR_def Let_def)
  then show ?thesis using heap_free_refines_release [OF demo_blinks, of "0xA00000"] by auto
qed

end
