(* ===== verification/Paging.thy ===== *)
theory Paging
  imports Console_Text
begin

text \<open>
  \<^verbatim>\<open>Src/memory/page.c\<close>: the page directory and tables, and the listing of the map.  The 1024 by 1024
  array \<^verbatim>\<open>page_tables\<close> is stored flat, as the code itself reads it through \<^verbatim>\<open>page_frames\<close>.  The addresses
  the linker chooses are parameters.  \<^verbatim>\<open>paging_load\<close> and \<^verbatim>\<open>paging_enable\<close> are assembly
  (\<^verbatim>\<open>Asm/paging.asm\<close>): they set CR3, and the PG, WP and PE bits of CR0.
\<close>

record link_map =
  rodata_start :: u32
  rodata_end :: u32
  page_directory_addr :: u32
  page_tables_addr :: u32

record paging = console +
  page_directory :: "nat \<Rightarrow> u32"
  page_tables :: "nat \<Rightarrow> u32"
  cr0 :: u32
  cr3 :: u32

definition DIR_ENTRIES :: nat where "DIR_ENTRIES = 1024"
definition TABLE_ENTRIES :: nat where "TABLE_ENTRIES = 1024"
definition PAGE_SIZE :: u32 where "PAGE_SIZE = 4096"
definition PAGETAB_PRESENT :: u32 where "PAGETAB_PRESENT = 1"
definition PAGETAB_READWRITE :: u32 where "PAGETAB_READWRITE = 2"
definition PAGEDIR_PRESENT :: u32 where "PAGEDIR_PRESENT = 1"
definition PAGEDIR_READWRITE :: u32 where "PAGEDIR_READWRITE = 2"

lemmas page_defs = DIR_ENTRIES_def TABLE_ENTRIES_def PAGE_SIZE_def PAGETAB_PRESENT_def
  PAGETAB_READWRITE_def PAGEDIR_PRESENT_def PAGEDIR_READWRITE_def

subsection \<open>Initialisation\<close>

primrec clear_directory :: "nat \<Rightarrow> (nat \<Rightarrow> u32) \<Rightarrow> nat \<Rightarrow> u32" where
  "clear_directory 0 d = d"
| "clear_directory (Suc i) d = (clear_directory i d)(i := 0)"

text \<open>The inner loop: \<open>j\<close> rounds of it for table \<open>i\<close>.\<close>

primrec map_entries :: "nat \<Rightarrow> nat \<Rightarrow> (nat \<Rightarrow> u32) \<Rightarrow> nat \<Rightarrow> u32" where
  "map_entries i 0 f = f"
| "map_entries i (Suc j) f =
     (let f = map_entries i j f; k = i * TABLE_ENTRIES + j;
          f = f(k := (of_nat i * of_nat TABLE_ENTRIES + of_nat j) * PAGE_SIZE)
      in f(k := f k OR (PAGETAB_PRESENT OR PAGETAB_READWRITE)))"

declare map_entries.simps [simp del]

primrec map_tables :: "link_map \<Rightarrow> nat \<Rightarrow> 'a paging_scheme \<Rightarrow> 'a paging_scheme" where
  "map_tables lm 0 s = s"
| "map_tables lm (Suc i) s =
     (let s = map_tables lm i s;
          s = s\<lparr>page_tables := map_entries i TABLE_ENTRIES (page_tables s)\<rparr>;
          s = s\<lparr>page_directory := (page_directory s)(i := page_tables_addr lm + of_nat (i * TABLE_ENTRIES * 4))\<rparr>
      in s\<lparr>page_directory := (page_directory s)
              (i := page_directory s i OR (PAGEDIR_PRESENT OR PAGEDIR_READWRITE))\<rparr>)"

text \<open>The loop over the frames of \<^verbatim>\<open>.rodata\<close>; an index past the array is a fault.  Because of that it
  ends even when its last index is the largest word.\<close>

function protect :: "u32 \<Rightarrow> u32 \<Rightarrow> (nat \<Rightarrow> u32) \<Rightarrow> (nat \<Rightarrow> u32) option" where
  "protect i stop f =
     (if i \<le> stop then
        if unat i < DIR_ENTRIES * TABLE_ENTRIES
        then protect (i + 1) stop (f(unat i := f (unat i) AND NOT PAGETAB_READWRITE))
        else None
      else Some f)"
  by auto
termination
proof (relation "measure (\<lambda>(i, stop, f). DIR_ENTRIES * TABLE_ENTRIES - unat i)")
  fix i stop :: u32 and f
  assume "unat i < DIR_ENTRIES * TABLE_ENTRIES"
  then have "unat (i + 1) = unat i + 1" by (simp add: page_defs unat_word_ariths)
  with \<open>unat i < _\<close> show "((i + 1, stop, f(unat i := f (unat i) AND NOT PAGETAB_READWRITE)), i, stop, f)
      \<in> measure (\<lambda>(i, stop, f). DIR_ENTRIES * TABLE_ENTRIES - unat i)" by simp
qed simp

declare protect.simps [simp del]

definition paging_load :: "u32 \<Rightarrow> 'a paging_scheme \<Rightarrow> 'a paging_scheme" where
  "paging_load page_dir s = s\<lparr>cr3 := page_dir\<rparr>"

definition paging_enable :: "'a paging_scheme \<Rightarrow> 'a paging_scheme" where
  "paging_enable s = s\<lparr>cr0 := cr0 s OR 0x80000000 OR 0x10000 OR 1\<rparr>"

definition paging_init :: "link_map \<Rightarrow> 'a paging_scheme \<Rightarrow> 'a paging_scheme option" where
  "paging_init lm s =
     (let s = s\<lparr>page_directory := clear_directory DIR_ENTRIES (page_directory s)\<rparr>;
          s = map_tables lm DIR_ENTRIES s;
          rodata_start_idx = drop_bit 12 (rodata_start lm);
          rodata_end_idx = drop_bit 12 (rodata_end lm) - 1
      in do {
        f \<leftarrow> protect rodata_start_idx rodata_end_idx (page_tables s);
        Some (paging_enable (paging_load (page_directory_addr lm) (s\<lparr>page_tables := f\<rparr>))) })"

subsection \<open>The listing\<close>

record table_entry =
  dir_i :: u32
  tab_i :: u32
  paddr :: "64 word"
  vaddr :: "64 word"
  flags :: u16

definition flags_str :: cstring where "flags_str = cstr ''---GPDACWUWP''"

definition entry_format :: cstring where
  "entry_format = cstr ''[%4ld, %4ld] paddr: 0x%08llX | vaddr: 0x%08llX | flags: ''"

text \<open>The argument words of the call: the 64-bit values take two words each, low word first.\<close>

definition entry_args :: "table_entry \<Rightarrow> nat \<Rightarrow> u32" where
  "entry_args e k = ([dir_i e, tab_i e, ucast (paddr e), ucast (drop_bit 32 (paddr e)),
     ucast (vaddr e), ucast (drop_bit 32 (vaddr e))] @ replicate k 0) ! k"

definition flag_chars :: "u16 \<Rightarrow> cstring" where
  "flag_chars fl = map (\<lambda>k. if bit fl k then flags_str ! (11 - k) else 45) (rev [0..<12])"

definition show_entry :: "table_entry \<Rightarrow> 'a console_scheme \<Rightarrow> 'a console_scheme option" where
  "show_entry e s = do {
     s \<leftarrow> printf (\<lambda>_. []) entry_format (entry_args e) s;
     Some (putchar 10 (fold putchar (flag_chars (flags e)) s)) }"

definition read_entry :: "nat \<Rightarrow> nat \<Rightarrow> 'a paging_scheme \<Rightarrow> table_entry" where
  "read_entry d t s = (let w = page_tables s (d * TABLE_ENTRIES + t) in
     \<lparr>dir_i = of_nat d, tab_i = of_nat t, paddr = ucast (w AND 0xFFFFF000),
      vaddr = ucast (of_nat d * of_nat TABLE_ENTRIES * PAGE_SIZE + of_nat t * PAGE_SIZE :: u32),
      flags = ucast (w AND 0x00000FFF)\<rparr>)"

text \<open>One round of the two loops: \<open>(last_entry, printed_dots)\<close> and the console.  A string literal
  has a non-null address.\<close>

fun show_step :: "nat \<times> nat \<Rightarrow> (table_entry \<times> bool) \<times> 'a paging_scheme \<Rightarrow>
    ((table_entry \<times> bool) \<times> 'a paging_scheme) option" where
  "show_step (d, t) ((last_entry, printed_dots), s) =
     (let e = read_entry d t s in
      if flags e = flags last_entry then do {
        s \<leftarrow> (if \<not> printed_dots then map_option snd (puts (\<lambda>_. cstr ''...'') 1 s) else Some s);
        Some ((e, True), s) }
      else do {
        s \<leftarrow> (if printed_dots then show_entry last_entry s else Some s);
        s \<leftarrow> show_entry e s;
        Some ((e, False), s) })"

definition paging_show_map :: "'a paging_scheme \<Rightarrow> 'a paging_scheme option" where
  "paging_show_map s = map_option snd
     (fold (\<lambda>dt r. Option.bind r (show_step dt)) (List.product [0..<DIR_ENTRIES] [0..<TABLE_ENTRIES])
       (Some ((\<lparr>dir_i = 0, tab_i = 0, paddr = 0, vaddr = 0, flags = 0\<rparr>, False), s)))"

subsection \<open>Closed form of the tables\<close>

abbreviation pte :: "nat \<Rightarrow> u32" where "pte k \<equiv> of_nat k * 4096 OR 3"
abbreviation pde :: "link_map \<Rightarrow> nat \<Rightarrow> u32" where "pde lm i \<equiv> page_tables_addr lm + of_nat i * 4096 OR 3"

lemma map_entries_apply:
  "map_entries i j f k = (if i * 1024 \<le> k \<and> k < i * 1024 + j then pte k else f k)"
  by (induction j) (auto simp: map_entries.simps page_defs Let_def less_Suc_eq)

lemma map_tables_apply:
  "page_tables (map_tables lm n s) k = (if k < n * 1024 then pte k else page_tables s k)"
  "page_directory (map_tables lm n s) i = (if i < n then pde lm i else page_directory s i)"
proof (induction n)
  case (Suc n)
  have c: "of_nat (n * TABLE_ENTRIES * 4) = (of_nat n * 4096 :: u32)" by (simp add: page_defs mult.commute)
  { case 1
    show ?case
      by (cases "k < n * 1024") (simp_all add: Let_def map_entries_apply Suc.IH page_defs)
  next
    case 2
    show ?case
      unfolding map_tables.simps Let_def c
      by (cases "i = n") (simp_all add: Suc.IH PAGEDIR_PRESENT_def PAGEDIR_READWRITE_def)
  }
qed simp_all

lemma protect_in:
  "unat stop < 1048576 \<Longrightarrow>
     protect i stop f = Some (\<lambda>k. if unat i \<le> k \<and> k \<le> unat stop then f k AND NOT 2 else f k)"
proof (induction i stop f rule: protect.induct)
  case (1 i stop f)
  show ?case
  proof (cases "i \<le> stop")
    case True
    then have i: "unat i < 1048576" "unat i \<le> unat stop" using "1.prems" by (auto simp: word_le_nat_alt)
    then have s: "unat (i + 1) = unat i + 1" by (simp add: unat_word_ariths)
    have "protect (i + 1) stop (f(unat i := f (unat i) AND NOT PAGETAB_READWRITE)) =
        Some (\<lambda>k. if unat (i + 1) \<le> k \<and> k \<le> unat stop
          then (f(unat i := f (unat i) AND NOT PAGETAB_READWRITE)) k AND NOT 2
          else (f(unat i := f (unat i) AND NOT PAGETAB_READWRITE)) k)"
      by (rule "1.IH") (use True i "1.prems" in \<open>simp_all add: page_defs\<close>)
    also have "\<dots> = Some (\<lambda>k. if unat i \<le> k \<and> k \<le> unat stop then f k AND NOT 2 else f k)"
      using i by (auto simp: s fun_eq_iff PAGETAB_READWRITE_def)
    finally show ?thesis using True i by (subst protect.simps) (simp add: page_defs)
  next
    case False
    then show ?thesis by (subst protect.simps) (auto simp: word_le_nat_alt fun_eq_iff)
  qed
qed

lemma protect_out: "1048576 \<le> unat stop \<Longrightarrow> i \<le> stop \<Longrightarrow> protect i stop f = None"
proof (induction i stop f rule: protect.induct)
  case (1 i stop f)
  have "protect (i + 1) stop (f(unat i := f (unat i) AND NOT PAGETAB_READWRITE)) = None"
    if i: "unat i < 1048576"
  proof -
    have "unat (i + 1) = unat i + 1" using i by (simp add: unat_word_ariths)
    with i "1.prems" have "i + 1 \<le> stop" by (simp add: word_le_nat_alt)
    then show ?thesis by (intro "1.IH") (use "1.prems" i in \<open>simp_all add: page_defs\<close>)
  qed
  then show ?case using "1.prems"(2) by (subst protect.simps) (simp add: page_defs)
qed

subsection \<open>Translation\<close>

text \<open>The walk the processor does for a supervisor access to \<open>v\<close> with 4 KiB pages: the physical address
  and whether a write is allowed.  A directory entry must point at one of the tables.\<close>

definition walk :: "link_map \<Rightarrow> 'a paging_scheme \<Rightarrow> u32 \<Rightarrow> (u32 \<times> bool) option" where
  "walk lm s v =
     (let d = page_directory s (unat (drop_bit 22 v));
          off = (d AND NOT (mask 12)) - page_tables_addr lm;
          k = unat (drop_bit 12 off) * 1024 + unat (take_bit 10 (drop_bit 12 v));
          t = page_tables s k
      in if cr3 s \<noteq> page_directory_addr lm \<or> \<not> bit (cr0 s) 31 \<or> \<not> bit d 0 \<or>
            take_bit 12 off \<noteq> 0 \<or> 1048576 \<le> k \<or> \<not> bit t 0
         then None
         else Some ((t AND NOT (mask 12)) OR take_bit 12 v, bit (cr0 s) 16 \<longrightarrow> bit d 1 \<and> bit t 1))"

lemma take_bit_mult_4096: "take_bit 12 (w * 4096) = 0" for w :: u32
  using take_bit_push_bit[of 12 12 w] by (simp add: push_bit_eq_mult)

lemma flagged:
  fixes w :: u32
  assumes "take_bit 12 w = 0"
  shows "(w OR 3) AND NOT (mask 12) = w" "bit (w OR 3) 0" "bit (w OR 3) 1"
    "((w OR 3) AND NOT 2) AND NOT (mask 12) = w" "bit ((w OR 3) AND NOT 2) 0" "\<not> bit ((w OR 3) AND NOT 2) 1"
proof -
  have z: "\<not> bit w n" if "n < 12" for n
    using assms that by (metis bit_0_eq bit_take_bit_iff bot_fun_def bot_bool_def)
  have three: "bit (3 :: u32) n \<longleftrightarrow> n < 2" for n
    using bit_mask_iff[where 'a = u32, of 2 n] by (auto simp: mask_eq_exp_minus_1)
  have two: "bit (2 :: u32) n \<longleftrightarrow> n = 1" for n
    using bit_exp_iff[where 'a = u32, of 1 n] by auto
  have w: "w AND NOT (mask 12) = w" using assms by (simp add: and_not_mask)
  have m: "(3 :: u32) AND NOT (mask 12) = 0" "NOT 2 AND NOT (mask 12) = (NOT (mask 12) :: u32)"
    by (simp_all add: mask_eq_exp_minus_1)
  show or: "(w OR 3) AND NOT (mask 12) = w" by (simp only: bit.conj_disj_distrib2 w m) simp
  show "((w OR 3) AND NOT 2) AND NOT (mask 12) = w" by (simp only: and.assoc m or)
  show "bit (w OR 3) 0" "bit (w OR 3) 1" "bit ((w OR 3) AND NOT 2) 0" "\<not> bit ((w OR 3) AND NOT 2) 1"
    by (simp_all add: bit_simps three two)
qed

lemma page_index:
  fixes v :: u32
  defines "d \<equiv> unat (drop_bit 22 v)"
  shows "d < 1024" "unat (drop_bit 12 (of_nat d * 4096 :: u32)) = d" "unat (drop_bit 12 v) < 1048576"
    "d * 1024 + unat (take_bit 10 (drop_bit 12 v)) = unat (drop_bit 12 v)"
proof -
  have v: "unat v < 2 ^ 32" by simp
  have d: "d = unat v div 4194304" unfolding d_def unat_drop_bit_eq by (simp add: drop_bit_eq_div)
  then show b: "d < 1024" using v by (simp add: less_mult_imp_div_less)
  have k: "unat (drop_bit 12 v) = unat v div 4096" unfolding unat_drop_bit_eq by (simp add: drop_bit_eq_div)
  then show "unat (drop_bit 12 v) < 1048576" using v by (simp add: less_mult_imp_div_less)
  have "unat (of_nat d * 4096 :: u32) = d * 4096"
    using b by (simp add: unat_word_ariths unat_of_nat take_bit_eq_mod)
  then show "unat (drop_bit 12 (of_nat d * 4096 :: u32)) = d"
    unfolding unat_drop_bit_eq by (simp add: drop_bit_eq_div)
  have "unat (take_bit 10 (drop_bit 12 v)) = unat v div 4096 mod 1024"
    unfolding unsigned_take_bit_eq k by (simp add: take_bit_eq_mod)
  moreover have "d = unat v div 4096 div 1024" by (simp add: d div_mult2_eq[symmetric])
  ultimately show "d * 1024 + unat (take_bit 10 (drop_bit 12 v)) = unat (drop_bit 12 v)"
    using k by simp
qed

lemma page_base: "of_nat (unat (drop_bit 12 v)) * 4096 OR take_bit 12 v = v" for v :: u32
proof -
  have "of_nat (unat (drop_bit 12 v)) * 4096 = push_bit 12 (drop_bit 12 v)"
    by (simp add: push_bit_eq_mult)
  then show ?thesis by (simp only:) (auto intro!: bit_eqI simp: bit_simps)
qed

lemma walk_identity:
  assumes "take_bit 12 (page_tables_addr lm) = 0"
    and "cr3 s = page_directory_addr lm" "bit (cr0 s) 31" "bit (cr0 s) 16"
    and "\<And>i. i < 1024 \<Longrightarrow> page_directory s i = pde lm i"
    and "\<And>k. k < 1048576 \<Longrightarrow> page_tables s k = (if ro k then pte k AND NOT 2 else pte k)"
  shows "walk lm s v = Some (v, \<not> ro (unat (drop_bit 12 v)))"
proof -
  let ?d = "unat (drop_bit 22 v)" and ?k = "unat (drop_bit 12 v)"
  have "drop_bit 12 (page_tables_addr lm) * 4096 + 0 = page_tables_addr lm"
    using bits_ident[of 12 "page_tables_addr lm", unfolded assms(1)] by (simp only: push_bit_eq_mult) simp
  then have "page_tables_addr lm + of_nat ?d * 4096 = (drop_bit 12 (page_tables_addr lm) + of_nat ?d) * 4096"
    by (simp add: distrib_right)
  then have a: "take_bit 12 (page_tables_addr lm + of_nat ?d * 4096) = 0"
    by (simp only: take_bit_mult_4096)
  note f = flagged[OF a] flagged[OF take_bit_mult_4096, of "of_nat ?k"]
  note ix = page_index[of v]
  have "page_directory s ?d = pde lm ?d" using assms(5) ix(1) .
  moreover have "page_tables s ?k = (if ro ?k then pte ?k AND NOT 2 else pte ?k)"
    using assms(6) ix(3) .
  ultimately show ?thesis
    using assms(2-4) ix(3) unfolding walk_def Let_def
    by (cases "ro ?k")
       (simp_all only: f ix(2,4) page_base take_bit_mult_4096 add_diff_cancel_left' if_True if_False
         simp_thms not_le[symmetric])
qed

lemma paging_init_unfold:
  "paging_init lm s =
     map_option (\<lambda>f. paging_enable (paging_load (page_directory_addr lm)
         ((map_tables lm 1024 (s\<lparr>page_directory := clear_directory 1024 (page_directory s)\<rparr>))\<lparr>page_tables := f\<rparr>)))
       (protect (drop_bit 12 (rodata_start lm)) (drop_bit 12 (rodata_end lm) - 1)
         (page_tables (map_tables lm 1024 (s\<lparr>page_directory := clear_directory 1024 (page_directory s)\<rparr>))))"
  unfolding paging_init_def Let_def DIR_ENTRIES_def
  by (rule bind_Some_map)

lemma enabled_fields:
  "cr3 (paging_enable (paging_load p (t\<lparr>page_tables := f\<rparr>))) = p"
  "bit (cr0 (paging_enable (paging_load p (t\<lparr>page_tables := f\<rparr>)))) 31"
  "bit (cr0 (paging_enable (paging_load p (t\<lparr>page_tables := f\<rparr>)))) 16"
  "page_directory (paging_enable (paging_load p (t\<lparr>page_tables := f\<rparr>))) = page_directory t"
  "page_tables (paging_enable (paging_load p (t\<lparr>page_tables := f\<rparr>))) = f"
  by (simp_all add: paging_enable_def paging_load_def bit_simps)

lemma frame_unat: "unat (drop_bit 12 w) = unat w div 4096" for w :: u32
  unfolding unat_drop_bit_eq by (simp add: drop_bit_eq_div)

lemma rodata_end_idx:
  fixes e :: u32
  shows "0x1000 \<le> e \<Longrightarrow> unat (drop_bit 12 e - 1) = unat e div 4096 - 1 \<and> unat e div 4096 \<noteq> 0"
    and "e < 0x1000 \<Longrightarrow> drop_bit 12 e - 1 = - 1"
proof -
  assume "0x1000 \<le> e"
  then have "1 \<le> unat e div 4096" by (simp add: word_le_nat_alt le_div_geq[symmetric] Suc_le_eq div_greater_zero_iff)
  moreover then have "(1 :: u32) \<le> drop_bit 12 e" by (simp add: word_le_nat_alt frame_unat)
  ultimately show "unat (drop_bit 12 e - 1) = unat e div 4096 - 1 \<and> unat e div 4096 \<noteq> 0"
    by (simp add: unat_sub frame_unat)
next
  assume "e < 0x1000"
  then have "unat (drop_bit 12 e) = 0" by (simp add: word_less_nat_alt frame_unat)
  then show "drop_bit 12 e - 1 = - 1" by (simp add: unat_eq_0)
qed

text \<open>C22. \<^verbatim>\<open>paging_init\<close> gives an identity map in which exactly the frames of \<^verbatim>\<open>.rodata\<close> are read-only: when the
  tables are page aligned and \<^verbatim>\<open>_rodata_end\<close> is not in the first page it succeeds, and afterwards the
  processor translates every address to itself and allows a write to it unless its frame lies between
  that of \<^verbatim>\<open>_rodata_start\<close> and the one before that of \<^verbatim>\<open>_rodata_end\<close>.  With \<^verbatim>\<open>_rodata_end\<close> in the first page
  the last index wraps and the loop runs off \<^verbatim>\<open>page_tables\<close>.\<close>

theorem paging_identity:
  "(take_bit 12 (page_tables_addr lm) = 0 \<and> 0x1000 \<le> rodata_end lm \<longrightarrow>
     (\<exists>s'. paging_init lm s = Some s' \<and> (\<forall>v. walk lm s' v = Some (v,
        \<not> (drop_bit 12 (rodata_start lm) \<le> drop_bit 12 v \<and> drop_bit 12 v < drop_bit 12 (rodata_end lm)))))) \<and>
   (rodata_end lm < 0x1000 \<longrightarrow> paging_init lm s = None)"
proof (intro conjI impI)
  assume a: "take_bit 12 (page_tables_addr lm) = 0 \<and> 0x1000 \<le> rodata_end lm"
  let ?a = "unat (rodata_start lm) div 4096" and ?e = "unat (rodata_end lm) div 4096"
  note e = rodata_end_idx(1)[of "rodata_end lm"]
  have "?e - 1 < 1048576" using unat_u32_lt[of "rodata_end lm"] by (simp add: less_mult_imp_div_less less_imp_diff_less)
  then have p: "protect (drop_bit 12 (rodata_start lm)) (drop_bit 12 (rodata_end lm) - 1) f =
      Some (\<lambda>k. if ?a \<le> k \<and> k \<le> ?e - 1 then f k AND NOT 2 else f k)" for f
    using e a by (subst protect_in) (simp_all add: frame_unat)
  let ?ro = "\<lambda>k. ?a \<le> k \<and> k < ?e"
  have ro: "?ro (unat (drop_bit 12 v)) \<longleftrightarrow>
      drop_bit 12 (rodata_start lm) \<le> drop_bit 12 v \<and> drop_bit 12 v < drop_bit 12 (rodata_end lm)" for v :: u32
    by (simp add: word_le_nat_alt word_less_nat_alt frame_unat)
  have le: "k \<le> ?e - 1 \<longleftrightarrow> k < ?e" for k using e a by linarith
  let ?t = "map_tables lm 1024 (s\<lparr>page_directory := clear_directory 1024 (page_directory s)\<rparr>)"
  define s' where "s' = paging_enable (paging_load (page_directory_addr lm)
    (?t\<lparr>page_tables := \<lambda>k. if ?a \<le> k \<and> k \<le> ?e - 1 then page_tables ?t k AND NOT 2 else page_tables ?t k\<rparr>))"
  have "walk lm s' v = Some (v, \<not> ?ro (unat (drop_bit 12 v)))" for v
    by (rule walk_identity) (use a in \<open>simp_all add: s'_def enabled_fields map_tables_apply le[simplified]\<close>)
  moreover have "paging_init lm s = Some s'" unfolding paging_init_unfold p s'_def by simp
  ultimately show "\<exists>s'. paging_init lm s = Some s' \<and> (\<forall>v. walk lm s' v = Some (v,
        \<not> (drop_bit 12 (rodata_start lm) \<le> drop_bit 12 v \<and> drop_bit 12 v < drop_bit 12 (rodata_end lm))))"
    unfolding ro by blast
next
  assume "rodata_end lm < 0x1000"
  then have "drop_bit 12 (rodata_end lm) - 1 = - 1" by (rule rodata_end_idx(2))
  then show "paging_init lm s = None"
    unfolding paging_init_unfold
    by (simp only:) (simp add: protect_out unsigned_minus_1_eq_mask mask_eq_exp_minus_1)
qed


definition demo_link_map :: link_map where
  "demo_link_map = \<lparr>rodata_start = 0x105000, rodata_end = 0x108000, page_directory_addr = 0x200000,
     page_tables_addr = 0x201000\<rparr>"

theorem paging_identity_witness:
  "\<exists>s'. paging_init demo_link_map (console.extend blank_console
        \<lparr>page_directory = \<lambda>_. 7, page_tables = \<lambda>_. 0, cr0 = 1, cr3 = 0\<rparr> :: paging) = Some s' \<and>
     walk demo_link_map s' 0x106004 = Some (0x106004, False) \<and>
     walk demo_link_map s' 0xB8000 = Some (0xB8000, True)"
proof -
  have "take_bit 12 (page_tables_addr demo_link_map) = 0 \<and> 0x1000 \<le> rodata_end demo_link_map"
    by (simp add: demo_link_map_def take_bit_numeral_numeral)
  with paging_identity[of demo_link_map] show ?thesis
    by (fastforce simp: demo_link_map_def)
qed

text \<open>The line of \<^verbatim>\<open>paging_show_map\<close> for a page does not show what its format asks for: \<^verbatim>\<open>printf\<close> knows neither
  \<^verbatim>\<open>l\<close> nor \<^verbatim>\<open>X\<close>, so each of the four conversions prints the low byte of one argument word as a character
  and the rest of the directive as text, and the virtual address is never printed.\<close>

theorem page_map_line_garbled:
  "show_entry e s = Some (putchar 10 (fold putchar (flag_chars (flags e)) (put_all
     (cstr ''['' @ [ucast (dir_i e)] @ cstr ''d, '' @ [ucast (tab_i e)] @ cstr ''d] paddr: 0x'' @
      [ucast (paddr e)] @ cstr ''lX | vaddr: 0x'' @ [ucast (drop_bit 32 (paddr e))] @ cstr ''lX | flags: '') s)))"
proof -
  have "pieces entry_format = Some (map Lit (cstr ''['') @ [Conv False 4 108] @ map Lit (cstr ''d, '') @
      [Conv False 4 108] @ map Lit (cstr ''d] paddr: 0x'') @ [Conv True 8 108] @
      map Lit (cstr ''lX | vaddr: 0x'') @ [Conv True 8 108] @ map Lit (cstr ''lX | flags: ''))"
    by (simp add: entry_format_def cstr_def directive_def)
  moreover have "(ucast (ucast w :: u32) :: u8) = ucast w" for w :: "64 word"
    by (rule bit_eqI) (simp add: bit_simps)
  ultimately show ?thesis
    by (simp add: show_entry_def printf_pieces cstr_def convert_def entry_args_def)
qed

end
