(* ===== verification/Reports.thy ===== *)
theory Reports
  imports Kheap Console_Text
begin

text \<open>
  Diagnostics: \<^verbatim>\<open>heap_dump_headers\<close> of \<^verbatim>\<open>Src/memory/heap.c\<close>, which walks the block list of the page-aligned heap, and
  the memory sizes of \<^verbatim>\<open>Src/memory.c\<close>.  The bytes the boot loader leaves at 0x5000 and 0x5100 are an argument;
  so is what an uninitialised local or a missing argument of \<^verbatim>\<open>printf\<close> happens to hold.
\<close>

subsection \<open>The heap dump\<close>

definition header_format :: cstring where
  "header_format = cstr ''[%d] [%c] Header: %p | Data: %p | Next: %p''"

definition header_args :: "nat \<Rightarrow> u32 \<Rightarrow> kheap \<Rightarrow> nat \<Rightarrow> u32" where
  "header_args i blk h k = (if k = 0 then of_nat i else if k = 1 then (if bfree (bhdr h blk) then 70 else 66)
     else if k = 2 then blk else if k = 3 then HEADER_TO_PTR blk else bnext (bhdr h blk))"

definition dump_header :: "nat \<Rightarrow> u32 \<Rightarrow> kheap \<Rightarrow> console \<Rightarrow> console option" where
  "dump_header i blk h s = do {
     s \<leftarrow> printf (\<lambda>_. []) header_format (header_args i blk h) s;
     s \<leftarrow> (if bnext (bhdr h blk) = 0 then printf (\<lambda>_. []) (cstr ''  '') (\<lambda>_. 0) s else Some s);
     s \<leftarrow> printf (\<lambda>_. []) (cstr '' | Prev: %p'') (\<lambda>_. bprev (bhdr h blk)) s;
     s \<leftarrow> (if bprev (bhdr h blk) = 0 then printf (\<lambda>_. []) (cstr ''  '') (\<lambda>_. 0) s else Some s);
     printf (\<lambda>_. []) (cstr '' | Sz: 0x%07lX'' @ [10]) (\<lambda>_. bsz (bhdr h blk)) s }"

partial_function (option) dump_headers :: "nat \<Rightarrow> u32 \<Rightarrow> kheap \<Rightarrow> console \<Rightarrow> console option" where
  "dump_headers i blk h s =
     (if blk = 0 then Some s
      else Option.bind (dump_header i blk h s) (dump_headers (Suc i) (bnext (bhdr h blk)) h))"

definition heap_dump_headers :: "kheap \<Rightarrow> console \<Rightarrow> console option" where
  "heap_dump_headers h s = dump_headers 0 HEAP_START h s"

subsection \<open>Memory sizes\<close>

record mem_t =
  lower_size :: u16
  upper_size :: u16

definition mem_at :: "nat \<Rightarrow> bytes \<Rightarrow> mem_t" where
  "mem_at a M = \<lparr>lower_size = ucast (M a) OR push_bit 8 (ucast (M (a + 1))),
     upper_size = ucast (M (a + 2)) OR push_bit 8 (ucast (M (a + 3)))\<rparr>"

definition memget :: "bytes \<Rightarrow> mem_t" where
  "memget M = mem_at 0x5000 M"

definition upper_memget :: "bytes \<Rightarrow> mem_t" where
  "upper_memget M = mem_at 0x5100 M"

definition displayMemoryInfo :: "u32 \<Rightarrow> bytes \<Rightarrow> console \<Rightarrow> console option" where
  "displayMemoryInfo junk M s = do {
     let mem = memget M;
     s \<leftarrow> printf (\<lambda>_. []) (cstr ''Lower memory: %d KB'') (\<lambda>_. ucast (lower_size mem)) s;
     s \<leftarrow> printf (\<lambda>_. []) (cstr ''Upper memory: %d KB'') (\<lambda>_. junk) s;
     let mem = upper_memget M;
     s \<leftarrow> printf (\<lambda>_. []) (cstr ''Extended 1: %d KB'') (\<lambda>_. ucast (lower_size mem)) s;
     printf (\<lambda>_. []) (cstr ''Extended 2: %d KB'') (\<lambda>_. ucast (upper_size mem) * 64) s }"

definition get_CMOS_memory_size :: "u8 \<Rightarrow> u8 \<Rightarrow> u16" where
  "get_CMOS_memory_size lowmem highmem = ucast lowmem OR push_bit 8 (ucast highmem)"

definition getCMOSMem :: "u8 \<Rightarrow> u8 \<Rightarrow> int" where
  "getCMOSMem lowmem highmem = (let mem_size = ucast (get_CMOS_memory_size lowmem highmem) :: u8 in int (unat mem_size))"

subsection \<open>What is printed\<close>

text \<open>The size loses its high byte on the way through \<^verbatim>\<open>unsigned char\<close>.\<close>

lemma getCMOSMem_low_byte: "getCMOSMem lowmem highmem = int (unat lowmem)"
proof -
  have "(ucast (get_CMOS_memory_size lowmem highmem) :: u8) = lowmem"
    by (rule bit_eqI) (auto simp: get_CMOS_memory_size_def bit_simps)
  then show ?thesis by (simp add: getCMOSMem_def)
qed

text \<open>The line of one block: of the conversions only \<^verbatim>\<open>%d\<close> is known, each of the others prints one byte.\<close>

definition header_line :: "nat \<Rightarrow> u32 \<Rightarrow> kheap \<Rightarrow> cstring" where
  "header_line i blk h =
     cstr ''['' @ itoa 100 (of_nat i) @ cstr ''] ['' @ [if bfree (bhdr h blk) then 70 else 66] @ cstr ''] Header: '' @ [ucast blk] @
     cstr '' | Data: '' @ [ucast (HEADER_TO_PTR blk)] @ cstr '' | Next: '' @ [ucast (bnext (bhdr h blk))] @
     (if bnext (bhdr h blk) = 0 then cstr ''  '' else []) @ cstr '' | Prev: '' @ [ucast (bprev (bhdr h blk))] @
     (if bprev (bhdr h blk) = 0 then cstr ''  '' else []) @ cstr '' | Sz: 0x'' @ [ucast (bsz (bhdr h blk))] @ cstr ''X'' @ [10]"

lemma dump_header_line: "dump_header i blk h s = Some (put_all (header_line i blk h) s)"
proof -
  have "pieces header_format = Some (map Lit (cstr ''['') @ [Conv False 0 100] @ map Lit (cstr ''] ['') @ [Conv False 0 99] @
      map Lit (cstr ''] Header: '') @ [Conv False 0 112] @ map Lit (cstr '' | Data: '') @ [Conv False 0 112] @
      map Lit (cstr '' | Next: '') @ [Conv False 0 112])"
    by (simp add: header_format_def cstr_def directive_def)
  moreover have "pieces (cstr ''  '') = Some (map Lit (cstr ''  ''))" by (simp add: cstr_def)
  moreover have "pieces (cstr '' | Prev: %p'') = Some (map Lit (cstr '' | Prev: '') @ [Conv False 0 112])"
    by (simp add: cstr_def directive_def)
  moreover have "pieces (cstr '' | Sz: 0x%07lX'' @ [10]) = Some (map Lit (cstr '' | Sz: 0x'') @ [Conv True 7 108] @ map Lit (cstr ''X'' @ [10]))"
    by (simp add: cstr_def directive_def)
  moreover have "render str (map Lit cs @ ps) arg = cs @ render str ps arg" for str cs ps arg by (induction cs) simp_all
  moreover from this [of _ _ "[]"] have "render str (map Lit cs) arg = cs" for str cs arg by simp
  ultimately show ?thesis
    by (simp add: dump_header_def printf_pieces header_line_def put_all_append [symmetric] convert_def pad_left_def header_args_def)
qed

lemma dump_headers_lines:
  "seg (bnx h) (bln h) ps 0 e \<Longrightarrow> dump_headers i (if ps = [] then 0 else hd ps) h s =
    Some (put_all (concat (map (\<lambda>(j, p). header_line j p h) (enumerate i ps))) s)"
proof (induction ps arbitrary: i s)
  case Nil
  then show ?case by (subst dump_headers.simps) (simp add: put_all_def)
next
  case (Cons p ps)
  then have "p \<noteq> 0" "bnx h p = (if ps = [] then 0 else hd ps)" "seg (bnx h) (bln h) ps 0 e" by auto
  then show ?case
    using Cons.IH by (subst dump_headers.simps) (simp add: dump_header_line put_all_append)
qed

text \<open>
  On a heap whose headers tile the arena the dump ends, and prints one line for each block, in the order of their addresses.
\<close>

theorem heap_dump_lines:
  assumes "block_list h ps"
  shows "heap_dump_headers h s = Some (put_all (concat (map (\<lambda>(i, p). header_line i p h) (enumerate 0 ps))) s)"
  using assms dump_headers_lines [of h ps heap_limit 0 s] by (auto simp: heap_dump_headers_def block_list_def)

text \<open>The memory sizes: four numbers in one line, the second of which is whatever the stack holds.\<close>

lemma displayMemoryInfo_line:
  "displayMemoryInfo junk M s = Some (put_all (
     cstr ''Lower memory: '' @ itoa 100 (ucast (lower_size (memget M))) @ cstr '' KB'' @
     cstr ''Upper memory: '' @ itoa 100 junk @ cstr '' KB'' @
     cstr ''Extended 1: '' @ itoa 100 (ucast (lower_size (upper_memget M))) @ cstr '' KB'' @
     cstr ''Extended 2: '' @ itoa 100 (ucast (upper_size (upper_memget M)) * 64) @ cstr '' KB'') s)"
  by (simp add: displayMemoryInfo_def printf_pieces cstr_def directive_def convert_def pad_left_def put_all_append [symmetric] Let_def)

end
