(* ===== verification/Vga.thy ===== *)
theory Vga
  imports Loops
begin

text \<open>
  \<^verbatim>\<open>Src/vbe.c\<close> and \<^verbatim>\<open>Src/vga.c\<close>: setting a graphics mode through the BIOS and drawing into the linear frame
  buffer.  The BIOS call \<^verbatim>\<open>int32\<close> is a parameter, and so are the fields of its register structure that the
  code leaves uninitialised.  Memory is a function on 32-bit addresses; a null \<^verbatim>\<open>vgainfo\<close>, an index outside
  \<^verbatim>\<open>screenbuffer\<close> or an overflow of a signed loop counter is the value \<open>None\<close>.
\<close>

record regs16_t =
  r_di :: u16
  r_si :: u16
  r_bp :: u16
  r_sp :: u16
  r_bx :: u16
  r_dx :: u16
  r_cx :: u16
  r_ax :: u16
  r_gs :: u16
  r_fs :: u16
  r_es :: u16
  r_ds :: u16
  r_eflags :: u16

text \<open>The fields of the mode information the code reads.\<close>

record vbe_mode_info_structure =
  mi_pitch :: u16
  mi_width :: u16
  mi_height :: u16
  mi_bpp :: u8
  mi_framebuffer :: u32

record Video_Info =
  vi_width :: u32
  vi_height :: u32
  vi_bpp :: u8
  vi_pitch :: u16
  vi_kenel_frameBuffer :: u32
  vi_frameBuffer :: u32

text \<open>\<open>display_mode\<close> is the mode the adapter is in; only the BIOS changes it.\<close>

record vga =
  vbeModeInfo :: vbe_mode_info_structure
  signature :: "u8 list"
  display_mode :: u16
  frameBuffer :: u32
  kenel_frameBuffer :: u32
  vbe_width :: u32
  vbe_height :: u32
  info :: Video_Info
  interrupts :: bool
  vgainfo :: "Video_Info option"
  screenbuffer :: "nat \<Rightarrow> u32"
  currentScreenpage :: u8
  vram :: "u32 \<Rightarrow> u8"

definition SCREEN_PAGE_NUM :: nat where "SCREEN_PAGE_NUM = 2"

subsection \<open>Setting the mode\<close>

type_synonym bios = "u8 \<Rightarrow> regs16_t \<Rightarrow> vga \<Rightarrow> vga"

definition mode_number :: "int \<Rightarrow> int \<Rightarrow> int \<Rightarrow> u16" where
  "mode_number x y bpp =
     (if x = 320 \<and> y = 200 \<and> bpp = 24 then 0x410F
      else if x = 640 \<and> y = 480 \<and> bpp = 24 then 0x4112
      else if x = 800 \<and> y = 600 \<and> bpp = 24 then 0x4115
      else if x = 1024 \<and> y = 600 \<and> (768 :: int) = 24 then 0x4118
      else 0x4112)"

definition vbe_init :: "bios \<Rightarrow> (nat \<Rightarrow> regs16_t) \<Rightarrow> int \<Rightarrow> int \<Rightarrow> int \<Rightarrow> vga \<Rightarrow> vga" where
  "vbe_init int32 regs x y bpp v =
     (let v = v\<lparr>signature := [86, 69, 83, 65]\<rparr>;
          v = int32 0x10 ((regs 0)\<lparr>r_ax := 0x4F00, r_di := 0xF000\<rparr>) v;
          v = int32 0x10 ((regs 1)\<lparr>r_ax := 0x4F01, r_cx := 0x112, r_di := 0xEE00\<rparr>) v;
          v = int32 0x10 ((regs 2)\<lparr>r_ax := 0x4F02, r_bx := mode_number x y bpp\<rparr>) v;
          mi = vbeModeInfo v;
          v = v\<lparr>frameBuffer := mi_framebuffer mi\<rparr>;
          v = v\<lparr>kenel_frameBuffer := frameBuffer v - 0xC0000000, vbe_width := scast (mi_width mi),
                vbe_height := scast (mi_height mi), interrupts := False\<rparr>
      in v\<lparr>info := \<lparr>vi_width = scast (mi_width mi), vi_height = scast (mi_height mi), vi_bpp = mi_bpp mi, vi_pitch = mi_pitch mi,
            vi_kenel_frameBuffer = frameBuffer v - 0xC0000000, vi_frameBuffer = mi_framebuffer mi\<rparr>\<rparr>)"

definition k_setVgaMode :: "bios \<Rightarrow> (nat \<Rightarrow> regs16_t) \<Rightarrow> int \<Rightarrow> int \<Rightarrow> int \<Rightarrow> vga \<Rightarrow> bool \<times> vga" where
  "k_setVgaMode int32 regs width height bpp v =
     (let v = vbe_init int32 regs width height bpp v in (True, v\<lparr>vgainfo := Some (info v)\<rparr>))"

subsection \<open>Drawing\<close>

definition rgb :: "u32 \<Rightarrow> nat \<Rightarrow> u8" where
  "rgb color b = (if b = 0 then ucast (color AND 0xFF)
     else if b = 1 then ucast (drop_bit 8 (color AND 0xFF00)) else ucast (drop_bit 16 (color AND 0xFF0000)))"

definition put_rgb :: "u32 \<Rightarrow> u32 \<Rightarrow> vga \<Rightarrow> vga" where
  "put_rgb a color v = v\<lparr>vram := (vram v)(a := rgb color 0, a + 1 := rgb color 1, a + 2 := rgb color 2)\<rparr>"

definition k_clearVga :: "u32 \<Rightarrow> vga \<Rightarrow> vga option" where
  "k_clearVga color v = do {
     vi \<leftarrow> vgainfo v;
     for_range 0 (unat (vi_width vi * vi_height vi)) (\<lambda>i v.
       if 3 * i + 2 < 2147483648 then Some (put_rgb (vi_frameBuffer vi + of_nat (3 * i)) color v) else None) v }"

definition k_drawPixel :: "u32 \<Rightarrow> u32 \<Rightarrow> u32 \<Rightarrow> vga \<Rightarrow> vga" where
  "k_drawPixel x y color v = v"

definition k_drawRect :: "u32 \<Rightarrow> u32 \<Rightarrow> u32 \<Rightarrow> u32 \<Rightarrow> u32 \<Rightarrow> vga \<Rightarrow> vga option" where
  "k_drawRect xpos ypos width height color v = do {
     vi \<leftarrow> vgainfo v;
     if unat (height * 2) < 2147483648 \<and> 3 * ((unat (width * 3) + 2) div 3) < 2147483648 then
       for_range 0 (unat (height * 2)) (\<lambda>y.
         let offset = vi_width vi * 3 * (ypos + of_nat y) + xpos * 3
         in for_range 0 ((unat (width * 3) + 2) div 3) (\<lambda>j v.
              Some (put_rgb (vi_frameBuffer vi + (offset + of_nat (3 * j))) color v))) v
     else None }"

definition k_swapBuffer :: "vga \<Rightarrow> vga option" where
  "k_swapBuffer v = do {
     vi \<leftarrow> vgainfo v;
     v \<leftarrow> for_range 0 (unat (vi_width vi * vi_height vi * 3)) (\<lambda>i v.
       if unat (currentScreenpage v) < SCREEN_PAGE_NUM \<and> i < 2147483648
       then Some (v\<lparr>vram := (vram v)(vi_frameBuffer vi + of_nat i := vram v (screenbuffer v (unat (currentScreenpage v)) + of_nat i))\<rparr>)
       else None) v;
     Some (v\<lparr>currentScreenpage := (if currentScreenpage v = 0 then 1 else 0)\<rparr>) }"

subsection \<open>Closed forms\<close>

text \<open>\<open>area fb S g v\<close>: the bytes of memory whose offset from \<open>fb\<close> is in \<open>S\<close> are replaced by \<open>g\<close> of that offset.\<close>

definition area :: "u32 \<Rightarrow> (nat \<Rightarrow> bool) \<Rightarrow> (nat \<Rightarrow> u8) \<Rightarrow> vga \<Rightarrow> vga" where
  "area fb S g v = v\<lparr>vram := \<lambda>a. if S (unat (a - fb)) then g (unat (a - fb)) else vram v a\<rparr>"

lemma area_area: "area fb S g (area fb T g v) = area fb (\<lambda>q. S q \<or> T q) g v"
  by (simp add: area_def fun_eq_iff)

lemma area_none [simp]: "area fb (\<lambda>_. False) g v = v"
  by (simp add: area_def)

lemma offset_eq: "p < 4294967296 \<Longrightarrow> a = fb + of_nat p \<longleftrightarrow> unat (a - fb) = p" for a fb :: u32
proof
  assume "p < 4294967296" "unat (a - fb) = p"
  then have "of_nat p = a - fb" by auto
  then show "a = fb + of_nat p" by simp
qed (simp add: unat_of_nat take_bit_eq_mod)

lemma put_rgb_area:
  assumes "3 * p + 2 < 4294967296"
  shows "put_rgb (fb + of_nat (3 * p)) color v = area fb (\<lambda>q. q div 3 = p) (\<lambda>q. rgb color (q mod 3)) v"
proof -
  have a: "fb + of_nat (3 * p) + 1 = fb + of_nat (3 * p + 1)" "fb + of_nat (3 * p) + 2 = fb + of_nat (3 * p + 2)" by simp_all
  have e: "a = fb + of_nat (3 * p) \<longleftrightarrow> unat (a - fb) = 3 * p" "a = fb + of_nat (3 * p + 1) \<longleftrightarrow> unat (a - fb) = 3 * p + 1"
    "a = fb + of_nat (3 * p + 2) \<longleftrightarrow> unat (a - fb) = 3 * p + 2" for a
    using assms by (intro offset_eq; simp)+
  have d: "q div 3 = p \<longleftrightarrow> q = 3 * p \<or> q = 3 * p + 1 \<or> q = 3 * p + 2" for q :: nat
    by linarith
  have "((vram v)(fb + of_nat (3 * p) := rgb color 0, fb + of_nat (3 * p + 1) := rgb color 1, fb + of_nat (3 * p + 2) := rgb color 2)) a =
      (if unat (a - fb) div 3 = p then rgb color (unat (a - fb) mod 3) else vram v a)" for a
  proof -
    define q where "q = unat (a - fb)"
    show ?thesis
      unfolding fun_upd_apply e d q_def [symmetric]
      by (cases "q = 3 * p"; cases "q = 3 * p + 1"; cases "q = 3 * p + 2") (simp_all add: mod_Suc numeral_2_eq_2)
  qed
  then show ?thesis unfolding put_rgb_def area_def a by (intro arg_cong [where f = "\<lambda>m. v\<lparr>vram := m\<rparr>"] ext)
qed

lemma rgb_run:
  assumes "3 * (p + n) < 4294967296"
  shows "for_range 0 n (\<lambda>j v. Some (put_rgb (fb + of_nat (3 * (p + j))) color v)) v =
    Some (area fb (\<lambda>q. p \<le> q div 3 \<and> q div 3 < p + n) (\<lambda>q. rgb color (q mod 3)) v)"
proof (rule for_range_closed [where F = "\<lambda>n. area fb (\<lambda>q. p \<le> q div 3 \<and> q div 3 < p + n) (\<lambda>q. rgb color (q mod 3)) v"])
  fix j assume "j < n"
  then have "3 * (p + j) + 2 < 4294967296" using assms by simp
  moreover have "(\<lambda>q. q div 3 = p + j \<or> p \<le> q div 3 \<and> q div 3 < p + j) = (\<lambda>q. p \<le> q div 3 \<and> q div 3 < p + Suc j)" by auto
  ultimately show "Some (put_rgb (fb + of_nat (3 * (p + j))) color (area fb (\<lambda>q. p \<le> q div 3 \<and> q div 3 < p + j) (\<lambda>q. rgb color (q mod 3)) v)) =
      Some (area fb (\<lambda>q. p \<le> q div 3 \<and> q div 3 < p + Suc j) (\<lambda>q. rgb color (q mod 3)) v)"
    by (simp only: put_rgb_area area_area)
next
  have "(\<lambda>q. p \<le> q div 3 \<and> q div 3 < p + 0) = (\<lambda>_. False)" by auto
  then show "area fb (\<lambda>q. p \<le> q div 3 \<and> q div 3 < p + 0) (\<lambda>q. rgb color (q mod 3)) v = v" by (simp only: area_none)
qed simp

text \<open>A run of pixels in one line of the frame buffer.\<close>

lemma line_pixels:
  fixes c :: nat
  assumes "x + w \<le> W"
  shows "W * r + x \<le> c \<and> c < W * r + x + w \<longleftrightarrow> c div W = r \<and> x \<le> c mod W \<and> c mod W < x + w"
proof (cases "W = 0 \<or> w = 0")
  case False
  have "W * (c div W) + c mod W = c" by simp
  moreover have "c mod W < W" using False by simp
  moreover have "c div W = r" if "W * r + x \<le> c" "c < W * r + x + w"
    by (rule div_nat_eqI) (use that assms in \<open>simp_all add: algebra_simps\<close>)
  ultimately show ?thesis by (metis add.assoc add_le_cancel_left add_less_cancel_left)
qed (use assms in auto)

lemma draw_rect_area:
  assumes v: "vgainfo v = Some vi" and W: "unat (vi_width vi) = W" and fit: "unat xpos + unat width \<le> W"
    and small: "3 * (W * (unat ypos + 2 * unat height)) < 2147483648" and pos: "0 < unat width" "0 < unat height"
  shows "k_drawRect xpos ypos width height color v = Some (area (vi_frameBuffer vi)
    (\<lambda>q. unat ypos \<le> q div 3 div W \<and> q div 3 div W < unat ypos + 2 * unat height \<and>
         unat xpos \<le> q div 3 mod W \<and> q div 3 mod W < unat xpos + unat width) (\<lambda>q. rgb color (q mod 3)) v)"
proof -
  let ?x = "unat xpos" and ?y = "unat ypos" and ?w = "unat width" and ?h = "unat height" and ?fb = "vi_frameBuffer vi"
  let ?in = "\<lambda>n q. ?y \<le> q div 3 div W \<and> q div 3 div W < ?y + n \<and> ?x \<le> q div 3 mod W \<and> q div 3 mod W < ?x + ?w"
  let ?F = "\<lambda>n. area ?fb (?in n) (\<lambda>q. rgb color (q mod 3)) v"
  have Wpos: "0 < W" using fit pos(1) by simp
  have "2 * ?h \<le> W * (?y + 2 * ?h)" using Wpos by (cases W) auto
  then have h2: "2 * ?h < 2147483648" using small by linarith
  have "W \<le> W * (?y + 2 * ?h)" using pos(2) by (cases "?y + 2 * ?h") auto
  then have w3: "3 * ?w < 2147483648" using small fit by linarith
  have uh: "unat (height * 2) = 2 * ?h" using h2 by (simp add: unat_word_ariths)
  have uw: "unat (width * 3) = 3 * ?w" using w3 by (simp add: unat_word_ariths)
  have row: "for_range 0 ?w (\<lambda>j v. Some (put_rgb (?fb + (vi_width vi * 3 * (ypos + of_nat n) + xpos * 3 + of_nat (3 * j))) color v)) (?F n) =
      Some (?F (Suc n))" if n: "n < 2 * ?h" for n
  proof -
    let ?p = "W * (?y + n) + ?x"
    have le: "W * Suc (?y + n) \<le> W * (?y + 2 * ?h)" using n by (intro mult_le_mono) simp_all
    then have b: "3 * (?p + ?w) < 4294967296" using small fit by simp
    have off: "vi_width vi * 3 * (ypos + of_nat n) + xpos * 3 + of_nat (3 * j) = of_nat (3 * (?p + j))" for j
      by (simp add: algebra_simps flip: W)
    have "for_range 0 ?w (\<lambda>j v. Some (put_rgb (?fb + of_nat (3 * (?p + j))) color v)) (?F n) =
        Some (area ?fb (\<lambda>q. ?p \<le> q div 3 \<and> q div 3 < ?p + ?w) (\<lambda>q. rgb color (q mod 3)) (?F n))"
      by (rule rgb_run [OF b])
    moreover have "(\<lambda>q. (?p \<le> q div 3 \<and> q div 3 < ?p + ?w) \<or> ?in n q) = ?in (Suc n)"
      unfolding line_pixels [OF fit] by (auto simp: fun_eq_iff)
    ultimately show ?thesis unfolding off by (simp only: area_area)
  qed
  have "for_range 0 (2 * ?h) (\<lambda>n. for_range 0 ?w (\<lambda>j v. Some (put_rgb (?fb + (vi_width vi * 3 * (ypos + of_nat n) + xpos * 3 + of_nat (3 * j))) color v))) v =
      Some (?F (2 * ?h))"
  proof (rule for_range_closed [where F = ?F])
    have "?in 0 = (\<lambda>_. False)" by auto
    then show "?F 0 = v" by (simp only: area_none)
  qed (use row in simp_all)
  moreover have "(3 * ?w + 2) div 3 = ?w" by simp
  ultimately show ?thesis using w3 h2 unfolding k_drawRect_def v bind.bind_lunit uh uw Let_def by (simp add: mult.commute)
qed

text \<open>
  \<^verbatim>\<open>k_drawRect\<close> paints the rectangle of the given width but of twice the given height: on a frame
  buffer of \<open>W\<close> pixels a line that holds it, pixel \<open>(c, r)\<close> gets the colour, blue byte first, exactly when
  \<open>x \<le> c < x + width\<close> and \<open>y \<le> r < y + 2 * height\<close>, and no other byte of the frame buffer changes.
\<close>

theorem k_drawRect_doubles:
  assumes "vgainfo v = Some vi" and "unat (vi_width vi) = W" and "unat xpos + unat width \<le> W"
    and "3 * (W * (unat ypos + 2 * unat height)) < 2147483648" and "0 < unat width" and "0 < unat height"
  shows "\<exists>v'. k_drawRect xpos ypos width height color v = Some v' \<and>
    (\<forall>c r b. c < W \<longrightarrow> b < 3 \<longrightarrow> 3 * (W * r + c) + b < 4294967296 \<longrightarrow>
       vram v' (vi_frameBuffer vi + of_nat (3 * (W * r + c) + b)) =
         (if unat xpos \<le> c \<and> c < unat xpos + unat width \<and> unat ypos \<le> r \<and> r < unat ypos + 2 * unat height
          then rgb color b else vram v (vi_frameBuffer vi + of_nat (3 * (W * r + c) + b))))"
proof -
  have "(3 * p + b) div 3 = p" "(3 * p + b) mod 3 = b" if "b < 3" for p b :: nat
    using that by simp_all
  moreover have "(W * r + c) div W = r" "(W * r + c) mod W = c" if "c < W" for r c
    using that by simp_all
  moreover have "unat (vi_frameBuffer vi + of_nat q - vi_frameBuffer vi) = q" if "q < 4294967296" for q
    using that by (simp add: unat_of_nat take_bit_eq_mod)
  ultimately show ?thesis
    unfolding draw_rect_area [OF assms] area_def by (auto simp del: of_nat_add of_nat_mult add_diff_cancel_left' distrib_left distrib_left_numeral)
qed

definition demo_vga :: vga where
  "demo_vga = (let vi = \<lparr>vi_width = 640, vi_height = 480, vi_bpp = 24, vi_pitch = 1920, vi_kenel_frameBuffer = 0x20000000, vi_frameBuffer = 0xE0000000\<rparr> in
     \<lparr>vbeModeInfo = \<lparr>mi_pitch = 1920, mi_width = 640, mi_height = 480, mi_bpp = 24, mi_framebuffer = 0xE0000000\<rparr>, signature = [],
      display_mode = 3, frameBuffer = 0, kenel_frameBuffer = 0, vbe_width = 0, vbe_height = 0, info = vi, interrupts = True, vgainfo = Some vi,
      screenbuffer = \<lambda>_. 0, currentScreenpage = 0, vram = \<lambda>_. 0\<rparr>)"

theorem k_drawRect_doubles_witness:
  "\<exists>v'. k_drawRect 10 20 5 2 0x112233 demo_vga = Some v' \<and>
     vram v' (0xE0000000 + of_nat (3 * (640 * 23 + 10) + 0)) = 0x33 \<and> vram v' (0xE0000000 + of_nat (3 * (640 * 24 + 10) + 0)) = 0"
proof -
  let ?vi = "\<lparr>vi_width = 640, vi_height = 480, vi_bpp = 24, vi_pitch = 1920, vi_kenel_frameBuffer = 0x20000000, vi_frameBuffer = 0xE0000000\<rparr>"
  have i: "vgainfo demo_vga = Some ?vi" "vram demo_vga = (\<lambda>_. 0)" by (simp_all add: demo_vga_def Let_def)
  obtain v' where v': "k_drawRect 10 20 5 2 0x112233 demo_vga = Some v'"
    and px: "\<And>c r b. c < 640 \<Longrightarrow> b < 3 \<Longrightarrow> 3 * (640 * r + c) + b < 4294967296 \<Longrightarrow> vram v' (0xE0000000 + of_nat (3 * (640 * r + c) + b)) =
         (if 10 \<le> c \<and> c < 10 + 5 \<and> 20 \<le> r \<and> r < 20 + 2 * 2 then rgb 0x112233 b else 0)"
    using k_drawRect_doubles [OF i(1), of 640 10 5 20 2 "0x112233"] by (auto simp: i(2))
  show ?thesis using v' px [of 10 0 23] px [of 10 0 24] by (simp add: rgb_def)
qed

subsection \<open>The reported mode\<close>

text \<open>What the VBE functions 4F01h and 4F02h do, for an adapter with the mode table \<open>modes\<close>.\<close>

definition vbe_bios :: "(u16 \<Rightarrow> vbe_mode_info_structure) \<Rightarrow> bios \<Rightarrow> bool" where
  "vbe_bios modes int32 \<longleftrightarrow>
     (\<forall>r v. r_ax r = 0x4F01 \<and> r_di r = 0xEE00 \<longrightarrow> vbeModeInfo (int32 0x10 r v) = modes (r_cx r)) \<and>
     (\<forall>r v. r_ax r = 0x4F02 \<longrightarrow> vbeModeInfo (int32 0x10 r v) = vbeModeInfo v \<and> display_mode (int32 0x10 r v) = r_bx r AND 0x3FFF)"

text \<open>
  \<^verbatim>\<open>k_setVgaMode\<close> always reports the dimensions of mode \<^verbatim>\<open>0x112\<close>, whichever mode it sets: after a request for
  320 by 200 pixels the adapter is in mode \<^verbatim>\<open>0x10F\<close> and the drawing routines use the line length of another mode.
\<close>

theorem k_setVgaMode_reports_0x112:
  assumes "vbe_bios modes int32"
  shows "\<exists>v' vi. k_setVgaMode int32 regs x y bpp v = (True, v') \<and> vgainfo v' = Some vi \<and> \<not> interrupts v' \<and>
    vi_width vi = scast (mi_width (modes 0x112)) \<and> vi_height vi = scast (mi_height (modes 0x112)) \<and>
    vi_frameBuffer vi = mi_framebuffer (modes 0x112) \<and>
    display_mode v' = (if x = 320 \<and> y = 200 \<and> bpp = 24 then 0x10F else if x = 800 \<and> y = 600 \<and> bpp = 24 then 0x115 else 0x112)"
  using assms by (auto simp: k_setVgaMode_def vbe_init_def vbe_bios_def mode_number_def Let_def)

theorem k_setVgaMode_reports_0x112_witness:
  "\<exists>v' vi. k_setVgaMode (\<lambda>n r v. if r_ax r = 0x4F01 then v\<lparr>vbeModeInfo := \<lparr>mi_pitch = 1920, mi_width = (if r_cx r = 0x112 then 640 else 320),
       mi_height = 480, mi_bpp = 24, mi_framebuffer = 0xE0000000\<rparr>\<rparr> else if r_ax r = 0x4F02 then v\<lparr>display_mode := r_bx r AND 0x3FFF\<rparr> else v)
     (\<lambda>_. \<lparr>r_di = 0, r_si = 0, r_bp = 0, r_sp = 0, r_bx = 0, r_dx = 0, r_cx = 0, r_ax = 0, r_gs = 0, r_fs = 0, r_es = 0, r_ds = 0, r_eflags = 0\<rparr>)
     320 200 24 demo_vga = (True, v') \<and> vgainfo v' = Some vi \<and> vi_width vi = 640 \<and> display_mode v' = 0x10F"
proof -
  let ?b = "\<lambda>n r v. if r_ax r = 0x4F01 then v\<lparr>vbeModeInfo := \<lparr>mi_pitch = 1920, mi_width = (if r_cx r = 0x112 then 640 else 320),
       mi_height = 480, mi_bpp = 24, mi_framebuffer = 0xE0000000\<rparr>\<rparr> else if r_ax r = 0x4F02 then v\<lparr>display_mode := r_bx r AND 0x3FFF\<rparr> else v"
  let ?r = "\<lambda>_. \<lparr>r_di = 0, r_si = 0, r_bp = 0, r_sp = 0, r_bx = 0, r_dx = 0, r_cx = 0, r_ax = 0, r_gs = 0, r_fs = 0, r_es = 0, r_ds = 0, r_eflags = 0\<rparr>"
  have "vbe_bios (\<lambda>c. \<lparr>mi_pitch = 1920, mi_width = (if c = 0x112 then 640 else 320), mi_height = 480, mi_bpp = 24, mi_framebuffer = 0xE0000000\<rparr>) ?b"
    by (simp add: vbe_bios_def)
  from k_setVgaMode_reports_0x112 [OF this, of ?r 320 200 24 demo_vga] show ?thesis by auto
qed

end
