(* ===== verification/Spec2Isabelle.thy ===== *)
theory Spec2Isabelle
  imports Apple_Address Apple_Arith Apple_Stack Kernel_Test Kheap_Release Paging Reports Vga
begin

text \<open>
  \<^bold>\<open>B2OS\<close> is a small i386 kernel that boots into an emulator of the Apple II.  This development models the C
  code of both, \<^verbatim>\<open>src/Src\<close> and \<^verbatim>\<open>src/Apple2\<close>, and proves what makes its parts correct; where the code does not do
  what it means to, a theorem says what it does.

  \<^bold>\<open>The program and the theories.\<close>  The kernel (\<^verbatim>\<open>Src/kernel.c\<close>) sets up console, descriptor table, timer, allocator
  and random numbers, starts the emulated machine (\<^verbatim>\<open>Apple2/AppleMachine.c\<close>) and then loops: run the machine for a
  budget of cycles, draw a frame, print a line.

  \<^item> Foundations: \<open>Prelude\<close> (machine words, arrays with bounds, relations through fallible operations), \<open>Mem_Ops\<close>
    (\<^verbatim>\<open>memset\<close>, \<^verbatim>\<open>memcpy\<close>), \<open>Loops\<close> (counting loops with a total-correctness rule and a closed-form rule),
    \<open>Block_List\<close> (linked lists of blocks that tile an arena, the abstract release of a block, and the locale \<open>allocator\<close> on
    which both heaps rest).
  \<^item> The 6502 (\<^verbatim>\<open>AppleCpu.c\<close>): \<open>Apple_State\<close> (the records), \<open>Apple_Cpu\<close> (helpers, addressing modes, arithmetic),
    \<open>Apple_Opcodes\<close> (the header's opcodes), \<open>Apple_Instr\<close> (every case of the instruction switch and the loop of \<^verbatim>\<open>ac_Run\<close>).
    \<open>Apple_Address\<close> relates the addressing modes to a reference on natural numbers, \<open>Apple_Arith\<close> arithmetic, comparisons and shifts to integers, signed integers and BCD, \<open>Apple_Stack\<close> the stack
    to a list (through the locale \<open>lifo\<close>) and calls and interrupts to their returns, \<open>Apple_Cycles\<close> the budget to a cost table, with termination
    and non-termination of \<^verbatim>\<open>ac_Run\<close>.
  \<^item> Memory and devices (\<^verbatim>\<open>AppleMem.c\<close>, \<^verbatim>\<open>AppleDevice.c\<close>): \<open>Apple_Device\<close>, \<open>Apple_Mem\<close>.  \<open>Apple_Bus\<close> states the interface of
    CPU and bus as two locales: \<open>bus_graded\<close> carries a relation indexed by the number of bus accesses through one
    instruction, \<open>bus_contract\<close> a transitive one through every program.  \<open>Apple_Safety\<close> interprets
    them for ROM, tick counter, drive, paddles and the movement of the heads.  \<open>Apple_Demo\<close> has the small programs of the witnesses.
  \<^item> The display (\<^verbatim>\<open>ad_Render\<close>, \<^verbatim>\<open>AppleFont.c\<close>): \<open>Apple_Video\<close> (operations), \<open>Apple_Screen\<close> (text and low resolution),
    \<open>Apple_Hires\<close> (high resolution), \<open>Apple_Frame\<close> (all modes: no frame faults, a frame of the refresh shows the memory, frames
    between two refreshes can be stale), \<open>Apple_Font\<close> (bitmaps and glyph tables).  A frame that redraws only what its
    caches say has changed equals the picture of the whole page.
  \<^item> The machine (\<^verbatim>\<open>AppleMachine.c\<close>): \<open>Apple_Machine\<close> (power-up, reset, running and polling the drive), \<open>Machine_Contract\<close>
    (the states a running machine comes to, why it faults, and the locale \<open>machine_contract\<close>, which extends the bus
    contract to \<^verbatim>\<open>machine_Run\<close>).
  \<^item> The kernel: \<open>Kmem\<close> (\<^verbatim>\<open>memory.c\<close>: \<^verbatim>\<open>malloc\<close> and \<^verbatim>\<open>free\<close> refine first fit and release with coalescing on an abstract
    block list), \<open>Kmem_Stack\<close> (blocks lie in the arena; freed in the reverse order of allocation they give the heap back), \<open>Kheap\<close> and \<open>Kheap_Release\<close> (\<^verbatim>\<open>memory/heap.c\<close>, whose \<^verbatim>\<open>heap_free\<close> refines the same release), \<open>Reports\<close> (the
    heap dump and the memory sizes), \<open>Console\<close> and \<open>Console_Text\<close> (\<^verbatim>\<open>console.c\<close>: \<^verbatim>\<open>itoa\<close>, \<^verbatim>\<open>printf\<close> as a pure formatter, text
    that stays on the screen), \<open>Interrupts\<close> (\<^verbatim>\<open>idt.c\<close>, \<^verbatim>\<open>isr.c\<close>, \<^verbatim>\<open>timer.c\<close>, \<^verbatim>\<open>util.c\<close>), \<open>Paging\<close> (\<^verbatim>\<open>memory/page.c\<close>), \<open>Vga\<close>
    (\<^verbatim>\<open>vbe.c\<close>, \<^verbatim>\<open>vga.c\<close>), and \<open>Kernel\<close> (\<^verbatim>\<open>kernel.c\<close>), which composes them: start-up returns, the invariant of the main
    loop holds at every turn, every 30th round leaves on the screen exactly what the emulated machine's memory and mode
    switches call for, and the loop can stop only at an instruction of the mode \<^verbatim>\<open>($zp,X)\<close> or with a drive head near the end of the disk image
    or past it.  \<open>Kernel_Test\<close> shows that its allocator test
    ends and leaves the allocator as it found it.

  \<^bold>\<open>Conventions.\<close>  A C struct or the static variables of a file are a record, a \<open>w\<close>-bit integer is a word of that width, an
  array is a function on indices whose accesses are checked against its size.  An operation that can leave an array or the object its pointer
  points to, divide by zero or follow a null pointer returns an option, and \<open>None\<close> is that fault.  Loops that may not end are partial
  functions into a further option, in which \<open>None\<close> is not returning: \<open>ac_Run\<close>, \<open>machine_Run\<close>, \<open>kernel_loop\<close> and \<open>init_kernel\<close>
  have type \<open>... option option\<close>, and that they return is proved as such.  No fuel is used.  The block headers of the two
  heaps are a typed store from addresses to records beside the bytes of the arena; that headers do not overlap payloads
  is part of the invariants, and where an operation may write through a stale link a theorem says so.  The bitmap buffers of \<^verbatim>\<open>af_Create\<close> are kept as values of their own between their \<^verbatim>\<open>malloc\<close>
  and \<^verbatim>\<open>free\<close>.  Floats of the paddle code are rationals rounded to single precision.  Writes to ports are a trace.

  \<^bold>\<open>Parameters.\<close>  What is not C code of the program enters as an argument: the ROM and disk images, the addresses of the
  assembly stubs and of the linker's sections, the meaning of a handler's address, the BIOS call, the arrival of timer
  interrupts at the reads of the clock, the memory map of the boot loader, and the value of an uninitialised local or of an
  argument \<^verbatim>\<open>printf\<close> is not given.

  \<^bold>\<open>Not modelled.\<close>  The boot loader and the entry stubs (assembly); the tables \<^verbatim>\<open>rombios.h\<close>, \<^verbatim>\<open>LodeRunner.c\<close>, \<^verbatim>\<open>k.c\<close>, \<^verbatim>\<open>u4.c\<close>, \<^verbatim>\<open>u5.c\<close>, for
  whose every content the theorems hold; the functions of \<^verbatim>\<open>AppleDevice.c\<close> and \<^verbatim>\<open>memory.c\<close> whose bodies are
  commented out (keyboard, game pad, sound, \<^verbatim>\<open>dump_heap\<close>); the port reads, single instructions that no C code calls; \<^verbatim>\<open>runDemo\<close>, which is compiled out; the projects collected under \<^verbatim>\<open>Doc\<close>.
  Interrupts are delivered where the kernel reads the clock, not between arbitrary instructions.
\<close>

end
